(* ===== verification/Prelude.thy ===== *)
theory Prelude
  imports Main "HOL-Library.Word" "HOL-Library.List_Lexorder" "HOL-Library.Char_ord"
    "HOL-Library.Sublist"
begin

text \<open>
  What the components share: the outcome of a Go call (a value, an error or a panic), error
  values with the chain that \<open>errors.As\<close> walks, the functions of Go's \<open>strings\<close>,
  \<open>strconv\<close> and \<open>encoding/hex\<close> that the source calls, and the lemma collections.
  Strings are byte strings (\<open>char list\<close>), as Go's are.
\<close>

named_theorems go_simps \<open>unfolding of outcomes, errors and their accessors\<close>
named_theorems str_simps \<open>facts about the string functions\<close>

unbundle bit_operations_syntax

section \<open>Errors and outcomes\<close>

text \<open>
  \<open>EMsg\<close> is an error made by \<open>errors.New\<close> or by \<open>fmt.Errorf\<close> without \<open>%w\<close>;
  \<open>EWrap p e\<close> is \<open>fmt.Errorf("p: %w", e)\<close>; \<open>ECoded c m r\<close> is a value of one of the
  types with a method \<open>JSONRPCCode\<close> (code \<open>c\<close>), a message prefix \<open>m\<close> and the wrapped
  error \<open>r\<close>; \<open>EApprovalTimeout\<close> is the sentinel \<open>ErrApprovalTimeout\<close> and
  \<open>ENotExist\<close> the sentinel \<open>fs.ErrNotExist\<close>. \<open>EJson\<close> is any error of
  \<open>encoding/json\<close>: the code never inspects it, only wraps and prints it, and its text is
  represented by one fixed string.
\<close>

datatype goerr =
    EMsg string
  | EWrap string goerr
  | ECoded int string "goerr option"
  | EApprovalTimeout
  | ENotExist
  | EJson

fun err_text :: "goerr \<Rightarrow> string" where
  "err_text (EMsg m) = m"
| "err_text (EWrap p e) = p @ '': '' @ err_text e"
| "err_text (ECoded c m None) = m"
| "err_text (ECoded c m (Some e)) = m @ '': '' @ err_text e"
| "err_text EApprovalTimeout = ''approval timeout''"
| "err_text ENotExist = ''file does not exist''"
| "err_text EJson = ''json: invalid input''"

text \<open>\<open>errors.Is(err, ErrApprovalTimeout)\<close> and \<open>errors.Is(err, fs.ErrNotExist)\<close>.\<close>

fun err_is :: "goerr \<Rightarrow> goerr \<Rightarrow> bool" where
  "err_is t (EWrap p e) = (t = EWrap p e \<or> err_is t e)"
| "err_is t (ECoded c m (Some e)) = (t = ECoded c m (Some e) \<or> err_is t e)"
| "err_is t e = (t = e)"

text \<open>A Go call returns, fails with an error, or panics.\<close>

datatype 'a go = Ret 'a | Fail goerr | Panic string

fun is_ret :: "'a go \<Rightarrow> bool" where
  "is_ret (Ret _) = True"
| "is_ret _ = False"

fun is_panic :: "'a go \<Rightarrow> bool" where
  "is_panic (Panic _) = True"
| "is_panic _ = False"

fun go_bind :: "'a go \<Rightarrow> ('a \<Rightarrow> 'b go) \<Rightarrow> 'b go" where
  "go_bind (Ret x) f = f x"
| "go_bind (Fail e) f = Fail e"
| "go_bind (Panic p) f = Panic p"

lemma go_bind_Ret_iff [go_simps]: "go_bind r f = Ret y \<longleftrightarrow> (\<exists>x. r = Ret x \<and> f x = Ret y)"
  by (cases r) auto

section \<open>Strings\<close>

text \<open>\<open>strings.HasPrefix\<close> and \<open>strings.Contains\<close> (the needle is the second argument,
  as in Go).\<close>

fun has_prefix :: "string \<Rightarrow> string \<Rightarrow> bool" where
  "has_prefix s [] = True"
| "has_prefix [] (p # ps) = False"
| "has_prefix (c # s) (p # ps) = (c = p \<and> has_prefix s ps)"

fun contains :: "string \<Rightarrow> string \<Rightarrow> bool" where
  "contains [] sub = (sub = [])"
| "contains (c # s) sub = (has_prefix (c # s) sub \<or> contains s sub)"

lemma has_prefix_iff [str_simps]: "has_prefix s p \<longleftrightarrow> (\<exists>r. s = p @ r)"
  by (induction s p rule: has_prefix.induct) auto

lemma contains_iff: "contains s sub \<longleftrightarrow> (\<exists>a b. s = a @ sub @ b)"
proof (induction s)
  case Nil
  then show ?case by auto
next
  case (Cons c s)
  have "(\<exists>a b. c # s = a @ sub @ b) \<longleftrightarrow>
      (\<exists>b. c # s = sub @ b) \<or> (\<exists>a b. s = a @ sub @ b)" (is "?l \<longleftrightarrow> ?r")
  proof
    assume ?l
    then obtain a b where ab: "c # s = a @ sub @ b" by blast
    then show ?r by (cases a) auto
  next
    assume ?r
    then show ?l
    proof
      assume "\<exists>b. c # s = sub @ b"
      then obtain b where "c # s = [] @ sub @ b" by auto
      then show ?l by blast
    next
      assume "\<exists>a b. s = a @ sub @ b"
      then obtain a b where "c # s = (c # a) @ sub @ b" by auto
      then show ?l by blast
    qed
  qed
  with Cons show ?case by (auto simp: has_prefix_iff)
qed

lemma contains_append_cancel: "contains (a @ sub @ b) sub"
  by (auto simp: contains_iff)

lemma has_prefix_append [simp]: "has_prefix (p @ r) p"
  by (auto simp: has_prefix_iff)

text \<open>\<open>strings.TrimPrefix\<close>, and \<open>strings.TrimRight(s, "/")\<close> for one cut byte.\<close>

definition trim_prefix :: "string \<Rightarrow> string \<Rightarrow> string" where
  "trim_prefix s p = (if has_prefix s p then drop (length p) s else s)"

definition trim_right_char :: "char \<Rightarrow> string \<Rightarrow> string" where
  "trim_right_char c s = rev (dropWhile (\<lambda>x. x = c) (rev s))"

text \<open>
  \<open>strings.TrimSpace\<close>: white space is a set of UTF-8 byte sequences, the six ASCII ones and the
  Unicode ones (U+0085, U+00A0, U+1680, U+2000 to U+200A, U+2028, U+2029, U+202F, U+205F,
  U+3000). The result is exact on valid UTF-8.
\<close>

definition space_seqs :: "string list" where
  "space_seqs = [[CHR 32], [CHR 9], [CHR 10], [CHR 11], [CHR 12], [CHR 13],
     [CHR 0xC2, CHR 0x85], [CHR 0xC2, CHR 0xA0], [CHR 0xE1, CHR 0x9A, CHR 0x80],
     [CHR 0xE2, CHR 0x80, CHR 0x80], [CHR 0xE2, CHR 0x80, CHR 0x81],
     [CHR 0xE2, CHR 0x80, CHR 0x82], [CHR 0xE2, CHR 0x80, CHR 0x83],
     [CHR 0xE2, CHR 0x80, CHR 0x84], [CHR 0xE2, CHR 0x80, CHR 0x85],
     [CHR 0xE2, CHR 0x80, CHR 0x86], [CHR 0xE2, CHR 0x80, CHR 0x87],
     [CHR 0xE2, CHR 0x80, CHR 0x88], [CHR 0xE2, CHR 0x80, CHR 0x89],
     [CHR 0xE2, CHR 0x80, CHR 0x8A], [CHR 0xE2, CHR 0x80, CHR 0xA8],
     [CHR 0xE2, CHR 0x80, CHR 0xA9], [CHR 0xE2, CHR 0x80, CHR 0xAF],
     [CHR 0xE2, CHR 0x81, CHR 0x9F], [CHR 0xE3, CHR 0x80, CHR 0x80]]"

fun trim_seqs :: "nat \<Rightarrow> string list \<Rightarrow> string \<Rightarrow> string" where
  "trim_seqs 0 seqs s = s"
| "trim_seqs (Suc n) seqs s =
     (case find (\<lambda>q. has_prefix s q) seqs of
        None \<Rightarrow> s
      | Some q \<Rightarrow> trim_seqs n seqs (drop (length q) s))"

definition trim_space :: "string \<Rightarrow> string" where
  "trim_space s =
     (let l = trim_seqs (length s) space_seqs s
      in rev (trim_seqs (length l) (map rev space_seqs) (rev l)))"

text \<open>ASCII case mapping.\<close>

definition to_upper_char :: "char \<Rightarrow> char" where
  "to_upper_char c = (if CHR ''a'' \<le> c \<and> c \<le> CHR ''z'' then char_of (of_char c - (32::nat)) else c)"

definition to_lower_char :: "char \<Rightarrow> char" where
  "to_lower_char c = (if CHR ''A'' \<le> c \<and> c \<le> CHR ''Z'' then char_of (of_char c + (32::nat)) else c)"

definition to_lower :: "string \<Rightarrow> string" where
  "to_lower s = map to_lower_char s"

text \<open>\<open>strings.Join\<close> and \<open>strings.Split\<close> on a one-byte separator.\<close>

fun join :: "string \<Rightarrow> string list \<Rightarrow> string" where
  "join sep [] = []"
| "join sep [x] = x"
| "join sep (x # xs) = x @ sep @ join sep xs"

fun split_char :: "char \<Rightarrow> string \<Rightarrow> string list" where
  "split_char c [] = [[]]"
| "split_char c (x # xs) =
     (if x = c then [] # split_char c xs
      else (case split_char c xs of [] \<Rightarrow> [[x]] | l # ls \<Rightarrow> (x # l) # ls))"

lemma split_char_nonempty [simp]: "split_char c s \<noteq> []"
  by (induction s) (auto split: list.splits)

lemma join_split_char: "join [c] (split_char c s) = s"
proof (induction s)
  case Nil
  then show ?case by simp
next
  case (Cons x xs)
  show ?case
  proof (cases "split_char c xs")
    case Nil
    then show ?thesis by simp
  next
    case (Cons l ls)
    with Cons.IH show ?thesis by (cases ls) auto
  qed
qed

section \<open>Numbers as text\<close>

text \<open>\<open>strconv.Itoa\<close> and \<open>strconv.FormatInt(n, 10)\<close>.\<close>

definition digit_char :: "nat \<Rightarrow> char" where
  "digit_char d = char_of (48 + d)"

fun show_nat :: "nat \<Rightarrow> string" where
  "show_nat n = (if n < 10 then [digit_char n] else show_nat (n div 10) @ [digit_char (n mod 10)])"

declare show_nat.simps [simp del]

definition itoa :: "int \<Rightarrow> string" where
  "itoa i = (if i < 0 then CHR ''-'' # show_nat (nat (- i)) else show_nat (nat i))"

definition digit_val :: "char \<Rightarrow> nat option" where
  "digit_val c = (let n = of_char c in if 48 \<le> n \<and> n < (58::nat) then Some (n - 48) else None)"

fun digits_val :: "nat \<Rightarrow> string \<Rightarrow> nat option" where
  "digits_val acc [] = Some acc"
| "digits_val acc (c # cs) =
     (case digit_val c of None \<Rightarrow> None | Some d \<Rightarrow> digits_val (10 * acc + d) cs)"

text \<open>\<open>strconv.ParseInt(s, 10, 64)\<close>, and \<open>strconv.Atoi\<close>, which accepts the same texts on a
  64-bit platform: an optional sign, at least one digit, a value in the range of \<open>int64\<close>.\<close>

definition int64_min :: int where "int64_min = - (2 ^ 63)"
definition int64_max :: int where "int64_max = 2 ^ 63 - 1"

definition parse_digits :: "string \<Rightarrow> nat option" where
  "parse_digits s = (if s = [] then None else digits_val 0 s)"

fun parse_int64 :: "string \<Rightarrow> int option" where
  "parse_int64 s =
     (case s of
        [] \<Rightarrow> None
      | c # cs \<Rightarrow>
          (case parse_digits (if c = CHR ''-'' \<or> c = CHR ''+'' then cs else s) of
             None \<Rightarrow> None
           | Some n \<Rightarrow>
               let v = (if c = CHR ''-'' then - int n else int n)
               in if int64_min \<le> v \<and> v \<le> int64_max then Some v else None))"

lemma digit_val_digit_char [simp]: "d < 10 \<Longrightarrow> digit_val (digit_char d) = Some d"
  by (simp add: digit_val_def digit_char_def Let_def)

lemma digits_val_append:
  "digits_val a (xs @ ys) = (case digits_val a xs of None \<Rightarrow> None | Some b \<Rightarrow> digits_val b ys)"
  by (induction xs arbitrary: a) (auto split: option.splits)

lemma digits_val_show_nat: "digits_val a (show_nat n) = Some (a * 10 ^ length (show_nat n) + n)"
proof (induction n arbitrary: a rule: show_nat.induct)
  case (1 n)
  show ?case
  proof (cases "n < 10")
    case True
    then show ?thesis by (simp add: show_nat.simps [of n])
  next
    case False
    have len: "length (show_nat n) = Suc (length (show_nat (n div 10)))"
      using False by (simp add: show_nat.simps [of n])
    have "digits_val a (show_nat n) =
        Some (10 * (a * 10 ^ length (show_nat (n div 10)) + n div 10) + n mod 10)"
      using False "1.IH" by (simp add: show_nat.simps [of n] digits_val_append)
    then show ?thesis by (simp add: len algebra_simps)
  qed
qed

lemma show_nat_nonempty [simp]: "show_nat n \<noteq> []"
  by (subst show_nat.simps) simp

lemma digit_val_minus: "digit_val (CHR ''-'') = None"
  by (simp add: digit_val_def Let_def)

lemma digit_val_plus: "digit_val (CHR ''+'') = None"
  by (simp add: digit_val_def Let_def)

lemma digit_char_not_sign [simp]:
  "d < 10 \<Longrightarrow> digit_char d \<noteq> CHR ''-''" "d < 10 \<Longrightarrow> digit_char d \<noteq> CHR ''+''"
  by (metis digit_val_digit_char digit_val_minus option.distinct(1),
      metis digit_val_digit_char digit_val_plus option.distinct(1))

lemma hd_show_nat_not_sign: "hd (show_nat n) \<noteq> CHR ''-'' \<and> hd (show_nat n) \<noteq> CHR ''+''"
proof (induction n rule: show_nat.induct)
  case (1 n)
  then show ?case by (cases "n < 10") (simp_all add: show_nat.simps [of n])
qed

lemma parse_digits_show_nat [simp]: "parse_digits (show_nat n) = Some n"
  by (simp add: parse_digits_def digits_val_show_nat)

lemma parse_int64_itoa:
  assumes "int64_min \<le> i" "i \<le> int64_max"
  shows "parse_int64 (itoa i) = Some i"
proof (cases "i < 0")
  case True
  with assms show ?thesis by (simp add: itoa_def Let_def)
next
  case False
  obtain c cs where s: "show_nat (nat i) = c # cs"
    using show_nat_nonempty by (cases "show_nat (nat i)") auto
  with hd_show_nat_not_sign [of "nat i"] have c: "c \<noteq> CHR ''-''" "c \<noteq> CHR ''+''" by auto
  have "parse_digits (c # cs) = Some (nat i)" using s parse_digits_show_nat [of "nat i"] by simp
  with False assms c s show ?thesis by (simp add: itoa_def Let_def)
qed

lemma digit_char_is_digit: "c \<in> set (show_nat n) \<Longrightarrow> digit_val c \<noteq> None"
proof (induction n rule: show_nat.induct)
  case (1 n)
  then show ?case by (cases "n < 10") (auto simp: show_nat.simps [of n])
qed

lemma inj_show_nat: "show_nat m = show_nat n \<longleftrightarrow> m = n"
  by (metis parse_digits_show_nat option.inject)

text \<open>Bytes as two hexadecimal digits each, as \<open>%x\<close> of a byte slice and \<open>hex.EncodeToString\<close>
  print them.\<close>

definition hex_digit :: "nat \<Rightarrow> char" where
  "hex_digit d = (if d < 10 then char_of (48 + d) else char_of (87 + d))"

definition hex_byte :: "8 word \<Rightarrow> string" where
  "hex_byte b = [hex_digit (unat b div 16), hex_digit (unat b mod 16)]"

definition hex_bytes :: "8 word list \<Rightarrow> string" where
  "hex_bytes bs = concat (map hex_byte bs)"

lemma length_hex_bytes [simp]: "length (hex_bytes bs) = 2 * length bs"
  by (induction bs) (auto simp: hex_bytes_def hex_byte_def)

lemma inj_hex_digit: "a < 16 \<Longrightarrow> b < 16 \<Longrightarrow> hex_digit a = hex_digit b \<longleftrightarrow> a = b"
proof -
  assume ab: "a < 16" "b < 16"
  have *: "of_char (hex_digit d) = (if d < 10 then 48 + d else 87 + d)" if "d < 16" for d :: nat
    using that by (auto simp: hex_digit_def)
  show ?thesis
  proof
    assume "hex_digit a = hex_digit b"
    then have "of_char (hex_digit a) = (of_char (hex_digit b) :: nat)" by simp
    with ab show "a = b" by (simp add: * split: if_splits)
  qed simp
qed

lemma inj_hex_byte: "hex_byte a = hex_byte b \<longleftrightarrow> a = b"
proof
  assume "hex_byte a = hex_byte b"
  then have "hex_digit (unat a div 16) = hex_digit (unat b div 16)"
    "hex_digit (unat a mod 16) = hex_digit (unat b mod 16)"
    by (simp_all add: hex_byte_def)
  moreover have "unat x div 16 < 16" for x :: "8 word"
  proof -
    have "unat x < 2 ^ LENGTH(8)" by (rule unsigned_less)
    then show ?thesis by simp
  qed
  ultimately have "unat a div 16 = unat b div 16" "unat a mod 16 = unat b mod 16"
    using inj_hex_digit by auto
  then have "unat a = unat b" by (metis div_mult_mod_eq)
  then show "a = b" by (rule unsigned_word_eqI)
qed simp

lemma inj_hex_bytes: "length as = length bs \<Longrightarrow> hex_bytes as = hex_bytes bs \<longleftrightarrow> as = bs"
proof (induction as bs rule: list_induct2)
  case Nil
  then show ?case by simp
next
  case (Cons a as b bs)
  have "hex_bytes (a # as) = hex_bytes (b # bs) \<longleftrightarrow> hex_byte a = hex_byte b \<and> hex_bytes as = hex_bytes bs"
    by (auto simp: hex_bytes_def hex_byte_def)
  with Cons show ?case by (simp add: inj_hex_byte)
qed

text \<open>\<open>%q\<close> of a string (\<open>strconv.Quote\<close>); bytes from 128 on are taken to belong to
  printable runes.\<close>

definition quote_char :: "char \<Rightarrow> string" where
  "quote_char c =
     (if c = CHR 34 then [CHR 92, CHR 34]
      else if c = CHR 92 then [CHR 92, CHR 92]
      else if c = CHR 7 then [CHR 92, CHR ''a'']
      else if c = CHR 8 then [CHR 92, CHR ''b'']
      else if c = CHR 12 then [CHR 92, CHR ''f'']
      else if c = CHR 10 then [CHR 92, CHR ''n'']
      else if c = CHR 13 then [CHR 92, CHR ''r'']
      else if c = CHR 9 then [CHR 92, CHR ''t'']
      else if c = CHR 11 then [CHR 92, CHR ''v'']
      else if of_char c < (32::nat) \<or> of_char c = (127::nat)
      then [CHR 92, CHR ''x''] @ hex_byte (word_of_nat (of_char c))
      else [c])"

definition go_quote :: "string \<Rightarrow> string" where
  "go_quote s = [CHR 34] @ concat (map quote_char s) @ [CHR 34]"

section \<open>Options\<close>

fun the_default :: "'a \<Rightarrow> 'a option \<Rightarrow> 'a" where
  "the_default d None = d"
| "the_default d (Some x) = x"

section \<open>Association lists as Go maps\<close>

text \<open>A Go map whose iteration order matters is a list of pairs with distinct keys, in the order
  of that iteration; \<open>map_put\<close> is the assignment \<open>m[k] = v\<close>.\<close>

fun map_put :: "'k \<Rightarrow> 'v \<Rightarrow> ('k \<times> 'v) list \<Rightarrow> ('k \<times> 'v) list" where
  "map_put k v [] = [(k, v)]"
| "map_put k v ((k', v') # m) = (if k = k' then (k, v) # m else (k', v') # map_put k v m)"

lemma map_of_map_put [simp]: "map_of (map_put k v m) = (map_of m)(k \<mapsto> v)"
  by (induction k v m rule: map_put.induct) (auto simp: fun_eq_iff)

lemma keys_map_put [simp]: "fst ` set (map_put k v m) = insert k (fst ` set m)"
  by (induction k v m rule: map_put.induct) auto

lemma distinct_map_put [simp]:
  "distinct (map fst m) \<Longrightarrow> distinct (map fst (map_put k v m))"
proof (induction k v m rule: map_put.induct)
  case (2 k v k' v' m)
  then show ?case
    using keys_map_put [of k v m] by (auto simp flip: set_map)
qed auto

lemma map_of_sort_key [simp]:
  "distinct (map fst m) \<Longrightarrow> map_of (sort_key fst m) = map_of (m :: (string \<times> 'v) list)"
proof -
  assume d: "distinct (map fst m)"
  have "distinct (map fst (sort_key fst m))"
    using d by (simp add: distinct_map)
  then show ?thesis using d by (intro map_of_inject_set [THEN iffD2]) auto
qed

end
