(* ===== verification/Json.thy ===== *)
theory Json
  imports Prelude
begin

text \<open>
  The part of \<open>encoding/json\<close> the source uses. A JSON text is represented by the value it
  denotes, with object members in their order, duplicates included, and numbers as their literal
  text; a text that is not valid JSON is represented, where it can occur, by \<open>None\<close>. A
  \<open>json.RawMessage\<close> is a \<open>json option\<close>, \<open>None\<close> for the nil message. Go's dynamic values
  (the interface type \<open>any\<close>) are the type \<open>gval\<close>.
\<close>

section \<open>Floating point numbers\<close>

text \<open>A finite \<open>float64\<close>: sign, significand and binary exponent, in the unique form with a
  significand below \<open>2^53\<close> that is at least \<open>2^52\<close> unless the exponent is the least one.\<close>

datatype f64 = F64 (f64_neg: bool) (f64_mant: nat) (f64_exp: int)

fun bitlen :: "nat \<Rightarrow> nat" where
  "bitlen n = (if n = 0 then 0 else Suc (bitlen (n div 2)))"

declare bitlen.simps [simp del]

text \<open>Evaluation on numerals only, so that the simplifier cannot unfold it on a variable.\<close>

lemma bitlen_eval [simp]:
  "bitlen 0 = 0" "bitlen (Suc 0) = 1" "bitlen 1 = 1"
  "bitlen (numeral k) = Suc (bitlen (numeral k div 2))"
  by (subst bitlen.simps; simp add: bitlen.simps [of 0])+

definition round_half_even :: "nat \<Rightarrow> nat \<Rightarrow> nat" where
  "round_half_even num den =
     (let q = num div den; r = num mod den
      in if 2 * r > den \<or> (2 * r = den \<and> odd q) then q + 1 else q)"

text \<open>The double nearest to \<open>m * 10^d\<close> (ties to even), as \<open>strconv.ParseFloat\<close> computes it;
  \<open>None\<close> is its range error.\<close>

definition f64_pack :: "bool \<Rightarrow> nat \<Rightarrow> int \<Rightarrow> f64 option" where
  "f64_pack neg mm e =
     (let (m', e') = (if mm = 2 ^ 53 then (2 ^ 52, e + 1) else (mm, e))
      in if e' > 971 then None else Some (F64 neg m' e'))"

definition f64_of :: "bool \<Rightarrow> nat \<Rightarrow> int \<Rightarrow> f64 option" where
  "f64_of neg m d =
     (if m = 0 then Some (F64 neg 0 (-1074))
      else
        let num = m * 10 ^ nat d;
            den = 10 ^ nat (- d);
            e0 = max (-1074) (int (bitlen num) - int (bitlen den) - 53);
            e1 = (if (num * 2 ^ nat (- e0)) div (den * 2 ^ nat e0) \<ge> 2 ^ 53 then e0 + 1 else e0)
        in f64_pack neg (round_half_even (num * 2 ^ nat (- e1)) (den * 2 ^ nat e1)) e1)"

text \<open>Go's \<open>==\<close> on doubles: the two zeros are equal.\<close>

definition f64_eq :: "f64 \<Rightarrow> f64 \<Rightarrow> bool" where
  "f64_eq a b = (a = b \<or> (f64_mant a = 0 \<and> f64_mant b = 0))"

text \<open>A JSON number is a literal as written by the sender, or the text the encoder prints for a
  double. \<open>strconv.FormatFloat\<close> promises that its shortest text parses back to the same double,
  so that text is represented by the double itself.\<close>

datatype numlit = Lit string | Shortest f64

definition is_digit :: "char \<Rightarrow> bool" where
  "is_digit c = (digit_val c \<noteq> None)"

definition exp_part :: "string \<Rightarrow> int" where
  "exp_part s =
     (case s of
        [] \<Rightarrow> 0
      | c # r \<Rightarrow>
          (if c = CHR ''e'' \<or> c = CHR ''E'' then
             (case r of
                [] \<Rightarrow> 0
              | x # ds \<Rightarrow>
                  (if x = CHR ''-'' then - int (the_default 0 (digits_val 0 ds))
                   else int (the_default 0 (digits_val 0 (if x = CHR ''+'' then ds else r)))))
           else 0))"

definition num_parts :: "string \<Rightarrow> bool \<times> nat \<times> int" where
  "num_parts s =
     (let neg = has_prefix s ''-'';
          s1 = (if neg then tl s else s);
          ip = takeWhile is_digit s1;
          s2 = dropWhile is_digit s1;
          fp = (if has_prefix s2 ''.'' then takeWhile is_digit (tl s2) else []);
          s3 = (if has_prefix s2 ''.'' then dropWhile is_digit (tl s2) else s2)
      in (neg, the_default 0 (digits_val 0 (ip @ fp)), exp_part s3 - int (length fp)))"

fun num_f64 :: "numlit \<Rightarrow> f64 option" where
  "num_f64 (Lit s) = (case num_parts s of (neg, m, d) \<Rightarrow> f64_of neg m d)"
| "num_f64 (Shortest f) = Some f"

section \<open>Values\<close>

datatype json =
    JNull
  | JBool bool
  | JNum numlit
  | JStr string
  | JArr "json list"
  | JObj "(string \<times> json) list"

type_synonym raw = "json option"

text \<open>
  Go's dynamic values. \<open>VInt\<close> is an \<open>int\<close> and \<open>VOther\<close> a value of another type
  that only the YAML decoder produces (\<open>uint64\<close>, \<open>time.Time\<close> and the like); the JSON
  decoder makes \<open>nil\<close>, \<open>bool\<close>, \<open>float64\<close>, \<open>string\<close>, \<open>[]any\<close> and
  \<open>map[string]any\<close> only.
\<close>

datatype gval =
    VNil
  | VBool bool
  | VNum f64
  | VStr string
  | VInt int
  | VOther string
  | VArr "gval list"
  | VMap "(string \<times> gval) list"

text \<open>\<open>==\<close> on two interface values: false for different dynamic types, a panic for two values of
  the same uncomparable type.\<close>

fun iface_eq :: "gval \<Rightarrow> gval \<Rightarrow> bool go" where
  "iface_eq VNil y = Ret (y = VNil)"
| "iface_eq (VBool a) y = (case y of VBool b \<Rightarrow> Ret (a = b) | _ \<Rightarrow> Ret False)"
| "iface_eq (VNum a) y = (case y of VNum b \<Rightarrow> Ret (f64_eq a b) | _ \<Rightarrow> Ret False)"
| "iface_eq (VStr a) y = (case y of VStr b \<Rightarrow> Ret (a = b) | _ \<Rightarrow> Ret False)"
| "iface_eq (VInt a) y = (case y of VInt b \<Rightarrow> Ret (a = b) | _ \<Rightarrow> Ret False)"
| "iface_eq (VOther a) y = (case y of VOther b \<Rightarrow> Ret (a = b) | _ \<Rightarrow> Ret False)"
| "iface_eq (VArr a) y =
     (case y of
        VArr b \<Rightarrow> Panic ''runtime error: comparing uncomparable type []interface {}''
      | _ \<Rightarrow> Ret False)"
| "iface_eq (VMap a) y =
     (case y of
        VMap b \<Rightarrow> Panic ''runtime error: comparing uncomparable type map[string]interface {}''
      | _ \<Rightarrow> Ret False)"

section \<open>Decoding into dynamic values\<close>

text \<open>A number outside the range of \<open>float64\<close> stores \<open>nil\<close>, the decoder goes on and returns
  an error at the end (\<open>any_ok\<close> is false).\<close>

fun any_of :: "json \<Rightarrow> gval"
and any_list :: "json list \<Rightarrow> gval list"
and any_fields :: "(string \<times> json) list \<Rightarrow> (string \<times> gval) list \<Rightarrow> (string \<times> gval) list" where
  "any_of JNull = VNil"
| "any_of (JBool b) = VBool b"
| "any_of (JNum n) = (case num_f64 n of None \<Rightarrow> VNil | Some f \<Rightarrow> VNum f)"
| "any_of (JStr s) = VStr s"
| "any_of (JArr xs) = VArr (any_list xs)"
| "any_of (JObj kvs) = VMap (any_fields kvs [])"
| "any_list [] = []"
| "any_list (x # xs) = any_of x # any_list xs"
| "any_fields [] m = m"
| "any_fields ((k, v) # kvs) m = any_fields kvs (map_put k (any_of v) m)"

fun any_ok :: "json \<Rightarrow> bool"
and any_ok_list :: "json list \<Rightarrow> bool"
and any_ok_fields :: "(string \<times> json) list \<Rightarrow> bool" where
  "any_ok (JNum n) = (num_f64 n \<noteq> None)"
| "any_ok (JArr xs) = any_ok_list xs"
| "any_ok (JObj kvs) = any_ok_fields kvs"
| "any_ok _ = True"
| "any_ok_list [] = True"
| "any_ok_list (x # xs) = (any_ok x \<and> any_ok_list xs)"
| "any_ok_fields [] = True"
| "any_ok_fields ((k, v) # kvs) = (any_ok v \<and> any_ok_fields kvs)"

text \<open>\<open>json.Unmarshal(raw, &m)\<close> for a nil \<open>m\<close> of type \<open>map[string]any\<close>: the map left in
  \<open>m\<close> (\<open>None\<close> for nil) and whether the error is nil.\<close>

definition unmarshal_map_any :: "raw \<Rightarrow> (string \<times> gval) list option \<times> bool" where
  "unmarshal_map_any r =
     (case r of
        Some JNull \<Rightarrow> (None, True)
      | Some (JObj kvs) \<Rightarrow> (Some (any_fields kvs []), any_ok_fields kvs)
      | _ \<Rightarrow> (None, False))"

text \<open>The same into \<open>map[string]json.RawMessage\<close>; a \<open>null\<close> sets the map to nil whatever it
  held, an object is merged into the map that is there.\<close>

definition unmarshal_map_raw :: "raw \<Rightarrow> (string \<times> json) list \<Rightarrow> (string \<times> json) list option go" where
  "unmarshal_map_raw r m =
     (case r of
        Some JNull \<Rightarrow> Ret None
      | Some (JObj kvs) \<Rightarrow> Ret (Some (fold (\<lambda>(k, v). map_put k v) kvs m))
      | _ \<Rightarrow> Fail EJson)"

text \<open>A read of a nil map misses; an assignment to it panics.\<close>

definition nil_lookup :: "('k \<times> 'v) list option \<Rightarrow> 'k \<Rightarrow> 'v option" where
  "nil_lookup m k = (case m of None \<Rightarrow> None | Some kvs \<Rightarrow> map_of kvs k)"

definition nil_put :: "'k \<Rightarrow> 'v \<Rightarrow> ('k \<times> 'v) list option \<Rightarrow> ('k \<times> 'v) list option go" where
  "nil_put k v m =
     (case m of
        None \<Rightarrow> Panic ''assignment to entry in nil map''
      | Some kvs \<Rightarrow> Ret (Some (map_put k v kvs)))"

section \<open>Encoding\<close>

text \<open>Maps are encoded with their keys in byte order.\<close>

fun json_of :: "gval \<Rightarrow> json"
and json_list :: "gval list \<Rightarrow> json list"
and json_fields :: "(string \<times> gval) list \<Rightarrow> (string \<times> json) list" where
  "json_of VNil = JNull"
| "json_of (VBool b) = JBool b"
| "json_of (VNum f) = JNum (Shortest f)"
| "json_of (VStr s) = JStr s"
| "json_of (VInt i) = JNum (Lit (itoa i))"
| "json_of (VOther s) = JStr s"
| "json_of (VArr xs) = JArr (json_list xs)"
| "json_of (VMap m) = JObj (sort_key fst (json_fields m))"
| "json_list [] = []"
| "json_list (x # xs) = json_of x # json_list xs"
| "json_fields [] = []"
| "json_fields ((k, v) # m) = (k, json_of v) # json_fields m"

definition marshal_map_raw :: "(string \<times> json) list \<Rightarrow> json" where
  "marshal_map_raw m = JObj (sort_key fst m)"

section \<open>Decoding into structs\<close>

text \<open>
  A struct field takes an object member whose key equals its name after folding: ASCII letters to
  upper case, and the two non-ASCII letters that fold to ASCII ones, U+017F to S and U+212A to K.
  Members are taken in their order, so the last one wins; unknown members are skipped; \<open>null\<close>
  leaves a string or a struct as it is. A member of the wrong type is an error of the whole
  decoding.
\<close>

fun fold_name :: "string \<Rightarrow> string" where
  "fold_name [] = []"
| "fold_name (c # s) =
     (if c = CHR 0xC5 \<and> has_prefix s [CHR 0xBF] then CHR ''S'' # fold_name (tl s)
      else if c = CHR 0xE2 \<and> has_prefix s [CHR 0x84, CHR 0xAA] then CHR ''K'' # fold_name (tl (tl s))
      else to_upper_char c # fold_name s)"

definition key_is :: "string \<Rightarrow> string \<Rightarrow> bool" where
  "key_is name key = (fold_name key = fold_name name)"

fun decode_fields :: "(string \<Rightarrow> json \<Rightarrow> 'a \<Rightarrow> 'a option) \<Rightarrow> (string \<times> json) list \<Rightarrow> 'a \<Rightarrow> 'a option" where
  "decode_fields upd [] x = Some x"
| "decode_fields upd ((k, v) # kvs) x =
     (case upd k v x of None \<Rightarrow> None | Some y \<Rightarrow> decode_fields upd kvs y)"

definition decode_struct :: "(string \<Rightarrow> json \<Rightarrow> 'a \<Rightarrow> 'a option) \<Rightarrow> json \<Rightarrow> 'a \<Rightarrow> 'a option" where
  "decode_struct upd v x =
     (case v of JNull \<Rightarrow> Some x | JObj kvs \<Rightarrow> decode_fields upd kvs x | _ \<Rightarrow> None)"

definition unmarshal_struct :: "(string \<Rightarrow> json \<Rightarrow> 'a \<Rightarrow> 'a option) \<Rightarrow> raw \<Rightarrow> 'a \<Rightarrow> 'a option" where
  "unmarshal_struct upd r x = (case r of None \<Rightarrow> None | Some v \<Rightarrow> decode_struct upd v x)"

definition decode_str :: "json \<Rightarrow> string \<Rightarrow> string option" where
  "decode_str v old = (case v of JStr s \<Rightarrow> Some s | JNull \<Rightarrow> Some old | _ \<Rightarrow> None)"

definition decode_int :: "json \<Rightarrow> int \<Rightarrow> int option" where
  "decode_int v old =
     (case v of JNum (Lit s) \<Rightarrow> parse_int64 s | JNull \<Rightarrow> Some old | _ \<Rightarrow> None)"

section \<open>Lemmas\<close>

lemma map_of_any_fields_aux:
  "map_of (any_fields kvs m) k =
     (case map_of (rev kvs) k of None \<Rightarrow> map_of m k | Some v \<Rightarrow> Some (any_of v))"
proof (induction kvs arbitrary: m)
  case Nil
  then show ?case by simp
next
  case (Cons p kvs)
  obtain k' v where p: "p = (k', v)" by (cases p)
  show ?case by (auto simp: p Cons.IH map_add_Some_iff map_add_def split: option.splits)
qed

lemma map_of_any_fields:
  "map_of (any_fields kvs []) k = map_option any_of (map_of (rev kvs) k)"
  by (simp add: map_of_any_fields_aux split: option.splits)

lemma distinct_any_fields:
  "distinct (map fst m) \<Longrightarrow> distinct (map fst (any_fields kvs m))"
  by (induction kvs arbitrary: m) auto

lemma keys_any_fields: "fst ` set (any_fields kvs m) = fst ` set kvs \<union> fst ` set m"
proof (induction kvs arbitrary: m)
  case (Cons p kvs)
  show ?case by (cases p) (simp add: Cons.IH)
qed simp

lemma json_fields_map: "json_fields m = map (\<lambda>(k, v). (k, json_of v)) m"
  by (induction m) auto

lemma map_of_json_fields: "map_of (json_fields m) k = map_option json_of (map_of m k)"
  by (simp add: json_fields_map map_of_map)

lemma map_fst_json_fields [simp]: "map fst (json_fields m) = map fst m"
  by (induction m) auto

lemma any_of_never_yaml: "any_of v \<noteq> VInt i" "any_of v \<noteq> VOther s"
  by (cases v; simp split: option.splits)+

lemma distinct_fold_map_put:
  "distinct (map fst m) \<Longrightarrow> distinct (map fst (fold (\<lambda>(k, v). map_put k v) kvs m))"
  by (induction kvs arbitrary: m) auto

lemma map_of_fold_map_put:
  "map_of (fold (\<lambda>(k, v). map_put k v) kvs m) = map_of m ++ map_of (rev kvs)"
proof (induction kvs arbitrary: m)
  case Nil
  then show ?case by simp
next
  case (Cons p kvs)
  then show ?case by (cases p) (simp add: fun_eq_iff map_add_def split: option.splits)
qed

lemma decode_fields_append:
  "decode_fields upd (xs @ ys) x =
     (case decode_fields upd xs x of None \<Rightarrow> None | Some y \<Rightarrow> decode_fields upd ys y)"
  by (induction upd xs x rule: decode_fields.induct) (auto split: option.splits)

lemma less_two_power_bitlen: "n < 2 ^ bitlen n"
proof (induction n rule: bitlen.induct)
  case (1 n)
  show ?case
  proof (cases "n = 0")
    case False
    then have "n div 2 < 2 ^ bitlen (n div 2)" using 1 by simp
    then have "n < 2 * 2 ^ bitlen (n div 2)" by simp
    with False show ?thesis by (simp add: bitlen.simps [of n])
  qed simp
qed

lemma f64_pack_large: "971 < e \<Longrightarrow> f64_pack neg mm e = None"
  by (simp add: f64_pack_def)

lemma f64_of_large:
  assumes "1025 < bitlen (m * 10 ^ d)"
  shows "f64_of neg m (int d) = None"
proof -
  define num where "num = m * 10 ^ d"
  have n: "1025 < bitlen num" "m \<noteq> 0"
    using assms by (auto simp: num_def intro: ccontr)
  show ?thesis
    unfolding f64_of_def Let_def
    using n by (simp add: f64_pack_large flip: num_def)
qed

lemma bitlen_ge:
  assumes "2 ^ k \<le> n"
  shows "k < bitlen n"
proof -
  from assms less_two_power_bitlen have "(2::nat) ^ k < 2 ^ bitlen n" by (rule le_less_trans)
  then show ?thesis by (rule power_less_imp_less_exp [rotated]) simp
qed

lemma num_parts_1e309: "num_parts ''1e309'' = (False, 1, 309)"
  by (simp add: num_parts_def exp_part_def is_digit_def digit_val_def)

lemma num_1e309_out_of_range [simp]: "num_f64 (Lit ''1e309'') = None"
proof -
  have "(2::nat) ^ 1025 \<le> 1 * 10 ^ 309" by simp
  then have "f64_of False 1 (int 309) = None" by (intro f64_of_large bitlen_ge)
  then show ?thesis by (simp add: num_parts_1e309)
qed

end
