(* ===== verification/Utf8.thy ===== *)
theory Utf8
  imports Prelude
begin

text \<open>
  The runes of a Go string (package \<open>unicode/utf8\<close>). A string is a list of bytes; a byte that starts no
  valid sequence is read as the rune U+FFFD of size one, so that \<open>json.Marshal\<close> and \<open>json.Unmarshal\<close>
  replace it. \<open>rune_size\<close> is 0 for such a byte, and the size of the first rune otherwise.
\<close>

abbreviation byte :: "char \<Rightarrow> nat" where
  "byte c \<equiv> of_char c"

definition is_cont :: "char \<Rightarrow> bool" where
  "is_cont c = (0x80 \<le> byte c \<and> byte c < 0xC0)"

text \<open>The size announced by a first byte and the range of the second.\<close>

definition lead_size :: "char \<Rightarrow> nat" where
  "lead_size c =
     (if byte c < 0x80 then 1 else if byte c < 0xC2 then 0 else if byte c < 0xE0 then 2
      else if byte c < 0xF0 then 3 else if byte c < 0xF5 then 4 else 0)"

definition second_ok :: "char \<Rightarrow> char \<Rightarrow> bool" where
  "second_ok c d =
     (is_cont d \<and>
      (byte c = 0xE0 \<longrightarrow> 0xA0 \<le> byte d) \<and> (byte c = 0xED \<longrightarrow> byte d < 0xA0) \<and>
      (byte c = 0xF0 \<longrightarrow> 0x90 \<le> byte d) \<and> (byte c = 0xF4 \<longrightarrow> byte d < 0x90))"

fun rune_size :: "string \<Rightarrow> nat" where
  "rune_size [] = 0"
| "rune_size (c # s) =
     (let n = lead_size c in
      if n \<le> 1 then n
      else (case s of
              [] \<Rightarrow> 0
            | d # r \<Rightarrow>
                if second_ok c d \<and> n - 2 \<le> length r \<and> list_all is_cont (take (n - 2) r) then n else 0))"

definition rune_error :: string where
  "rune_error = [CHR 0xEF, CHR 0xBF, CHR 0xBD]"

text \<open>The string with every invalid byte replaced.\<close>

fun valid_bytes :: "string \<Rightarrow> string" where
  "valid_bytes [] = []"
| "valid_bytes (c # s) =
     (if rune_size (c # s) = 0 then rune_error @ valid_bytes s
      else take (rune_size (c # s)) (c # s) @ valid_bytes (drop (rune_size (c # s) - 1) s))"

text \<open>\<open>utf8.AppendRune\<close>; surrogates do not occur as arguments.\<close>

definition encode_rune :: "nat \<Rightarrow> string" where
  "encode_rune r =
     (if r < 0x80 then [char_of r]
      else if r < 0x800 then [char_of (0xC0 + r div 64), char_of (0x80 + r mod 64)]
      else if r < 0x10000
      then [char_of (0xE0 + r div 4096), char_of (0x80 + r div 64 mod 64), char_of (0x80 + r mod 64)]
      else [char_of (0xF0 + r div 262144), char_of (0x80 + r div 4096 mod 64), char_of (0x80 + r div 64 mod 64),
            char_of (0x80 + r mod 64)])"

section \<open>Lemmas\<close>

lemma rune_size_ascii [simp]: "byte c < 128 \<Longrightarrow> rune_size (c # s) = Suc 0"
  by (simp add: lead_size_def)

lemma rune_size_le: "rune_size s \<le> length s"
  by (cases s) (auto simp: Let_def split: list.splits)

lemma rune_size_one: "rune_size (c # s) = Suc 0 \<longleftrightarrow> byte c < 128"
  by (auto simp: lead_size_def Let_def split: list.splits if_splits)

lemma rune_size_error [simp]: "rune_size (CHR 0xEF # CHR 0xBF # CHR 0xBD # s) = 3"
  by (simp add: lead_size_def second_ok_def is_cont_def)

text \<open>A rune of more than one byte: its bytes, and the next rune does not matter.\<close>

lemma rune_size_multi:
  assumes "1 < rune_size (c # s)"
  obtains d r t where "s = d # r @ t" "rune_size (c # s) = Suc (Suc (length r))" "\<not> byte c < 128" "is_cont d"
    "list_all is_cont r" "\<And>t. rune_size (c # d # r @ t) = Suc (Suc (length r))"
proof -
  define n where "n = lead_size c"
  from assms obtain d r where s: "s = d # r" and n: "rune_size (c # s) = n" "1 < n"
    and ok: "second_ok c d" "n - 2 \<le> length r" "list_all is_cont (take (n - 2) r)"
    by (auto simp: Let_def n_def split: list.splits if_splits)
  define q where "q = take (n - 2) r"
  have q: "length q = n - 2" using ok(2) by (simp add: q_def)
  show ?thesis
  proof (rule that [of d q "drop (n - 2) r"])
    show "s = d # q @ drop (n - 2) r" using s by (simp add: q_def)
    show "rune_size (c # s) = Suc (Suc (length q))" using n q by simp
    show "\<not> byte c < 128" using n(2) by (auto simp: lead_size_def n_def)
    show "is_cont d" using ok(1) by (simp add: second_ok_def)
    show "list_all is_cont q" using ok(3) by (simp add: q_def)
    show "rune_size (c # d # q @ t) = Suc (Suc (length q))" for t
      using n(2) q ok(1,3) by (simp add: Let_def flip: n_def q_def, arith)
  qed
qed

declare rune_size.simps(2) [simp del] valid_bytes.simps(2) [simp del]

text \<open>Induction over the runes of a string.\<close>

lemma runes_induct [case_names Nil ascii rune bad]:
  assumes "P []"
    and "\<And>c s. byte c < 128 \<Longrightarrow> P s \<Longrightarrow> P (c # s)"
    and "\<And>c d r s. \<not> byte c < 128 \<Longrightarrow> is_cont d \<Longrightarrow> list_all is_cont r \<Longrightarrow>
      (\<And>t. rune_size (c # d # r @ t) = Suc (Suc (length r))) \<Longrightarrow> P s \<Longrightarrow> P (c # d # r @ s)"
    and "\<And>c s. rune_size (c # s) = 0 \<Longrightarrow> \<not> byte c < 128 \<Longrightarrow> P s \<Longrightarrow> P (c # s)"
  shows "P s"
proof (induction s rule: length_induct)
  case (1 s)
  show ?case
  proof (cases s)
    case Nil
    with assms(1) show ?thesis by simp
  next
    case (Cons c u)
    have u: "P v" if "length v \<le> length u" for v using 1 that Cons by simp
    consider "byte c < 128" | "rune_size (c # u) = 0" "\<not> byte c < 128" | "1 < rune_size (c # u)"
      using rune_size_one [of c u] by linarith
    then show ?thesis
    proof cases
      case 1
      then show ?thesis using assms(2) u Cons by simp
    next
      case 2
      then show ?thesis using assms(4) u Cons by simp
    next
      case 3
      then obtain d r t where "u = d # r @ t" "\<not> byte c < 128" "is_cont d" "list_all is_cont r"
        "\<And>t. rune_size (c # d # r @ t) = Suc (Suc (length r))"
        by (rule rune_size_multi) blast
      then show ?thesis using assms(3) [of c d r t] u [of t] Cons by simp
    qed
  qed
qed

text \<open>Equations by the kind of the first rune.\<close>

lemma valid_bytes_ascii_cons [simp]: "byte c < 128 \<Longrightarrow> valid_bytes (c # s) = c # valid_bytes s"
  by (simp add: valid_bytes.simps)

lemma valid_bytes_rune:
  "(\<And>t. rune_size (c # d # r @ t) = Suc (Suc (length r))) \<Longrightarrow> valid_bytes (c # d # r @ s) = c # d # r @ valid_bytes s"
  by (simp add: valid_bytes.simps)

lemma valid_bytes_bad: "rune_size (c # s) = 0 \<Longrightarrow> valid_bytes (c # s) = rune_error @ valid_bytes s"
  by (simp add: valid_bytes.simps)

lemma valid_bytes_ascii: "list_all (\<lambda>c. byte c < 128) s \<Longrightarrow> valid_bytes s = s"
  by (induction s) simp_all

text \<open>Replacing is done once.\<close>

lemma valid_bytes_idem [simp]: "valid_bytes (valid_bytes s) = valid_bytes s"
proof (induction s rule: runes_induct)
  case (rune c d r s)
  then show ?case by (simp add: valid_bytes_rune)
next
  case (bad c s)
  then show ?case by (simp add: valid_bytes_bad rune_error_def valid_bytes.simps(2) [of "CHR 0xEF"])
qed simp_all

section \<open>Valid strings\<close>

lemma not_valid_bad: "rune_size (c # s) = 0 \<Longrightarrow> valid_bytes (c # s) \<noteq> c # s"
proof
  assume b: "rune_size (c # s) = 0" "valid_bytes (c # s) = c # s"
  then have e: "c # s = rune_error @ valid_bytes s" by (simp add: valid_bytes_bad)
  have "rune_size (c # s) = 3" unfolding e by (simp add: rune_error_def)
  with b(1) show False by simp
qed

lemma valid_bytes_append: "valid_bytes a = a \<Longrightarrow> valid_bytes (a @ b) = a @ valid_bytes b"
proof (induction a rule: runes_induct)
  case (rune c d r s)
  then have "valid_bytes s = s" by (simp add: valid_bytes_rune)
  with rune show ?case using valid_bytes_rune [of c d r "s @ b"] by simp
next
  case (bad c s)
  with not_valid_bad [OF bad(1)] show ?case by simp
qed simp_all

definition utf8 :: "string \<Rightarrow> bool" where
  "utf8 s = (valid_bytes s = s)"

lemma utf8_Nil [simp]: "utf8 []"
  by (simp add: utf8_def)

lemma utf8_append: "utf8 a \<Longrightarrow> utf8 b \<Longrightarrow> utf8 (a @ b)"
  by (simp add: utf8_def valid_bytes_append)

lemma utf8_ascii: "list_all (\<lambda>c. byte c < 128) s \<Longrightarrow> utf8 s"
  by (simp add: utf8_def valid_bytes_ascii)

lemma utf8_Cons: "byte c < 128 \<Longrightarrow> utf8 s \<Longrightarrow> utf8 (c # s)"
  by (simp add: utf8_def)

end
