(* ===== verification/Json_Text.thy ===== *)
theory Json_Text
  imports Json Utf8
begin

text \<open>
  The text \<open>json.Marshal\<close> produces, from strings of any bytes; the shortest text of a \<open>float64\<close> is a parameter \<open>ffmt\<close>.
\<close>

definition short_escapes :: "(char \<times> char) list" where
  "short_escapes =
     [(CHR 34, CHR 34), (CHR 92, CHR 92), (CHR 8, CHR ''b''), (CHR 12, CHR ''f''), (CHR 10, CHR ''n''), (CHR 13, CHR ''r''),
      (CHR 9, CHR ''t'')]"

definition escape_char :: "char \<Rightarrow> string" where
  "escape_char c =
     (case map_of short_escapes c of
        Some e \<Rightarrow> [CHR 92, e]
      | None \<Rightarrow>
          if of_char c < (32::nat) \<or> c \<in> set ''<>&'' then [CHR 92] @ ''u00'' @ hex_byte (word_of_nat (of_char c))
          else [c])"

text \<open>An invalid byte and the runes U+2028 and U+2029 (the bytes E2 80 A8 and E2 80 A9) are escaped too.\<close>

definition rune_text :: "string \<Rightarrow> string" where
  "rune_text r =
     (if r = [CHR 0xE2, CHR 0x80, CHR 0xA8] then [CHR 92] @ ''u2028''
      else if r = [CHR 0xE2, CHR 0x80, CHR 0xA9] then [CHR 92] @ ''u2029'' else r)"

fun escape_string :: "string \<Rightarrow> string" where
  "escape_string [] = []"
| "escape_string (c # s) =
     (if byte c < 128 then escape_char c @ escape_string s
      else if rune_size (c # s) = 0 then [CHR 92] @ ''ufffd'' @ escape_string s
      else rune_text (take (rune_size (c # s)) (c # s)) @ escape_string (drop (rune_size (c # s) - 1) s))"

declare escape_string.simps(2) [simp del]

text \<open>Equations by the kind of the first rune.\<close>

lemma escape_ascii [simp]: "byte c < 128 \<Longrightarrow> escape_string (c # s) = escape_char c @ escape_string s"
  by (simp add: escape_string.simps)

lemma escape_rune:
  "\<not> byte c < 128 \<Longrightarrow> (\<And>t. rune_size (c # d # r @ t) = Suc (Suc (length r))) \<Longrightarrow>
   escape_string (c # d # r @ s) = rune_text (c # d # r) @ escape_string s"
  by (simp add: escape_string.simps)

lemma escape_bad:
  "\<not> byte c < 128 \<Longrightarrow> rune_size (c # s) = 0 \<Longrightarrow> escape_string (c # s) = [CHR 92] @ ''ufffd'' @ escape_string s"
  by (simp add: escape_string.simps)

definition quote_json :: "string \<Rightarrow> string" where
  "quote_json s = [CHR 34] @ escape_string s @ [CHR 34]"

fun number_text :: "(f64 \<Rightarrow> string) \<Rightarrow> numlit \<Rightarrow> string" where
  "number_text ffmt (Lit s) = s"
| "number_text ffmt (Shortest f) = ffmt f"

fun json_text :: "(f64 \<Rightarrow> string) \<Rightarrow> json \<Rightarrow> string"
and json_texts :: "(f64 \<Rightarrow> string) \<Rightarrow> json list \<Rightarrow> string list"
and member_texts :: "(f64 \<Rightarrow> string) \<Rightarrow> (string \<times> json) list \<Rightarrow> string list" where
  "json_text ffmt JNull = ''null''"
| "json_text ffmt (JBool b) = (if b then ''true'' else ''false'')"
| "json_text ffmt (JNum n) = number_text ffmt n"
| "json_text ffmt (JStr s) = quote_json s"
| "json_text ffmt (JArr xs) = ''['' @ join '','' (json_texts ffmt xs) @ '']''"
| "json_text ffmt (JObj kvs) = ''{'' @ join '','' (member_texts ffmt kvs) @ ''}''"
| "json_texts ffmt [] = []"
| "json_texts ffmt (x # xs) = json_text ffmt x # json_texts ffmt xs"
| "member_texts ffmt [] = []"
| "member_texts ffmt ((k, v) # kvs) = (quote_json k @ '':'' @ json_text ffmt v) # member_texts ffmt kvs"

text \<open>For values without floating point numbers the printer of those does not matter.\<close>

abbreviation marshal :: "json \<Rightarrow> string" where
  "marshal \<equiv> json_text (\<lambda>_. [])"

section \<open>No line feed\<close>

definition one_line :: "string \<Rightarrow> bool" where
  "one_line s = (CHR 10 \<notin> set s)"

lemma one_line_simps [simp]:
  "one_line []" "one_line (c # s) \<longleftrightarrow> c \<noteq> CHR 10 \<and> one_line s" "one_line (a @ b) \<longleftrightarrow> one_line a \<and> one_line b"
  by (auto simp: one_line_def)

text \<open>The numbers of a value, those of the sender's text included, have no line feed.\<close>

fun numbers_ok :: "(f64 \<Rightarrow> string) \<Rightarrow> json \<Rightarrow> bool"
and numbers_ok_list :: "(f64 \<Rightarrow> string) \<Rightarrow> json list \<Rightarrow> bool"
and numbers_ok_members :: "(f64 \<Rightarrow> string) \<Rightarrow> (string \<times> json) list \<Rightarrow> bool" where
  "numbers_ok ffmt (JNum n) = one_line (number_text ffmt n)"
| "numbers_ok ffmt (JArr xs) = numbers_ok_list ffmt xs"
| "numbers_ok ffmt (JObj kvs) = numbers_ok_members ffmt kvs"
| "numbers_ok ffmt _ = True"
| "numbers_ok_list ffmt [] = True"
| "numbers_ok_list ffmt (x # xs) = (numbers_ok ffmt x \<and> numbers_ok_list ffmt xs)"
| "numbers_ok_members ffmt [] = True"
| "numbers_ok_members ffmt ((k, v) # kvs) = (numbers_ok ffmt v \<and> numbers_ok_members ffmt kvs)"

lemma digits_one_line [simp]: "one_line (itoa i)"
proof -
  have "digit_val (CHR 10) = None" by (simp add: digit_val_def Let_def)
  then have "one_line (show_nat n)" for n using digit_char_is_digit [of "CHR 10" n] by (auto simp: one_line_def)
  then show ?thesis by (simp add: itoa_def)
qed

lemma hex_digit_not_lf: "d < 16 \<Longrightarrow> hex_digit d \<noteq> CHR 10"
proof
  assume "d < 16" "hex_digit d = CHR 10"
  then have "of_char (hex_digit d) = (10 :: nat)" by simp
  with \<open>d < 16\<close> show False by (auto simp: hex_digit_def split: if_splits)
qed

lemma hex_byte_one_line [simp]: "one_line (hex_byte w)"
proof -
  have "unat w < 2 ^ LENGTH(8)" by (rule unsigned_less)
  then show ?thesis by (simp add: hex_byte_def hex_digit_not_lf)
qed

lemma escape_char_one_line [simp]: "one_line (escape_char c)"
  by (simp add: escape_char_def short_escapes_def)

lemma cont_not_lf: "is_cont c \<Longrightarrow> c \<noteq> CHR 10" "\<not> byte c < 128 \<Longrightarrow> c \<noteq> CHR 10"
  by (auto simp: is_cont_def)

lemma escape_string_one_line [simp]: "one_line (escape_string s)"
proof (induction s rule: runes_induct)
  case (rune c d r s)
  then have "one_line (c # d # r)" using cont_not_lf by (auto simp: one_line_def list_all_iff)
  with rune show ?case by (simp add: escape_rune rune_text_def)
qed (simp_all add: escape_bad)

lemma quote_json_one_line [simp]: "one_line (quote_json s)"
  by (simp add: quote_json_def)

lemma join_one_line: "one_line sep \<Longrightarrow> list_all one_line xs \<Longrightarrow> one_line (join sep xs)"
  by (induction sep xs rule: join.induct) auto

lemma json_text_one_line:
  "numbers_ok ffmt v \<Longrightarrow> one_line (json_text ffmt v)"
  "numbers_ok_list ffmt xs \<Longrightarrow> list_all one_line (json_texts ffmt xs)"
  "numbers_ok_members ffmt kvs \<Longrightarrow> list_all one_line (member_texts ffmt kvs)"
  by (induction ffmt v and ffmt xs and ffmt kvs rule: json_text_json_texts_member_texts.induct)
    (auto intro!: join_one_line)

end
