(* ===== verification/Json_Parse.thy ===== *)
theory Json_Parse
  imports Json_Text
begin

text \<open>
  The reader of JSON texts, \<open>json.Unmarshal\<close> up to the value the text denotes: the scanner of
  \<open>encoding/json\<close> as a machine that is fed one byte at a time and keeps the stack of the open arrays and
  objects, at most 10000 of them. Strings are unquoted as the decoder does: an invalid byte and an unpaired
  surrogate become U+FFFD. \<open>parse_json_text\<close> shows that it reads back what \<open>json.Marshal\<close> writes.
\<close>

section \<open>Strings\<close>

definition hex_val :: "char \<Rightarrow> nat option" where
  "hex_val c =
     (if 48 \<le> byte c \<and> byte c \<le> 57 then Some (byte c - 48)
      else if 97 \<le> byte c \<and> byte c \<le> 102 then Some (byte c - 87)
      else if 65 \<le> byte c \<and> byte c \<le> 70 then Some (byte c - 55)
      else None)"

fun hex4 :: "string \<Rightarrow> nat option" where
  "hex4 (a # b # c # d # s) =
     (case (hex_val a, hex_val b, hex_val c, hex_val d) of
        (Some i, Some j, Some k, Some l) \<Rightarrow> Some (((i * 16 + j) * 16 + k) * 16 + l)
      | _ \<Rightarrow> None)"
| "hex4 _ = None"

definition unescape :: "(char \<times> char) list" where
  "unescape =
     [(CHR 34, CHR 34), (CHR 92, CHR 92), (CHR ''/'', CHR ''/''), (CHR ''b'', CHR 8), (CHR ''f'', CHR 12),
      (CHR ''n'', CHR 10), (CHR ''r'', CHR 13), (CHR ''t'', CHR 9)]"

text \<open>The bytes of the code unit \<open>x\<close> of an escape and what is left of the text after it.\<close>

definition unicode_escape :: "nat \<Rightarrow> string \<Rightarrow> string \<times> string" where
  "unicode_escape x r =
     (if 0xD800 \<le> x \<and> x < 0xE000 then
        (case (if take 2 r = [CHR 92, CHR ''u''] then hex4 (drop 2 r) else None) of
           Some y \<Rightarrow>
             if x < 0xDC00 \<and> 0xDC00 \<le> y \<and> y < 0xE000
             then (encode_rune (0x10000 + (x - 0xD800) * 1024 + (y - 0xDC00)), drop 6 r)
             else (rune_error, r)
         | None \<Rightarrow> (rune_error, r))
      else (encode_rune x, r))"

lemma unicode_escape_shorter: "length (snd (unicode_escape x r)) \<le> length r"
  by (auto simp: unicode_escape_def split: option.splits)

function unquote :: "string \<Rightarrow> string option" where
  "unquote [] = Some []"
| "unquote (c # s) =
     (if c = CHR 92 then
        (case s of
           [] \<Rightarrow> None
         | e # r \<Rightarrow>
             if e = CHR ''u'' then
               (case hex4 r of
                  None \<Rightarrow> None
                | Some x \<Rightarrow> map_option ((@) (fst (unicode_escape x (drop 4 r)))) (unquote (snd (unicode_escape x (drop 4 r)))))
             else (case map_of unescape e of None \<Rightarrow> None | Some d \<Rightarrow> map_option ((#) d) (unquote r)))
      else if c = CHR 34 \<or> byte c < 32 then None
      else if rune_size (c # s) = 0 then map_option ((@) rune_error) (unquote s)
      else map_option ((@) (take (rune_size (c # s)) (c # s))) (unquote (drop (rune_size (c # s) - 1) s)))"
  by pat_completeness auto
termination
proof (relation "measure length")
  fix c e :: char and s r :: string and x
  assume "s = e # r"
  then show "(snd (unicode_escape x (drop 4 r)), c # s) \<in> measure length"
    using unicode_escape_shorter [of x "drop 4 r"] by simp
qed simp_all

declare unquote.simps(2) [simp del]

section \<open>Numbers\<close>

definition num_char :: "char \<Rightarrow> bool" where
  "num_char c = (is_digit c \<or> c \<in> set ''+-.eE'')"

definition digits1 :: "string \<Rightarrow> bool" where
  "digits1 s = (s \<noteq> [] \<and> list_all is_digit s)"

definition valid_exp :: "string \<Rightarrow> bool" where
  "valid_exp s =
     (case s of
        [] \<Rightarrow> True
      | c # r \<Rightarrow>
          (c = CHR ''e'' \<or> c = CHR ''E'') \<and>
          digits1 (if has_prefix r ''+'' \<or> has_prefix r ''-'' then tl r else r))"

definition valid_frac :: "string \<Rightarrow> bool" where
  "valid_frac s =
     (if has_prefix s ''.'' then takeWhile is_digit (tl s) \<noteq> [] \<and> valid_exp (dropWhile is_digit (tl s))
      else valid_exp s)"

definition valid_number :: "string \<Rightarrow> bool" where
  "valid_number s =
     (let u = (if has_prefix s ''-'' then tl s else s); i = takeWhile is_digit u
      in i \<noteq> [] \<and> (hd i = CHR ''0'' \<longrightarrow> length i = 1) \<and> valid_frac (dropWhile is_digit u))"

section \<open>The machine\<close>

datatype frame = FArr "json list" | FObj "(string \<times> json) list" string

datatype mode =
    MValue
  | MFirst
  | MKeyFirst
  | MKey
  | MColon
  | MStr bool string bool
  | MNum string
  | MWord string json
  | MNext
  | MDone json
  | MFail

type_synonym scan_state = "mode \<times> frame list"

definition maxNestingDepth :: nat where "maxNestingDepth = 10000"

fun complete_value :: "json \<Rightarrow> frame list \<Rightarrow> scan_state" where
  "complete_value v [] = (MDone v, [])"
| "complete_value v (FArr xs # k) = (MNext, FArr (xs @ [v]) # k)"
| "complete_value v (FObj kvs key # k) = (MNext, FObj (kvs @ [(key, v)]) [] # k)"

definition open_frame :: "mode \<Rightarrow> frame \<Rightarrow> frame list \<Rightarrow> scan_state" where
  "open_frame m f k = (if length k < maxNestingDepth then (m, f # k) else (MFail, []))"

definition is_space :: "char \<Rightarrow> bool" where
  "is_space c = (c = CHR '' '' \<or> c = CHR 9 \<or> c = CHR 13 \<or> c = CHR 10)"

definition begin_value :: "char \<Rightarrow> frame list \<Rightarrow> scan_state" where
  "begin_value c k =
     (if c = CHR 34 then (MStr False [] False, k)
      else if c = CHR ''{'' then open_frame MKeyFirst (FObj [] []) k
      else if c = CHR ''['' then open_frame MFirst (FArr []) k
      else if c = CHR ''t'' then (MWord ''rue'' (JBool True), k)
      else if c = CHR ''f'' then (MWord ''alse'' (JBool False), k)
      else if c = CHR ''n'' then (MWord ''ull'' JNull, k)
      else if c = CHR ''-'' \<or> is_digit c then (MNum [c], k)
      else (MFail, []))"

definition begin_key :: "char \<Rightarrow> frame list \<Rightarrow> scan_state" where
  "begin_key c k = (if c = CHR 34 then (MStr True [] False, k) else (MFail, []))"

text \<open>A byte after a complete value.\<close>

fun after_value :: "scan_state \<Rightarrow> char \<Rightarrow> scan_state" where
  "after_value (m, k) c =
     (if is_space c then (m, k)
      else (case (m, k) of
              (MNext, FArr xs # k') \<Rightarrow>
                if c = CHR '','' then (MValue, k) else if c = CHR '']'' then complete_value (JArr xs) k' else (MFail, [])
            | (MNext, FObj kvs _ # k') \<Rightarrow>
                if c = CHR '','' then (MKey, k) else if c = CHR ''}'' then complete_value (JObj kvs) k' else (MFail, [])
            | _ \<Rightarrow> (MFail, [])))"

definition end_string :: "bool \<Rightarrow> string \<Rightarrow> frame list \<Rightarrow> scan_state" where
  "end_string key acc k =
     (case unquote acc of
        None \<Rightarrow> (MFail, [])
      | Some s \<Rightarrow>
          if key then (case k of FObj kvs _ # k' \<Rightarrow> (MColon, FObj kvs s # k') | _ \<Rightarrow> (MFail, []))
          else complete_value (JStr s) k)"

fun scan_step :: "scan_state \<Rightarrow> char \<Rightarrow> scan_state" where
  "scan_step (MValue, k) c = (if is_space c then (MValue, k) else begin_value c k)"
| "scan_step (MFirst, k) c =
     (if is_space c then (MFirst, k) else if c = CHR '']'' then complete_value (JArr []) (tl k) else begin_value c k)"
| "scan_step (MKeyFirst, k) c =
     (if is_space c then (MKeyFirst, k) else if c = CHR ''}'' then complete_value (JObj []) (tl k) else begin_key c k)"
| "scan_step (MKey, k) c = (if is_space c then (MKey, k) else begin_key c k)"
| "scan_step (MColon, k) c =
     (if is_space c then (MColon, k) else if c = CHR '':'' then (MValue, k) else (MFail, []))"
| "scan_step (MStr key acc esc, k) c =
     (if esc then (MStr key (acc @ [c]) False, k)
      else if c = CHR 34 then end_string key acc k
      else (MStr key (acc @ [c]) (c = CHR 92), k))"
| "scan_step (MNum acc, k) c =
     (if num_char c then (MNum (acc @ [c]), k)
      else if valid_number acc then after_value (complete_value (JNum (Lit acc)) k) c
      else (MFail, []))"
| "scan_step (MWord w v, k) c =
     (if w = [c] then complete_value v k else if w \<noteq> [] \<and> hd w = c then (MWord (tl w) v, k) else (MFail, []))"
| "scan_step (MFail, k) c = (MFail, [])"
| "scan_step (m, k) c = after_value (m, k) c"

fun scan_end :: "scan_state \<Rightarrow> raw" where
  "scan_end (MDone v, _) = Some v"
| "scan_end (MNum acc, []) = (if valid_number acc then Some (JNum (Lit acc)) else None)"
| "scan_end _ = None"

definition parse_json :: "string \<Rightarrow> raw" where
  "parse_json s = scan_end (foldl scan_step (MValue, []) s)"

text \<open>\<open>json.NewDecoder\<close> reads the first value of a stream and leaves what comes after it unread.\<close>

definition in_number :: "scan_state \<Rightarrow> char \<Rightarrow> bool" where
  "in_number st c = (case fst st of MNum _ \<Rightarrow> num_char c | _ \<Rightarrow> False)"

fun scan_stream :: "scan_state \<Rightarrow> string \<Rightarrow> raw" where
  "scan_stream st [] = scan_end st"
| "scan_stream st (c # s) =
     (if in_number st c then scan_stream (scan_step st c) s
      else (case scan_end st of Some v \<Rightarrow> Some v | None \<Rightarrow> scan_stream (scan_step st c) s))"

definition decode_first :: "string \<Rightarrow> raw" where
  "decode_first s = scan_stream (MValue, []) s"

section \<open>What is read back\<close>

text \<open>The value with the invalid bytes of its strings replaced and its numbers as they are printed.\<close>

fun reread :: "(f64 \<Rightarrow> string) \<Rightarrow> json \<Rightarrow> json"
and reread_list :: "(f64 \<Rightarrow> string) \<Rightarrow> json list \<Rightarrow> json list"
and reread_members :: "(f64 \<Rightarrow> string) \<Rightarrow> (string \<times> json) list \<Rightarrow> (string \<times> json) list" where
  "reread ffmt (JNum n) = JNum (Lit (number_text ffmt n))"
| "reread ffmt (JStr s) = JStr (valid_bytes s)"
| "reread ffmt (JArr xs) = JArr (reread_list ffmt xs)"
| "reread ffmt (JObj kvs) = JObj (reread_members ffmt kvs)"
| "reread ffmt v = v"
| "reread_list ffmt [] = []"
| "reread_list ffmt (x # xs) = reread ffmt x # reread_list ffmt xs"
| "reread_members ffmt [] = []"
| "reread_members ffmt ((k, v) # kvs) = (valid_bytes k, reread ffmt v) # reread_members ffmt kvs"

text \<open>Numbers that print as JSON numbers, and the depth of nesting.\<close>

fun printable :: "(f64 \<Rightarrow> string) \<Rightarrow> nat \<Rightarrow> json \<Rightarrow> bool"
and printable_list :: "(f64 \<Rightarrow> string) \<Rightarrow> nat \<Rightarrow> json list \<Rightarrow> bool"
and printable_members :: "(f64 \<Rightarrow> string) \<Rightarrow> nat \<Rightarrow> (string \<times> json) list \<Rightarrow> bool" where
  "printable ffmt d (JNum n) = valid_number (number_text ffmt n)"
| "printable ffmt d (JArr xs) = (0 < d \<and> printable_list ffmt (d - 1) xs)"
| "printable ffmt d (JObj kvs) = (0 < d \<and> printable_members ffmt (d - 1) kvs)"
| "printable ffmt d v = True"
| "printable_list ffmt d [] = True"
| "printable_list ffmt d (x # xs) = (printable ffmt d x \<and> printable_list ffmt d xs)"
| "printable_members ffmt d [] = True"
| "printable_members ffmt d ((k, v) # kvs) = (printable ffmt d v \<and> printable_members ffmt d kvs)"

section \<open>Strings are read back\<close>

lemma hex_val_digit: "d < 16 \<Longrightarrow> hex_val (hex_digit d) = Some d"
  by (auto simp: hex_val_def hex_digit_def)

lemma byte_less: "byte c < 256"
  using nat_of_char_less_256 [of c] by simp

lemma hex4_byte: "hex4 (CHR ''0'' # CHR ''0'' # hex_byte (word_of_nat (byte c)) @ s) = Some (byte c)"
proof -
  have "byte c div 16 < 16" using byte_less [of c] by (simp add: less_mult_imp_div_less)
  then show ?thesis
    using byte_less [of c] by (simp add: hex_byte_def hex_val_digit unat_of_nat hex_val_def [of "CHR ''0''"])
qed

lemma hex4_eval:
  "hex4 (CHR ''f'' # CHR ''f'' # CHR ''f'' # CHR ''d'' # s) = Some 0xFFFD"
  "hex4 (CHR ''2'' # CHR ''0'' # CHR ''2'' # CHR ''8'' # s) = Some 0x2028"
  "hex4 (CHR ''2'' # CHR ''0'' # CHR ''2'' # CHR ''9'' # s) = Some 0x2029"
  by (simp_all add: hex_val_def)

lemma unquote_escaped_unit:
  assumes "hex4 r = Some x" "\<not> (0xD800 \<le> x \<and> x < 0xE000)"
  shows "unquote (CHR 92 # CHR ''u'' # r) = map_option ((@) (encode_rune x)) (unquote (drop 4 r))"
  proof -
  have "unicode_escape x s = (encode_rune x, s)" for s using assms(2) by (auto simp: unicode_escape_def)
  with assms(1) show ?thesis by (simp add: unquote.simps(2))
qed

lemma unquote_plain:
  assumes "32 \<le> byte c" "byte c < 128" "c \<noteq> CHR 92" "c \<noteq> CHR 34"
  shows "unquote (c # s) = map_option ((#) c) (unquote s)"
proof -
  have "(@) [c] = (#) c" by (rule ext) simp
  with assms show ?thesis by (simp add: unquote.simps(2))
qed

lemma unquote_rune:
  assumes "\<not> byte c < 128" "\<And>t. rune_size (c # d # r @ t) = Suc (Suc (length r))"
  shows "unquote (c # d # r @ s) = map_option ((@) (c # d # r)) (unquote s)"
proof -
  have "c \<noteq> CHR 92" "c \<noteq> CHR 34" using assms(1) by auto
  with assms show ?thesis by (simp add: unquote.simps(2))
qed

lemma unquote_escape_char:
  assumes "byte c < 128"
  shows "unquote (escape_char c @ s) = map_option ((#) c) (unquote s)"
proof -
  consider e where "map_of short_escapes c = Some e"
    | "map_of short_escapes c = None" "byte c < 32 \<or> c \<in> set ''<>&''"
    | "map_of short_escapes c = None" "32 \<le> byte c" "c \<notin> set ''<>&''" by fastforce
  then show ?thesis
  proof cases
    case 1
    then have "map_of unescape e = Some c" "e \<noteq> CHR ''u''"
      by (auto simp: short_escapes_def unescape_def split: if_splits)
    with 1 show ?thesis by (simp add: escape_char_def unquote.simps(2))
  next
    case 2
    then have "escape_char c = CHR 92 # CHR ''u'' # CHR ''0'' # CHR ''0'' # hex_byte (word_of_nat (byte c))"
      by (simp add: escape_char_def)
    moreover have "drop 2 (hex_byte w) = []" "length (hex_byte w) = 2" for w by (simp_all add: hex_byte_def)
    moreover have "encode_rune (byte c) = [c]" using assms by (simp add: encode_rune_def)
    moreover have "(@) [c] = (#) c" by (rule ext) simp
    ultimately show ?thesis using assms by (simp add: unquote_escaped_unit [OF hex4_byte])
  next
    case 3
    then have "c \<noteq> CHR 92" "c \<noteq> CHR 34" by (auto simp: short_escapes_def)
    with 3 assms show ?thesis by (simp add: escape_char_def unquote_plain)
  qed
qed

lemma unquote_escape: "unquote (escape_string s) = Some (valid_bytes s)"
proof (induction s rule: runes_induct)
  case (ascii c s)
  then show ?case by (simp add: unquote_escape_char)
next
  case (rune c d r s)
  have "encode_rune 0x2028 = [CHR 0xE2, CHR 0x80, CHR 0xA8]" "encode_rune 0x2029 = [CHR 0xE2, CHR 0x80, CHR 0xA9]"
    by (simp_all add: encode_rune_def char_of_def bit_simps)
  with rune show ?case
    by (auto simp: escape_rune valid_bytes_rune rune_text_def unquote_rune [of c d r "escape_string s", simplified]
        unquote_escaped_unit [OF hex4_eval(2)] unquote_escaped_unit [OF hex4_eval(3)])
next
  case (bad c s)
  have "encode_rune 0xFFFD = rune_error" by (simp add: encode_rune_def rune_error_def char_of_def bit_simps)
  with bad show ?case
    by (simp add: escape_bad valid_bytes_bad unquote_escaped_unit [OF hex4_eval(1)])
qed simp

text \<open>The machine stays in a string to its closing quote.\<close>

definition quote_free :: "string \<Rightarrow> bool" where
  "quote_free s = list_all (\<lambda>c. c \<noteq> CHR 34 \<and> c \<noteq> CHR 92) s"

lemma scan_plain:
  "quote_free s \<Longrightarrow> foldl scan_step (MStr key acc False, k) s = (MStr key (acc @ s) False, k)"
  by (induction s arbitrary: acc) (simp_all add: quote_free_def)

lemma scan_escaped:
  "quote_free s \<Longrightarrow> foldl scan_step (MStr key acc False, k) (CHR 92 # e # s) = (MStr key (acc @ CHR 92 # e # s) False, k)"
  by (simp add: scan_plain)

lemma hex_byte_quote_free: "quote_free (hex_byte w)"
proof -
  have "hex_digit d \<noteq> CHR 34 \<and> hex_digit d \<noteq> CHR 92" if "d < 16" for d
    using hex_val_digit [OF that] by (auto simp: hex_val_def)
  moreover have "unat w < 2 ^ LENGTH(8)" by (rule unsigned_less)
  ultimately show ?thesis by (simp add: quote_free_def hex_byte_def)
qed

lemma scan_escape_char: "foldl scan_step (MStr key acc False, k) (escape_char c) = (MStr key (acc @ escape_char c) False, k)"
proof (cases "map_of short_escapes c")
  case None
  then have "c \<noteq> CHR 34" "c \<noteq> CHR 92" by (auto simp: short_escapes_def split: if_splits)
  moreover have "foldl scan_step (MStr key acc False, k) ([CHR 92, CHR ''u''] @ ''00'' @ hex_byte w) =
      (MStr key (acc @ [CHR 92, CHR ''u''] @ ''00'' @ hex_byte w) False, k)" for w
    using scan_escaped [of "''00'' @ hex_byte w" key acc k "CHR ''u''"] hex_byte_quote_free [of w]
    by (simp add: quote_free_def)
  ultimately show ?thesis using None by (simp add: escape_char_def)
next
  case (Some e)
  then show ?thesis by (simp add: escape_char_def)
qed

lemma scan_escape_string:
  "foldl scan_step (MStr key acc False, k) (escape_string s) = (MStr key (acc @ escape_string s) False, k)"
proof (induction s arbitrary: acc rule: runes_induct)
  case (ascii c s)
  then show ?case by (simp add: scan_escape_char)
next
  case (rune c d r s)
  from rune have "quote_free (c # d # r)" by (auto simp: quote_free_def is_cont_def list_all_iff)
  then have "foldl scan_step (MStr key acc False, k) (rune_text (c # d # r)) = (MStr key (acc @ rune_text (c # d # r)) False, k)" for acc
    using scan_plain [of "c # d # r"] by (simp add: rune_text_def)
  with rune show ?case by (simp add: escape_rune)
next
  case (bad c s)
  then show ?case by (simp add: escape_bad)
qed simp

lemma scan_quoted:
  "foldl scan_step (MValue, k) (quote_json s) = complete_value (JStr (valid_bytes s)) k"
  "foldl scan_step (MKey, FObj kvs x # k) (quote_json s) = (MColon, FObj kvs (valid_bytes s) # k)"
  by (simp_all add: quote_json_def is_space_def begin_value_def begin_key_def scan_escape_string end_string_def unquote_escape)

section \<open>Numbers are read back\<close>

lemma num_char_digit: "is_digit c \<Longrightarrow> num_char c"
  by (simp add: num_char_def)

lemma takeWhile_num_char: "list_all num_char (takeWhile is_digit s)"
  by (induction s) (simp_all add: num_char_digit)

lemma digits1_num_char: "digits1 s \<Longrightarrow> list_all num_char s"
  by (auto simp: digits1_def list_all_iff num_char_digit)

lemma has_prefix_one: "has_prefix s [c] \<longleftrightarrow> (\<exists>t. s = c # t)"
  by (cases s) auto

lemma valid_exp_num_char: "valid_exp s \<Longrightarrow> list_all num_char s"
proof (cases s)
  case (Cons c r)
  assume "valid_exp s"
  with Cons have c: "num_char c" and d: "digits1 (if has_prefix r ''+'' \<or> has_prefix r ''-'' then tl r else r)"
    by (auto simp: valid_exp_def num_char_def)
  have "list_all num_char r"
  proof (cases "has_prefix r ''+'' \<or> has_prefix r ''-''")
    case True
    then obtain x t where "r = x # t" "num_char x" by (auto simp: has_prefix_one num_char_def)
    with d True show ?thesis by (simp add: digits1_num_char)
  next
    case False
    with d show ?thesis by (simp add: digits1_num_char)
  qed
  with c Cons show ?thesis by simp
qed simp

lemma split_num_char:
  assumes "list_all num_char (dropWhile is_digit s)"
  shows "list_all num_char s"
proof -
  have "list_all num_char (takeWhile is_digit s @ dropWhile is_digit s)" using assms takeWhile_num_char by (simp del: takeWhile_dropWhile_id)
  then show ?thesis by simp
qed

lemma valid_frac_num_char: "valid_frac s \<Longrightarrow> list_all num_char s"
proof (cases "has_prefix s ''.''")
  case True
  assume v: "valid_frac s"
  from True obtain t where "s = CHR ''.'' # t" by (auto simp: has_prefix_one)
  with v True show ?thesis by (simp add: valid_frac_def valid_exp_num_char split_num_char num_char_def [of "CHR ''.''"])
next
  case False
  assume "valid_frac s"
  with False show ?thesis by (simp add: valid_frac_def valid_exp_num_char)
qed

lemma valid_number_chars:
  assumes "valid_number s"
  obtains c t where "s = c # t" "c = CHR ''-'' \<or> is_digit c" "list_all num_char s"
proof (cases "has_prefix s ''-''")
  case True
  then obtain t where s: "s = CHR ''-'' # t" by (auto simp: has_prefix_one)
  with assms True have "list_all num_char t" by (auto simp: valid_number_def Let_def intro: split_num_char valid_frac_num_char)
  with s show ?thesis using that by (simp add: num_char_def [of "CHR ''-''"])
next
  case False
  with assms have n: "takeWhile is_digit s \<noteq> []" "list_all num_char s"
    by (auto simp: valid_number_def Let_def intro: split_num_char valid_frac_num_char)
  then obtain c t where "s = c # t" "is_digit c" by (cases s) (auto split: if_splits)
  with n show ?thesis using that by simp
qed

lemma show_nat_digits: "list_all is_digit (show_nat n)" "show_nat n \<noteq> []"
  using digit_char_is_digit [of _ n] by (auto simp: list_all_iff is_digit_def show_nat.simps [of n])

lemma digit_char_zero:
  assumes d: "d < 10"
  shows "digit_char d = CHR ''0'' \<longleftrightarrow> d = 0"
proof
  assume z: "digit_char d = CHR ''0''"
  have "Some d = digit_val (digit_char d)" using d by simp
  also have "\<dots> = Some 0" by (simp add: z digit_val_def)
  finally show "d = 0" by simp
qed (simp add: digit_char_def char_of_def bit_simps)

lemma show_nat_leading: "hd (show_nat n) = CHR ''0'' \<Longrightarrow> n = 0"
proof (induction n rule: show_nat.induct)
  case (1 n)
  show ?case
  proof (cases "n < 10")
    case True
    with 1 show ?thesis by (simp add: show_nat.simps [of n] digit_char_zero)
  next
    case False
    then have "hd (show_nat n) = hd (show_nat (n div 10))" by (simp add: show_nat.simps [of n] show_nat_digits hd_append)
    with 1 False show ?thesis by simp
  qed
qed

text \<open>An integer prints as a JSON number.\<close>

lemma valid_number_itoa [simp]: "valid_number (itoa i)"
proof -
  define m where "m = show_nat (nat \<bar>i\<bar>)"
  have m: "takeWhile is_digit m = m" "dropWhile is_digit m = []" "m \<noteq> []" "hd m = CHR ''0'' \<Longrightarrow> length m = 1"
    using show_nat_digits [of "nat \<bar>i\<bar>"] show_nat_leading [of "nat \<bar>i\<bar>"]
    by (auto simp: m_def list_all_iff takeWhile_eq_all_conv dropWhile_eq_Nil_conv show_nat.simps [of 0])
  have "\<not> has_prefix m ''-''"
    using show_nat_digits(1) [of "nat \<bar>i\<bar>"] by (auto simp: m_def has_prefix_one is_digit_def digit_val_minus)
  moreover have "itoa i = (if i < 0 then CHR ''-'' # m else m)" by (simp add: itoa_def m_def)
  ultimately show ?thesis by (simp add: valid_number_def valid_frac_def valid_exp_def m Let_def)
qed

lemma scan_digits:
  "list_all num_char s \<Longrightarrow> foldl scan_step (MNum acc, k) s = (MNum (acc @ s), k)"
  by (induction s arbitrary: acc) simp_all

section \<open>Values are read back\<close>

text \<open>The machine has read \<open>v\<close>: it is at its end, or in a number that ends with the next byte.\<close>

definition has_read :: "json \<Rightarrow> frame list \<Rightarrow> scan_state \<Rightarrow> bool" where
  "has_read v k st \<longleftrightarrow> st = complete_value v k \<or> (\<exists>s. st = (MNum s, k) \<and> valid_number s \<and> v = JNum (Lit s))"

lemma complete_step: "scan_step (complete_value v k) c = after_value (complete_value v k) c"
  by (induction v k rule: complete_value.induct) simp_all

lemma has_read_step: "has_read v k st \<Longrightarrow> \<not> num_char c \<Longrightarrow> scan_step st c = after_value (complete_value v k) c"
  by (auto simp: has_read_def complete_step)

lemma has_read_end: "has_read v [] st \<Longrightarrow> scan_end st = Some v"
  by (auto simp: has_read_def)

lemma not_num_char: "\<not> num_char (CHR '','')" "\<not> num_char (CHR '']'')" "\<not> num_char (CHR ''}'')"
  by (simp_all add: num_char_def is_digit_def digit_val_def)

lemma not_special:
  assumes "c = CHR ''-'' \<or> is_digit c"
  shows "begin_value c k = (MNum [c], k)" "\<not> is_space c" "c \<noteq> CHR '']''"
proof -
  have "48 \<le> byte c \<and> byte c \<le> 57" if "is_digit c"
    using that by (auto simp: is_digit_def digit_val_def Let_def split: if_splits)
  with assms have "c \<noteq> CHR 34" "c \<noteq> CHR ''{''" "c \<noteq> CHR ''[''" "c \<noteq> CHR ''t''" "c \<noteq> CHR ''f''" "c \<noteq> CHR ''n''"
    and "\<not> is_space c" "c \<noteq> CHR '']''"
    by (auto simp: is_space_def)
  with assms show "begin_value c k = (MNum [c], k)" "\<not> is_space c" "c \<noteq> CHR '']''" by (simp_all add: begin_value_def)
qed

text \<open>A value does not start as the end of an array does, so the first element is read like the others.\<close>

lemma first_as_value: "c \<noteq> CHR '']'' \<Longrightarrow> \<not> is_space c \<Longrightarrow> scan_step (MFirst, k) c = scan_step (MValue, k) c"
  by simp

lemma json_text_start:
  assumes "printable ffmt d v"
  obtains c t where "json_text ffmt v = c # t" "c \<noteq> CHR '']''" "\<not> is_space c"
proof (cases v)
  case (JBool b)
  then show ?thesis by (cases b) (auto simp: is_space_def intro: that)
next
  case (JNum n)
  with assms have "valid_number (number_text ffmt n)" by simp
  then obtain c t where "number_text ffmt n = c # t" "c = CHR ''-'' \<or> is_digit c" by (rule valid_number_chars)
  with JNum show ?thesis using that [of c t] not_special(2,3) by simp
qed (use that [of "CHR ''n''"] that [of "CHR 34"] that [of "CHR ''[''"] that [of "CHR ''{''"]
  in \<open>simp_all add: quote_json_def is_space_def\<close>)

lemma scan_first:
  assumes "printable ffmt d v"
  shows "foldl scan_step (MFirst, k) (json_text ffmt v) = foldl scan_step (MValue, k) (json_text ffmt v)"
  by (rule json_text_start [OF assms]) simp

lemma scan_key:
  "foldl scan_step (MKeyFirst, FObj acc x # k) (quote_json s) = (MColon, FObj acc (valid_bytes s) # k)"
  "foldl scan_step (MKey, FObj acc x # k) (quote_json s) = (MColon, FObj acc (valid_bytes s) # k)"
proof -
  have "foldl scan_step (MKeyFirst, FObj acc x # k) (quote_json s) = foldl scan_step (MKey, FObj acc x # k) (quote_json s)"
    by (simp add: quote_json_def is_space_def)
  then show "foldl scan_step (MKeyFirst, FObj acc x # k) (quote_json s) = (MColon, FObj acc (valid_bytes s) # k)"
    "foldl scan_step (MKey, FObj acc x # k) (quote_json s) = (MColon, FObj acc (valid_bytes s) # k)"
    by (simp_all add: scan_quoted)
qed

lemma join_cons: "join sep (x # xs) = (if xs = [] then x else x @ sep @ join sep xs)"
  by (cases xs) simp_all

lemma texts_Nil_iff: "json_texts ffmt xs = [] \<longleftrightarrow> xs = []" "member_texts ffmt kvs = [] \<longleftrightarrow> kvs = []"
  by (cases xs, simp_all) (cases kvs, auto)

lemma has_read_complete: "has_read v k (complete_value v k)"
  by (simp add: has_read_def)

lemma scan_first_join:
  assumes "printable_list ffmt d xs" "xs \<noteq> []"
  shows "foldl scan_step (MFirst, k) (join '','' (json_texts ffmt xs)) = foldl scan_step (MValue, k) (join '','' (json_texts ffmt xs))"
  using assms by (cases xs) (auto simp: join_cons scan_first)

lemma scan_key_join:
  assumes "kvs \<noteq> []"
  shows "foldl scan_step (MKeyFirst, FObj [] [] # k) (join '','' (member_texts ffmt kvs)) =
    foldl scan_step (MKey, FObj [] [] # k) (join '','' (member_texts ffmt kvs))"
  using assms by (cases kvs) (auto simp: join_cons scan_key)

lemma scan_value:
  "printable ffmt d v \<Longrightarrow> length k + d \<le> maxNestingDepth \<Longrightarrow>
     has_read (reread ffmt v) k (foldl scan_step (MValue, k) (json_text ffmt v))"
  "printable_list ffmt e xs \<Longrightarrow> length k + Suc e \<le> maxNestingDepth \<Longrightarrow> xs \<noteq> [] \<Longrightarrow>
     scan_step (foldl scan_step (MValue, FArr vs # k) (join '','' (json_texts ffmt xs))) (CHR '']'') =
     complete_value (JArr (vs @ reread_list ffmt xs)) k"
  "printable_members ffmt e kvs \<Longrightarrow> length k + Suc e \<le> maxNestingDepth \<Longrightarrow> kvs \<noteq> [] \<Longrightarrow>
     scan_step (foldl scan_step (MKey, FObj ms [] # k) (join '','' (member_texts ffmt kvs))) (CHR ''}'') =
     complete_value (JObj (ms @ reread_members ffmt kvs)) k"
proof (induction ffmt v and ffmt xs and ffmt kvs arbitrary: d k and e vs k and e ms k
    rule: json_text_json_texts_member_texts.induct)
  case (1 ffmt)
  then show ?case by (simp add: is_space_def begin_value_def has_read_def is_digit_def digit_val_def)
next
  case (2 ffmt b)
  then show ?case by (simp add: is_space_def begin_value_def has_read_def is_digit_def digit_val_def)
next
  case (3 ffmt n)
  then have v: "valid_number (number_text ffmt n)" by simp
  then obtain c t where n: "number_text ffmt n = c # t" "c = CHR ''-'' \<or> is_digit c" "list_all num_char (number_text ffmt n)"
    by (rule valid_number_chars)
  then have "foldl scan_step (MValue, k) (number_text ffmt n) = (MNum (number_text ffmt n), k)"
    by (simp add: not_special scan_digits)
  with v show ?case by (simp add: has_read_def)
next
  case (4 ffmt s)
  then show ?case by (simp add: scan_quoted has_read_complete)
next
  case (5 ffmt xs)
  then have k: "length k < maxNestingDepth" "length k + Suc (d - 1) \<le> maxNestingDepth" "printable_list ffmt (d - 1) xs" by auto
  show ?case
  proof (cases "xs = []")
    case True
    with k show ?thesis by (simp add: is_space_def begin_value_def open_frame_def has_read_complete)
  next
    case False
    with 5(1) [OF k(3,2) False, of "[]"] k show ?thesis
      by (simp add: is_space_def begin_value_def open_frame_def has_read_complete scan_first_join)
  qed
next
  case (6 ffmt kvs)
  then have k: "length k < maxNestingDepth" "length k + Suc (d - 1) \<le> maxNestingDepth" "printable_members ffmt (d - 1) kvs" by auto
  show ?case
  proof (cases "kvs = []")
    case True
    with k show ?thesis by (simp add: is_space_def begin_value_def open_frame_def has_read_complete)
  next
    case False
    with 6(1) [OF k(3,2) False, of "[]"] k show ?thesis
      by (simp add: is_space_def begin_value_def open_frame_def has_read_complete scan_key_join)
  qed
next
  case (8 ffmt x xs)
  have "length (FArr vs # k) + e \<le> maxNestingDepth" "printable ffmt e x" using 8 by simp_all
  from has_read_step [OF 8(1) [OF this(2,1)]] 8 show ?case
    by (auto simp: join_cons texts_Nil_iff not_num_char is_space_def)
next
  case (10 ffmt m v kvs)
  have "length (FObj ms (valid_bytes m) # k) + e \<le> maxNestingDepth" "printable ffmt e v" using 10 by simp_all
  from has_read_step [OF 10(1) [OF this(2,1)]] 10 show ?case
    by (auto simp: join_cons texts_Nil_iff not_num_char is_space_def scan_key)
qed simp_all

theorem parse_json_text:
  "printable ffmt maxNestingDepth v \<Longrightarrow> parse_json (json_text ffmt v) = Some (reread ffmt v)"
  using has_read_end [OF scan_value(1) [where k = "[]"]] by (simp add: parse_json_def)

text \<open>What is read as a whole text is read from a stream too.\<close>

lemma scan_failed: "scan_end (foldl scan_step (MFail, k) s) = None"
  by (induction s arbitrary: k) simp_all

lemma scan_done: "scan_end (foldl scan_step (MDone w, k) s) = Some v \<Longrightarrow> v = w"
  by (induction s) (auto simp: scan_failed split: if_splits)

lemma scan_stream_whole:
  "scan_end (foldl scan_step st s) = Some v \<Longrightarrow> scan_stream st s = Some v"
proof (induction s arbitrary: st)
  case (Cons c s)
  show ?case
  proof (cases "\<not> in_number st c \<and> scan_end st \<noteq> None")
    case True
    then obtain w where w: "scan_end st = Some w" by blast
    then consider x where "st = (MDone w, x)" | a where "st = (MNum a, [])" "valid_number a" "w = JNum (Lit a)"
      by (cases st rule: scan_end.cases) (auto split: if_splits)
    then have "v = w"
    proof cases
      case (1 x)
      then show ?thesis using Cons.prems by (cases "is_space c") (auto simp: scan_failed intro: scan_done)
    next
      case (2 a)
      then have "scan_step st c = (if is_space c then (MDone w, []) else (MFail, []))"
        using True by (simp add: in_number_def)
      then show ?thesis using Cons.prems by (auto simp: scan_failed intro: scan_done split: if_splits)
    qed
    with True w show ?thesis by simp
  next
    case False
    with Cons show ?thesis by (auto split: option.splits)
  qed
qed simp

lemma decode_first_whole: "parse_json s = Some v \<Longrightarrow> decode_first s = Some v"
  unfolding parse_json_def decode_first_def by (rule scan_stream_whole)

lemma decode_first_text:
  "printable ffmt maxNestingDepth v \<Longrightarrow> decode_first (json_text ffmt v) = Some (reread ffmt v)"
  by (rule decode_first_whole) (rule parse_json_text)

section \<open>The text is valid UTF-8\<close>

lemma hex_byte_ascii: "list_all (\<lambda>c. byte c < 128) (hex_byte w)"
proof -
  have "byte (hex_digit d) < 128" if "d < 16" for d
    using hex_val_digit [OF that] by (auto simp: hex_val_def split: if_splits)
  moreover have "unat w < 2 ^ LENGTH(8)" by (rule unsigned_less)
  ultimately show ?thesis by (simp add: hex_byte_def)
qed

lemma utf8_escape_char: "byte c < 128 \<Longrightarrow> utf8 (escape_char c)"
proof (cases "map_of short_escapes c")
  case None
  assume "byte c < 128"
  moreover have "utf8 ([CHR 92] @ ''u00'' @ hex_byte w)" for w
    by (intro utf8_append utf8_ascii hex_byte_ascii) simp_all
  ultimately show ?thesis using None by (simp add: escape_char_def utf8_Cons)
next
  case (Some e)
  then have "byte e < 128" by (auto simp: short_escapes_def split: if_splits)
  with Some show ?thesis by (simp add: escape_char_def utf8_Cons)
qed

lemma utf8_escape: "utf8 (escape_string s)"
proof (induction s rule: runes_induct)
  case (ascii c s)
  then show ?case by (simp add: utf8_append utf8_escape_char)
next
  case (rune c d r s)
  have "utf8 (rune_text (c # d # r))"
    using valid_bytes_rune [of c d r "[]"] rune(4) by (simp add: rune_text_def utf8_def)
  with rune show ?case by (simp add: escape_rune utf8_append)
next
  case (bad c s)
  then show ?case by (simp add: escape_bad utf8_Cons)
qed simp

lemma utf8_join: "utf8 sep \<Longrightarrow> list_all utf8 xs \<Longrightarrow> utf8 (join sep xs)"
  by (induction sep xs rule: join.induct) (auto intro!: utf8_append)

lemma utf8_quote: "utf8 (quote_json s)"
  unfolding quote_json_def by (intro utf8_append utf8_escape utf8_ascii) simp_all

lemma utf8_number: "valid_number s \<Longrightarrow> utf8 s"
proof (rule utf8_ascii)
  assume "valid_number s"
  then have "list_all num_char s" by (rule valid_number_chars)
  moreover have "byte c < 128" if "num_char c" for c
    using that by (auto simp: num_char_def is_digit_def digit_val_def Let_def split: if_splits)
  ultimately show "list_all (\<lambda>c. byte c < 128) s" by (auto simp: list_all_iff)
qed

text \<open>The text that is written is valid UTF-8.\<close>

lemma utf8_json_text:
  "printable ffmt d v \<Longrightarrow> utf8 (json_text ffmt v)"
  "printable_list ffmt d xs \<Longrightarrow> list_all utf8 (json_texts ffmt xs)"
  "printable_members ffmt d kvs \<Longrightarrow> list_all utf8 (member_texts ffmt kvs)"
proof (induction ffmt d v and ffmt d xs and ffmt d kvs rule: printable_printable_list_printable_members.induct)
  case (2 ffmt d xs)
  then show ?case by (simp add: utf8_Cons utf8_append utf8_join utf8_ascii)
next
  case (3 ffmt d kvs)
  then show ?case by (simp add: utf8_Cons utf8_append utf8_join utf8_ascii)
qed (simp_all add: utf8_quote utf8_number utf8_ascii utf8_append utf8_Cons)

section \<open>Values that come back as they were\<close>

definition readable :: "json \<Rightarrow> bool" where
  "readable v = (printable (\<lambda>_. []) maxNestingDepth v \<and> reread (\<lambda>_. []) v = v)"

lemma parse_marshal: "readable v \<Longrightarrow> parse_json (marshal v) = Some v"
  using parse_json_text [of "\<lambda>_. []" v] by (simp add: readable_def)

lemma decode_first_marshal: "readable v \<Longrightarrow> decode_first (marshal v) = Some v"
  by (rule decode_first_whole) (rule parse_marshal)

text \<open>\<open>json.Encoder\<close> ends its text with a line feed.\<close>

lemma parse_encoded:
  assumes "readable v"
  shows "parse_json (marshal v @ [CHR 10]) = Some v"
proof -
  have "has_read v [] (foldl scan_step (MValue, []) (marshal v))"
    using scan_value(1) [of "\<lambda>_. []" maxNestingDepth v "[]"] assms by (simp add: readable_def)
  moreover have "\<not> num_char (CHR 10)" by (simp add: num_char_def is_digit_def digit_val_def)
  ultimately have "scan_step (foldl scan_step (MValue, []) (marshal v)) (CHR 10) = after_value (complete_value v []) (CHR 10)"
    by (rule has_read_step)
  then show ?thesis by (simp add: parse_json_def is_space_def del: json_text.simps)
qed

text \<open>A string that is its own quotation.\<close>

definition plain :: "string \<Rightarrow> bool" where
  "plain s = list_all (\<lambda>c. 32 \<le> byte c \<and> byte c < 128 \<and> c \<noteq> CHR 34 \<and> c \<noteq> CHR 92) s"

lemma plain_quoted: "plain s \<Longrightarrow> quote_free s \<and> unquote s = Some s"
  by (induction s) (simp_all add: plain_def quote_free_def unquote_plain)

lemma scan_plain_value: "plain s \<Longrightarrow> foldl scan_step (MValue, k) ([CHR 34] @ s @ [CHR 34]) = complete_value (JStr s) k"
  using plain_quoted [of s] by (simp add: is_space_def begin_value_def scan_plain end_string_def)

lemma scan_plain_key: "plain s \<Longrightarrow> foldl scan_step (MKey, FObj kvs x # k) ([CHR 34] @ s @ [CHR 34]) = (MColon, FObj kvs s # k)"
  using plain_quoted [of s] by (simp add: is_space_def begin_key_def scan_plain end_string_def)

lemma escape_char_plain:
  assumes "32 \<le> byte c" "c \<noteq> CHR 34" "c \<noteq> CHR 92" "c \<notin> set ''<>&''"
  shows "escape_char c = [c]"
proof -
  have "c \<notin> {CHR 8, CHR 9, CHR 10, CHR 12, CHR 13}" using assms(1) by auto
  with assms show ?thesis by (simp add: escape_char_def short_escapes_def)
qed

lemma escape_string_plain: "plain s \<Longrightarrow> list_all (\<lambda>c. c \<notin> set ''<>&'') s \<Longrightarrow> escape_string s = s"
  by (induction s) (simp_all add: plain_def escape_char_plain)

lemma quote_json_plain:
  "plain s \<Longrightarrow> list_all (\<lambda>c. c \<notin> set ''<>&'') s \<Longrightarrow> quote_json s = [CHR 34] @ s @ [CHR 34]"
  by (simp add: quote_json_def escape_string_plain)

end
