(* ===== verification/Eval_Case.thy ===== *)
theory Eval_Case
  imports Json_Parse
begin

text \<open>
  The eval runner's cases and their verdict: \<open>types.go\<close>, \<open>suite.go\<close> and \<open>evaluator.go\<close> of
  \<open>cmd/eval-runner\<close>. The arguments of a trace row are the JSON value that Postgres printed into the
  row; \<open>txt\<close> is that text, which the evaluator searches. The YAML decoder is a parameter.
\<close>

record eval_case =
  ec_name :: string
  ec_input :: string
  ec_must_include :: "string list"
  ec_must_not_include :: "string list"
  ec_outcome :: string
  ec_forbidden_args :: "string list"

type_synonym eval_suite = "eval_case list"

record trace_row =
  trow_tool :: string
  trow_decision :: string
  trow_args :: raw

type_synonym trace = "trace_row list"

record check_failure =
  cf_check :: string
  cf_expected :: string
  cf_observed :: string

record case_result =
  cr_name :: string
  cr_passed :: bool
  cr_failures :: "check_failure list"
  cr_trace :: trace

section \<open>Loading a suite\<close>

definition allowedPolicyOutcomes :: "string list" where
  "allowedPolicyOutcomes = [''allow'', ''deny'', ''approvalRequired'', ''expired'', ''upstream_error'']"

definition missing_field :: "string \<Rightarrow> string \<Rightarrow> goerr" where
  "missing_field what f = EMsg (what @ '': missing required field '' @ go_quote f)"

definition check_case :: "nat \<Rightarrow> eval_case \<Rightarrow> goerr option" where
  "check_case i c =
     (let what = ''case '' @ go_quote (ec_name c)
      in if ec_name c = [] then Some (missing_field (''case['' @ itoa (int i) @ '']'') ''name'')
         else if ec_input c = [] then Some (missing_field what ''input'')
         else if ec_outcome c = [] then Some (missing_field what ''policyOutcome'')
         else if ec_outcome c \<notin> set allowedPolicyOutcomes
         then Some (EMsg (what @ '': invalid policyOutcome '' @ go_quote (ec_outcome c)))
         else None)"

fun check_cases :: "nat \<Rightarrow> eval_case list \<Rightarrow> goerr option" where
  "check_cases i [] = None"
| "check_cases i (c # cs) = (case check_case i c of Some e \<Rightarrow> Some e | None \<Rightarrow> check_cases (Suc i) cs)"

definition LoadSuiteFromReader :: "('r \<Rightarrow> eval_suite go) \<Rightarrow> 'r \<Rightarrow> eval_suite go" where
  "LoadSuiteFromReader yaml r =
     (case yaml r of
        Panic m \<Rightarrow> Panic m
      | Fail e \<Rightarrow> Fail (EWrap ''parse eval suite'' e)
      | Ret suite \<Rightarrow> (case check_cases 0 suite of Some e \<Rightarrow> Fail e | None \<Rightarrow> Ret suite))"

definition LoadSuite :: "('r \<Rightarrow> eval_suite go) \<Rightarrow> (string \<Rightarrow> 'r go) \<Rightarrow> string \<Rightarrow> eval_suite go" where
  "LoadSuite yaml os_open path =
     (case os_open path of
        Panic m \<Rightarrow> Panic m
      | Fail e \<Rightarrow> Fail e
      | Ret r \<Rightarrow>
          (case LoadSuiteFromReader yaml r of
             Fail e \<Rightarrow> Fail (EWrap (''parse eval suite '' @ go_quote path) e)
           | other \<Rightarrow> other))"

section \<open>Checks\<close>

definition failure :: "string \<Rightarrow> string \<Rightarrow> string \<Rightarrow> check_failure" where
  "failure c e ob = \<lparr>cf_check = c, cf_expected = e, cf_observed = ob\<rparr>"

definition empty_trace :: string where "empty_trace = ''(empty trace)''"

text \<open>The tools must occur in this order: each is looked for after the place of the one before.\<close>

fun after_tool :: "string \<Rightarrow> trace \<Rightarrow> trace option" where
  "after_tool t [] = None"
| "after_tool t (r # rs) = (if trow_tool r = t then Some rs else after_tool t rs)"

fun first_missing :: "string list \<Rightarrow> trace \<Rightarrow> string option" where
  "first_missing [] rs = None"
| "first_missing (t # ts) rs =
     (case after_tool t rs of None \<Rightarrow> Some t | Some rs' \<Rightarrow> first_missing ts rs')"

definition evaluateMustInclude :: "string list \<Rightarrow> trace \<Rightarrow> check_failure list" where
  "evaluateMustInclude ts tr =
     (if ts = [] then []
      else if tr = [] then [failure ''mustInclude'' (hd ts) empty_trace]
      else (case first_missing ts tr of
              None \<Rightarrow> []
            | Some t \<Rightarrow> [failure ''mustInclude'' t (trow_tool (last tr))]))"

definition evaluateMustNotInclude :: "string list \<Rightarrow> trace \<Rightarrow> check_failure list" where
  "evaluateMustNotInclude ts tr =
     map (\<lambda>r. failure ''mustNotInclude'' (trow_tool r) (trow_tool r)) (filter (\<lambda>r. trow_tool r \<in> set ts) tr)"

definition evaluatePolicyOutcome :: "string \<Rightarrow> trace \<Rightarrow> check_failure list" where
  "evaluatePolicyOutcome expected tr =
     (if expected = [] then []
      else if tr = [] then [failure ''policyOutcome'' expected empty_trace]
      else if trow_decision (last tr) = expected then []
      else [failure ''policyOutcome'' expected (trow_decision (last tr))])"

definition evaluateMustNotContainInArgs :: "(raw \<Rightarrow> string) \<Rightarrow> string list \<Rightarrow> trace \<Rightarrow> check_failure list" where
  "evaluateMustNotContainInArgs txt fs tr =
     concat (map (\<lambda>f. case find (\<lambda>r. contains (txt (trow_args r)) f) tr of
                        None \<Rightarrow> []
                      | Some r \<Rightarrow> [failure ''mustNotContainInArgs'' f (txt (trow_args r))]) fs)"

definition eval_Evaluate :: "(raw \<Rightarrow> string) \<Rightarrow> eval_case \<Rightarrow> trace \<Rightarrow> case_result" where
  "eval_Evaluate txt c tr =
     (let fs = evaluateMustInclude (ec_must_include c) tr @
               evaluateMustNotInclude (ec_must_not_include c) tr @
               evaluatePolicyOutcome (ec_outcome c) tr @
               evaluateMustNotContainInArgs txt (ec_forbidden_args c) tr
      in if fs = [] then \<lparr>cr_name = ec_name c, cr_passed = True, cr_failures = [], cr_trace = tr\<rparr>
         else \<lparr>cr_name = ec_name c, cr_passed = False, cr_failures = fs, cr_trace = tr\<rparr>)"

section \<open>Facts\<close>

lemma after_tool_None: "after_tool t rs = None \<longleftrightarrow> t \<notin> trow_tool ` set rs"
  by (induction t rs rule: after_tool.induct) auto

lemma subseq_after_tool:
  "subseq (t # ts) (map trow_tool rs) \<longleftrightarrow>
     (\<exists>rs'. after_tool t rs = Some rs' \<and> subseq ts (map trow_tool rs'))"
  by (induction t rs rule: after_tool.induct) auto

lemma first_missing_None: "first_missing ts rs = None \<longleftrightarrow> subseq ts (map trow_tool rs)"
  by (induction ts rs rule: first_missing.induct) (simp_all add: subseq_after_tool split: option.splits)

lemma must_include_ok: "evaluateMustInclude ts tr = [] \<longleftrightarrow> subseq ts (map trow_tool tr)"
  using first_missing_None [of ts tr]
  by (cases tr; cases ts) (auto simp: evaluateMustInclude_def split: option.splits)

lemma must_not_include_ok: "evaluateMustNotInclude ts tr = [] \<longleftrightarrow> set ts \<inter> trow_tool ` set tr = {}"
  by (auto simp: evaluateMustNotInclude_def filter_empty_conv)

lemma policy_outcome_ok:
  "evaluatePolicyOutcome e tr = [] \<longleftrightarrow> e = [] \<or> (tr \<noteq> [] \<and> trow_decision (last tr) = e)"
  by (simp add: evaluatePolicyOutcome_def)

lemma forbidden_args_ok:
  "evaluateMustNotContainInArgs txt fs tr = [] \<longleftrightarrow>
     (\<forall>f \<in> set fs. \<forall>r \<in> set tr. \<not> contains (txt (trow_args r)) f)"
  by (auto simp: evaluateMustNotContainInArgs_def find_None_iff split: option.splits)

lemma check_cases_None: "check_cases i cs = None \<longleftrightarrow> (\<forall>c \<in> set cs. check_case 0 c = None)"
proof (induction i cs rule: check_cases.induct)
  case (2 i c cs)
  have "check_case i c = None \<longleftrightarrow> check_case 0 c = None" by (simp add: check_case_def Let_def)
  with 2 show ?case by (auto split: option.splits)
qed simp

section \<open>Properties\<close>

text \<open>
  C26. What a passed case means: the expected tools occur in the trace in their order, no forbidden
  tool occurs, the last decision is the expected one, and no row's arguments contain a forbidden
  text; and the result has failures exactly when it has not passed.
\<close>

theorem case_passed_iff:
  "(cr_passed (eval_Evaluate txt c tr) \<longleftrightarrow>
     subseq (ec_must_include c) (map trow_tool tr) \<and>
     set (ec_must_not_include c) \<inter> trow_tool ` set tr = {} \<and>
     (ec_outcome c = [] \<or> (tr \<noteq> [] \<and> trow_decision (last tr) = ec_outcome c)) \<and>
     list_all (\<lambda>f. list_all (\<lambda>r. \<not> contains (txt (trow_args r)) f) tr) (ec_forbidden_args c)) \<and>
   (cr_passed (eval_Evaluate txt c tr) \<longleftrightarrow> cr_failures (eval_Evaluate txt c tr) = [])"
proof -
  have "cr_passed (eval_Evaluate txt c tr) \<longleftrightarrow>
      evaluateMustInclude (ec_must_include c) tr = [] \<and> evaluateMustNotInclude (ec_must_not_include c) tr = [] \<and>
      evaluatePolicyOutcome (ec_outcome c) tr = [] \<and> evaluateMustNotContainInArgs txt (ec_forbidden_args c) tr = []"
    "cr_passed (eval_Evaluate txt c tr) \<longleftrightarrow> cr_failures (eval_Evaluate txt c tr) = []"
    by (auto simp: eval_Evaluate_def Let_def)
  then show ?thesis
    by (simp add: must_include_ok must_not_include_ok policy_outcome_ok forbidden_args_ok list_all_iff)
qed

text \<open>
  A case of a suite that was loaded cannot pass on an empty trace: it passes only if the last
  decision of the trace is its expected outcome, which is one of the five that are allowed.
\<close>

theorem loaded_case_needs_decision:
  assumes "LoadSuiteFromReader yaml r = Ret suite" and "c \<in> set suite" and "cr_passed (eval_Evaluate txt c tr)"
  shows "tr \<noteq> [] \<and> trow_decision (last tr) = ec_outcome c \<and> ec_outcome c \<in> set allowedPolicyOutcomes"
proof -
  from assms(1) have "check_cases 0 suite = None"
    by (auto simp: LoadSuiteFromReader_def split: go.splits option.splits)
  with assms(2) have "check_case 0 c = None" by (simp add: check_cases_None)
  then have o: "ec_outcome c \<noteq> []" "ec_outcome c \<in> set allowedPolicyOutcomes"
    by (auto simp: check_case_def Let_def split: if_splits)
  from assms(3) have "evaluatePolicyOutcome (ec_outcome c) tr = []"
    by (auto simp: eval_Evaluate_def Let_def split: if_splits)
  with o show ?thesis by (simp add: policy_outcome_ok)
qed

definition demo_case :: eval_case where
  "demo_case =
     \<lparr>ec_name = ''refund'', ec_input = ''refund alice'', ec_must_include = [''list_recent_charges'', ''create_refund''],
      ec_must_not_include = [''delete_customer''], ec_outcome = ''allow'', ec_forbidden_args = [''4242'']\<rparr>"

definition demo_trace :: trace where
  "demo_trace =
     [\<lparr>trow_tool = ''list_recent_charges'', trow_decision = ''allow'', trow_args = None\<rparr>,
      \<lparr>trow_tool = ''create_refund'', trow_decision = ''allow'', trow_args = None\<rparr>]"

lemma demo_case_passes: "cr_passed (eval_Evaluate (\<lambda>_. ''{}'') demo_case demo_trace)"
  by (simp add: demo_case_def demo_trace_def eval_Evaluate_def evaluateMustInclude_def evaluateMustNotInclude_def
      evaluatePolicyOutcome_def evaluateMustNotContainInArgs_def Let_def)

theorem loaded_case_needs_decision_witness:
  "trow_decision (last demo_trace) = ec_outcome demo_case"
proof -
  have "LoadSuiteFromReader (\<lambda>_. Ret [demo_case]) () = Ret [demo_case]"
    by (simp add: LoadSuiteFromReader_def check_case_def demo_case_def allowedPolicyOutcomes_def Let_def)
  from loaded_case_needs_decision [OF this _ demo_case_passes] show ?thesis by simp
qed

end
