(* ===== verification/Eval_Report.thy ===== *)
theory Eval_Report
  imports Eval_Case Json_Text
begin

text \<open>
  \<open>reporter.go\<close> and \<open>summarizeResults\<close> of \<open>execution.go\<close> of \<open>cmd/eval-runner\<close>: the Markdown report, the
  exit code and the summary. The template is written out as the text it produces.
\<close>

definition nl :: string where "nl = [CHR 10]"

text \<open>The replacer takes the first pattern that matches, \<open>\r\n\<close> before \<open>\r\<close>.\<close>

fun sanitizeMarkdownCell :: "string \<Rightarrow> string" where
  "sanitizeMarkdownCell [] = []"
| "sanitizeMarkdownCell (c # s) =
     (if c = CHR 13 then ''<br>'' @ sanitizeMarkdownCell (if has_prefix s nl then tl s else s)
      else if c = CHR 10 then ''<br>'' @ sanitizeMarkdownCell s
      else if c = CHR ''|'' then [CHR 92, CHR ''|''] @ sanitizeMarkdownCell s
      else c # sanitizeMarkdownCell s)"

text \<open>The data of the template.\<close>

record report_row =
  rr_name :: string
  rr_status :: string

record report_failure_row =
  rf_check :: string
  rf_expected :: string
  rf_observed :: string

record report_failure_case =
  rc_name :: string
  rc_failures :: "report_failure_row list"

record report_data =
  rd_rows :: "report_row list"
  rd_passed :: nat
  rd_total :: nat
  rd_failed :: "report_failure_case list"
  rd_verdict :: string

definition sanitize_failure :: "check_failure \<Rightarrow> report_failure_row" where
  "sanitize_failure f =
     \<lparr>rf_check = sanitizeMarkdownCell (cf_check f), rf_expected = sanitizeMarkdownCell (cf_expected f),
      rf_observed = sanitizeMarkdownCell (cf_observed f)\<rparr>"

definition sanitizeFailureCase :: "case_result \<Rightarrow> report_failure_case" where
  "sanitizeFailureCase r = \<lparr>rc_name = sanitizeMarkdownCell (cr_name r), rc_failures = map sanitize_failure (cr_failures r)\<rparr>"

definition finalVerdict :: "nat \<Rightarrow> string" where
  "finalVerdict n = (if n = 0 then ''PASS'' else ''FAIL: '' @ itoa (int n) @ '' case(s) failed'')"

definition failed_cases :: "case_result list \<Rightarrow> case_result list" where
  "failed_cases rs = filter (\<lambda>r. \<not> cr_passed r) rs"

definition passed_count :: "case_result list \<Rightarrow> nat" where
  "passed_count rs = length (filter cr_passed rs)"

text \<open>The loop over the results, with the counter, the failed cases and the rows so far.\<close>

fun report_loop ::
  "case_result list \<Rightarrow> nat \<Rightarrow> report_failure_case list \<Rightarrow> report_row list \<Rightarrow> nat \<times> report_failure_case list \<times> report_row list" where
  "report_loop [] n failed rows = (n, failed, rows)"
| "report_loop (r # rs) n failed rows =
     (let row = \<lparr>rr_name = sanitizeMarkdownCell (cr_name r), rr_status = if cr_passed r then ''PASS'' else ''FAIL''\<rparr>
      in if cr_passed r then report_loop rs (Suc n) failed (rows @ [row])
         else report_loop rs n (failed @ [sanitizeFailureCase r]) (rows @ [row]))"

text \<open>The template, executed.\<close>

definition template_row :: "report_row \<Rightarrow> string" where
  "template_row r = ''| '' @ rr_name r @ '' | '' @ rr_status r @ '' |''"

definition template_failure :: "report_failure_row \<Rightarrow> string" where
  "template_failure f = ''| '' @ rf_check f @ '' | '' @ rf_expected f @ '' | '' @ rf_observed f @ '' |''"

definition template_case :: "report_failure_case \<Rightarrow> string" where
  "template_case c =
     nl @ nl @ ''## '' @ rc_name c @ nl @ ''| Check | Expected | Observed |'' @ nl @ ''| --- | --- | --- |'' @
     concat (map (\<lambda>f. nl @ template_failure f) (rc_failures c))"

definition reportTemplate :: "report_data \<Rightarrow> string" where
  "reportTemplate d =
     ''| Case | Status |'' @ nl @ ''| --- | --- |'' @ concat (map (\<lambda>r. nl @ template_row r) (rd_rows d)) @
     nl @ nl @ itoa (int (rd_passed d)) @ ''/'' @ itoa (int (rd_total d)) @ '' cases passed'' @
     concat (map template_case (rd_failed d)) @
     nl @ nl @ rd_verdict d"

definition GenerateReport :: "case_result list \<Rightarrow> string" where
  "GenerateReport rs =
     (case report_loop rs 0 [] [] of
        (n, failed, rows) \<Rightarrow>
          reportTemplate \<lparr>rd_rows = rows, rd_passed = n, rd_total = length rs, rd_failed = failed,
                          rd_verdict = finalVerdict (length failed)\<rparr>)"

fun ExitCode :: "case_result list \<Rightarrow> int" where
  "ExitCode [] = 0"
| "ExitCode (r # rs) = (if \<not> cr_passed r then 1 else ExitCode rs)"

record eval_response =
  er_passed :: bool
  er_pass_count :: nat
  er_total :: nat
  er_cases :: "case_result list"
  er_report :: string

definition summarizeResults :: "case_result list \<Rightarrow> eval_response" where
  "summarizeResults rs =
     \<lparr>er_passed = (passed_count rs = length rs), er_pass_count = passed_count rs, er_total = length rs,
      er_cases = rs, er_report = GenerateReport rs\<rparr>"

section \<open>The lines of the report\<close>

definition status_row :: "case_result \<Rightarrow> string" where
  "status_row r = ''| '' @ sanitizeMarkdownCell (cr_name r) @ '' | '' @ (if cr_passed r then ''PASS'' else ''FAIL'') @ '' |''"

definition failure_row :: "check_failure \<Rightarrow> string" where
  "failure_row f = ''| '' @ sanitizeMarkdownCell (cf_check f) @ '' | '' @ sanitizeMarkdownCell (cf_expected f) @ '' | '' @
     sanitizeMarkdownCell (cf_observed f) @ '' |''"

definition count_line :: "case_result list \<Rightarrow> string" where
  "count_line rs = itoa (int (passed_count rs)) @ ''/'' @ itoa (int (length rs)) @ '' cases passed''"

lemma report_loop_result:
  "report_loop rs n failed rows =
     (n + passed_count rs, failed @ map sanitizeFailureCase (failed_cases rs),
      rows @ map (\<lambda>r. \<lparr>rr_name = sanitizeMarkdownCell (cr_name r), rr_status = if cr_passed r then ''PASS'' else ''FAIL''\<rparr>) rs)"
  by (induction rs n failed rows rule: report_loop.induct) (auto simp: passed_count_def failed_cases_def Let_def)

lemma sanitized_one_line [simp]: "one_line (sanitizeMarkdownCell s)"
  by (induction s rule: sanitizeMarkdownCell.induct) auto

lemma rows_one_line [simp]:
  "one_line (status_row r)" "one_line (failure_row f)" "one_line (count_line rs)" "one_line (finalVerdict n)"
  by (simp_all add: status_row_def failure_row_def count_line_def finalVerdict_def)

definition section_lines :: "case_result \<Rightarrow> string list" where
  "section_lines r =
     [[], ''## '' @ sanitizeMarkdownCell (cr_name r), ''| Check | Expected | Observed |'', ''| --- | --- | --- |''] @
     map failure_row (cr_failures r)"

definition report_lines :: "case_result list \<Rightarrow> string list" where
  "report_lines rs =
     [''| Case | Status |'', ''| --- | --- |''] @ map status_row rs @ [[], count_line rs] @
     concat (map section_lines (failed_cases rs)) @ [[], finalVerdict (length (failed_cases rs))]"

lemma split_one_line: "one_line s \<Longrightarrow> split_char (CHR 10) s = [s]"
  by (induction s) (auto simp: one_line_def)

lemma split_line: "one_line s \<Longrightarrow> split_char (CHR 10) (s @ nl @ t) = s # split_char (CHR 10) t"
  by (induction s) (auto simp: one_line_def nl_def)

lemma split_join_lines: "list_all one_line (x # ls) \<Longrightarrow> split_char (CHR 10) (x @ concat (map (\<lambda>l. nl @ l) ls)) = x # ls"
proof (induction ls arbitrary: x)
  case Nil
  then show ?case by (simp add: split_one_line)
next
  case (Cons y ls)
  then show ?case using split_line [of x "y @ concat (map (\<lambda>l. nl @ l) ls)"] by simp
qed

lemma section_lines_one_line: "list_all one_line (section_lines r)"
  by (simp add: section_lines_def list_all_iff)

lemma report_lines_one_line: "list_all one_line (report_lines rs)"
  using section_lines_one_line by (auto simp: report_lines_def list_all_iff)

lemma template_case_lines: "template_case (sanitizeFailureCase r) = concat (map (\<lambda>l. nl @ l) (section_lines r))"
  by (simp add: template_case_def template_failure_def sanitizeFailureCase_def sanitize_failure_def section_lines_def
      failure_row_def comp_def)

lemma concat_sections:
  "concat (map (\<lambda>r. template_case (sanitizeFailureCase r)) rs) = concat (map (\<lambda>l. nl @ l) (concat (map section_lines rs)))"
  by (induction rs) (simp_all add: template_case_lines)

lemma GenerateReport_lines: "GenerateReport rs = hd (report_lines rs) @ concat (map (\<lambda>l. nl @ l) (tl (report_lines rs)))"
  by (simp add: GenerateReport_def report_loop_result reportTemplate_def report_lines_def concat_sections template_row_def
      status_row_def count_line_def comp_def)

lemma report_split: "split_char (CHR 10) (GenerateReport rs) = report_lines rs"
  using split_join_lines [of "hd (report_lines rs)" "tl (report_lines rs)"] report_lines_one_line [of rs]
  by (simp add: GenerateReport_lines report_lines_def)

lemma finalVerdict_PASS: "finalVerdict n = ''PASS'' \<longleftrightarrow> n = 0"
  by (simp add: finalVerdict_def)

lemma ExitCode_zero: "ExitCode rs = 0 \<longleftrightarrow> list_all cr_passed rs"
  by (induction rs) auto

lemma ExitCode_cases: "ExitCode rs \<in> {0, 1}"
  by (induction rs) auto

lemma passed_count_all: "passed_count rs = length rs \<longleftrightarrow> list_all cr_passed rs"
  by (simp add: passed_count_def list_all_iff filter_id_conv length_filter_less) (metis filter_id_conv filter_True length_filter_less order_less_irrefl)

lemma failed_none: "failed_cases rs = [] \<longleftrightarrow> list_all cr_passed rs"
  by (simp add: failed_cases_def filter_empty_conv list_all_iff)

section \<open>Properties\<close>

text \<open>
  C27. The report is exactly these lines, whatever the names of the cases, tools and observed texts
  are: a line for each case, the count, a section for each failed case with a line for each failed
  check, and the verdict; no text of a case can add a line.
\<close>

theorem report_has_these_lines:
  "split_char (CHR 10) (GenerateReport rs) =
     [''| Case | Status |'', ''| --- | --- |''] @ map status_row rs @ [[], count_line rs] @
     concat (map section_lines (failed_cases rs)) @ [[], finalVerdict (length (failed_cases rs))]"
  by (simp add: report_split report_lines_def)

text \<open>
  The verdicts agree: the exit code is 0 or 1, and 0 exactly when every case passed, which is when
  the last line of the report is \<open>PASS\<close> and when the summary says passed.
\<close>

theorem verdicts_agree:
  "ExitCode rs \<in> {0, 1} \<and> (ExitCode rs = 0 \<longleftrightarrow> list_all cr_passed rs) \<and>
   (ExitCode rs = 0 \<longleftrightarrow> last (split_char (CHR 10) (er_report (summarizeResults rs))) = ''PASS'') \<and>
   (ExitCode rs = 0 \<longleftrightarrow> er_passed (summarizeResults rs))"
proof -
  have "last (split_char (CHR 10) (GenerateReport rs)) = finalVerdict (length (failed_cases rs))"
    by (simp add: report_split report_lines_def)
  then show ?thesis
    using ExitCode_cases [of rs]
    by (simp add: ExitCode_zero summarizeResults_def passed_count_all finalVerdict_PASS failed_none)
qed

end
