(* ===== verification/Mcp_Types.thy ===== *)
theory Mcp_Types
  imports Json_Parse
begin

text \<open>
  \<open>core/mcp/types.go\<close>: the JSON-RPC messages, their JSON form, the error codes and the request
  context. A context carries the session id and the turn id; \<open>ctx_err\<close> is the error its
  \<open>Err()\<close> returns once it is cancelled.
\<close>

section \<open>Codes\<close>

definition CodeParseError :: int where "CodeParseError = -32700"
definition CodePolicyDenied :: int where "CodePolicyDenied = -32001"
definition CodeSessionBusy :: int where "CodeSessionBusy = -32002"
definition CodeInternalError :: int where "CodeInternalError = -32603"

lemmas code_defs = CodeParseError_def CodePolicyDenied_def CodeSessionBusy_def CodeInternalError_def

section \<open>Messages\<close>

record rpc_request =
  req_jsonrpc :: string
  req_id :: raw
  req_method :: string
  req_params :: raw

record rpc_error =
  err_code :: int
  err_message :: string
  err_data :: gval

record rpc_response =
  resp_jsonrpc :: string
  resp_id :: raw
  resp_result :: raw
  resp_error :: "rpc_error option"

definition empty_request :: rpc_request where
  "empty_request = \<lparr>req_jsonrpc = [], req_id = None, req_method = [], req_params = None\<rparr>"

definition empty_response :: rpc_response where
  "empty_response = \<lparr>resp_jsonrpc = [], resp_id = None, resp_result = None, resp_error = None\<rparr>"

definition empty_error :: rpc_error where
  "empty_error = \<lparr>err_code = 0, err_message = [], err_data = VNil\<rparr>"

definition NewErrorResponse :: "raw \<Rightarrow> int \<Rightarrow> string \<Rightarrow> rpc_response" where
  "NewErrorResponse i c m =
     \<lparr>resp_jsonrpc = ''2.0'', resp_id = i, resp_result = None,
      resp_error = Some \<lparr>err_code = c, err_message = m, err_data = VNil\<rparr>\<rparr>"

text \<open>The JSON forms. \<open>omitempty\<close> drops an empty (nil) raw message, a nil pointer and a nil
  interface value.\<close>

definition opt_field :: "string \<Rightarrow> raw \<Rightarrow> (string \<times> json) list" where
  "opt_field k r = (case r of None \<Rightarrow> [] | Some v \<Rightarrow> [(k, v)])"

definition encode_request :: "rpc_request \<Rightarrow> json" where
  "encode_request r =
     JObj ([(''jsonrpc'', JStr (req_jsonrpc r))] @ opt_field ''id'' (req_id r) @
           [(''method'', JStr (req_method r))] @ opt_field ''params'' (req_params r))"

definition encode_error :: "rpc_error \<Rightarrow> json" where
  "encode_error e =
     JObj ([(''code'', JNum (Lit (itoa (err_code e)))), (''message'', JStr (err_message e))] @
           (if err_data e = VNil then [] else [(''data'', json_of (err_data e))]))"

definition encode_response :: "rpc_response \<Rightarrow> json" where
  "encode_response r =
     JObj ([(''jsonrpc'', JStr (resp_jsonrpc r))] @ opt_field ''id'' (resp_id r) @
           opt_field ''result'' (resp_result r) @
           opt_field ''error'' (map_option encode_error (resp_error r)))"

definition request_field :: "string \<Rightarrow> json \<Rightarrow> rpc_request \<Rightarrow> rpc_request option" where
  "request_field k v r =
     (if key_is ''jsonrpc'' k then map_option (\<lambda>s. r\<lparr>req_jsonrpc := s\<rparr>) (decode_str v (req_jsonrpc r))
      else if key_is ''id'' k then Some (r\<lparr>req_id := Some v\<rparr>)
      else if key_is ''method'' k then map_option (\<lambda>s. r\<lparr>req_method := s\<rparr>) (decode_str v (req_method r))
      else if key_is ''params'' k then Some (r\<lparr>req_params := Some v\<rparr>)
      else Some r)"

definition error_field :: "string \<Rightarrow> json \<Rightarrow> rpc_error \<Rightarrow> rpc_error option" where
  "error_field k v e =
     (if key_is ''code'' k then map_option (\<lambda>i. e\<lparr>err_code := i\<rparr>) (decode_int v (err_code e))
      else if key_is ''message'' k then map_option (\<lambda>s. e\<lparr>err_message := s\<rparr>) (decode_str v (err_message e))
      else if key_is ''data'' k then (if any_ok v then Some (e\<lparr>err_data := any_of v\<rparr>) else None)
      else Some e)"

text \<open>The \<open>error\<close> member is a pointer: \<open>null\<close> sets it to nil, an object is decoded into the
  struct it points to (a new one if it is nil).\<close>

definition response_field :: "string \<Rightarrow> json \<Rightarrow> rpc_response \<Rightarrow> rpc_response option" where
  "response_field k v r =
     (if key_is ''jsonrpc'' k then map_option (\<lambda>s. r\<lparr>resp_jsonrpc := s\<rparr>) (decode_str v (resp_jsonrpc r))
      else if key_is ''id'' k then Some (r\<lparr>resp_id := Some v\<rparr>)
      else if key_is ''result'' k then Some (r\<lparr>resp_result := Some v\<rparr>)
      else if key_is ''error'' k then
        (if v = JNull then Some (r\<lparr>resp_error := None\<rparr>)
         else map_option (\<lambda>e. r\<lparr>resp_error := Some e\<rparr>)
                (decode_struct error_field v (the_default empty_error (resp_error r))))
      else Some r)"

definition decode_request :: "raw \<Rightarrow> rpc_request option" where
  "decode_request b = unmarshal_struct request_field b empty_request"

definition decode_response :: "raw \<Rightarrow> rpc_response option" where
  "decode_response b = unmarshal_struct response_field b empty_response"

section \<open>Request context\<close>

record ctx =
  ctx_session :: "string option"
  ctx_turn :: "string option"
  ctx_err :: "goerr option"

definition background :: ctx where
  "background = \<lparr>ctx_session = None, ctx_turn = None, ctx_err = None\<rparr>"

definition SessionIDFromContext :: "ctx \<Rightarrow> string" where
  "SessionIDFromContext c = the_default [] (ctx_session c)"

definition TurnIDFromContext :: "ctx \<Rightarrow> string" where
  "TurnIDFromContext c = the_default [] (ctx_turn c)"

definition WithSessionID :: "ctx \<Rightarrow> string \<Rightarrow> ctx" where
  "WithSessionID c i = c\<lparr>ctx_session := Some i\<rparr>"

definition WithTurnID :: "ctx \<Rightarrow> string \<Rightarrow> ctx" where
  "WithTurnID c i = c\<lparr>ctx_turn := Some i\<rparr>"

lemma context_ids [simp]:
  "SessionIDFromContext (WithSessionID c s) = s"
  "TurnIDFromContext (WithTurnID c t) = t"
  "SessionIDFromContext (WithTurnID c t) = SessionIDFromContext c"
  "TurnIDFromContext (WithSessionID c s) = TurnIDFromContext c"
  by (simp_all add: SessionIDFromContext_def TurnIDFromContext_def WithSessionID_def WithTurnID_def)

section \<open>Round trips\<close>

text \<open>Evaluation of key matching on the literal keys of the structs.\<close>

lemma opt_field_simps [simp]: "opt_field k None = []" "opt_field k (Some v) = [(k, v)]"
  by (simp_all add: opt_field_def)

lemmas key_eval = key_is_def to_upper_char_def

lemma request_field_keys:
  "request_field ''jsonrpc'' (JStr s) r = Some (r\<lparr>req_jsonrpc := s\<rparr>)"
  "request_field ''id'' v r = Some (r\<lparr>req_id := Some v\<rparr>)"
  "request_field ''method'' (JStr s) r = Some (r\<lparr>req_method := s\<rparr>)"
  "request_field ''params'' v r = Some (r\<lparr>req_params := Some v\<rparr>)"
  by (simp_all add: request_field_def key_eval decode_str_def)

lemma response_field_keys:
  "response_field ''jsonrpc'' (JStr s) x = Some (x\<lparr>resp_jsonrpc := s\<rparr>)"
  "response_field ''id'' v x = Some (x\<lparr>resp_id := Some v\<rparr>)"
  "response_field ''result'' v x = Some (x\<lparr>resp_result := Some v\<rparr>)"
  "response_field ''error'' (JObj kvs) x =
     map_option (\<lambda>e. x\<lparr>resp_error := Some e\<rparr>)
       (decode_fields error_field kvs (the_default empty_error (resp_error x)))"
  by (simp_all add: response_field_def key_eval decode_str_def decode_struct_def)

lemma error_field_keys:
  "error_field ''code'' (JNum (Lit s)) e = map_option (\<lambda>i. e\<lparr>err_code := i\<rparr>) (parse_int64 s)"
  "error_field ''message'' (JStr s) e = Some (e\<lparr>err_message := s\<rparr>)"
  by (simp_all add: error_field_def key_eval decode_int_def decode_str_def)

lemma decode_encode_request: "decode_request (Some (encode_request r)) = Some r"
  by (cases "req_id r"; cases "req_params r"; cases r)
     (simp_all add: decode_request_def unmarshal_struct_def decode_struct_def encode_request_def
        request_field_keys empty_request_def)

text \<open>A response is decodable after encoding when its error code fits \<open>int64\<close> and it has no
  error data; error data is dynamic and comes back in another, equivalent form.\<close>

definition plain_response :: "rpc_response \<Rightarrow> bool" where
  "plain_response r =
     (case resp_error r of
        None \<Rightarrow> True
      | Some e \<Rightarrow> err_data e = VNil \<and> int64_min \<le> err_code e \<and> err_code e \<le> int64_max)"

lemma decode_encode_error:
  assumes "err_data e = VNil" "int64_min \<le> err_code e" "err_code e \<le> int64_max"
  shows "decode_struct error_field (encode_error e) empty_error = Some e"
  using assms
  by (cases e) (simp add: decode_struct_def encode_error_def error_field_keys parse_int64_itoa
      empty_error_def del: parse_int64.simps)

lemma decode_encode_response:
  assumes "plain_response r"
  shows "decode_response (Some (encode_response r)) = Some r"
proof (cases "resp_error r")
  case None
  then show ?thesis
    by (cases "resp_id r"; cases "resp_result r"; cases r)
       (simp_all add: decode_response_def unmarshal_struct_def decode_struct_def
          encode_response_def response_field_keys empty_response_def)
next
  case (Some e)
  with assms have e: "err_data e = VNil" "int64_min \<le> err_code e" "err_code e \<le> int64_max"
    by (auto simp: plain_response_def)
  obtain kvs where k: "encode_error e = JObj kvs" by (simp add: encode_error_def)
  from decode_encode_error [OF e] have d: "decode_fields error_field kvs empty_error = Some e"
    by (simp add: k decode_struct_def)
  show ?thesis
    using Some d
    by (cases "resp_id r"; cases "resp_result r"; cases r)
       (simp_all add: decode_response_def unmarshal_struct_def decode_struct_def
          encode_response_def response_field_keys empty_response_def k)
qed

lemma plain_NewErrorResponse [simp]:
  "int64_min \<le> c \<Longrightarrow> c \<le> int64_max \<Longrightarrow> plain_response (NewErrorResponse i c m)"
  by (simp add: plain_response_def NewErrorResponse_def)

section \<open>Errors with a JSON-RPC code\<close>

text \<open>\<open>jsonRPCCode\<close> of \<open>cmd/gateway/server.go\<close>: the code of the first error in the chain that
  has one (\<open>errors.As\<close>), \<open>CodeInternalError\<close> when none has.\<close>

fun jsonRPCCode :: "goerr \<Rightarrow> int" where
  "jsonRPCCode (ECoded c m e) = c"
| "jsonRPCCode (EWrap p e) = jsonRPCCode e"
| "jsonRPCCode _ = CodeInternalError"

end
