(* ===== verification/Audit_Log.thy ===== *)
theory Audit_Log
  imports Mcp_Types "HOL-Library.Multiset"
begin

text \<open>
  \<open>cmd/gateway/audit.go\<close> and the table it writes to (\<open>db.go\<close>): a bounded queue of records, a
  writer that never blocks, and one worker that inserts the oldest record into the table. The
  outcome of each statement sent to Postgres is taken from a list of outcomes to come
  (\<open>aw_faults\<close>, \<open>None\<close> for success), on top of which the constraints of the table apply.
\<close>

section \<open>Records and the table's constraints\<close>

record audit_record =
  au_session :: string
  au_turn :: string
  au_tool :: string
  au_args :: raw
  au_decision :: string
  au_reason :: string

definition audit_decisions :: "string list" where
  "audit_decisions =
     [''allow'', ''deny'', ''approvalRequired'', ''budgetExceeded'', ''upstream_error'', ''expired'']"

text \<open>\<open>arguments JSONB NOT NULL\<close> and the \<open>CHECK\<close> on \<open>decision\<close>.\<close>

definition audit_row_ok :: "audit_record \<Rightarrow> bool" where
  "audit_row_ok r = (au_args r \<noteq> None \<and> au_decision r \<in> set audit_decisions)"

section \<open>The writer\<close>

record audit_writer =
  aw_ch :: "audit_record list"
  aw_table :: "audit_record list"
  aw_failed :: "audit_record list"
  aw_dropped :: "audit_record list"
  aw_started :: bool
  aw_stopped :: bool
  aw_faults :: "goerr option list"

definition audit_capacity :: nat where "audit_capacity = 256"

definition newAuditWriter :: "goerr option list \<Rightarrow> audit_writer" where
  "newAuditWriter faults =
     \<lparr>aw_ch = [], aw_table = [], aw_failed = [], aw_dropped = [], aw_started = False,
      aw_stopped = False, aw_faults = faults\<rparr>"

definition NewAuditWriter :: "unit option \<Rightarrow> goerr option list \<Rightarrow> audit_writer go" where
  "NewAuditWriter pool faults =
     (case pool of
        None \<Rightarrow> Panic ''audit writer requires a configured insert backend''
      | Some _ \<Rightarrow> Ret (newAuditWriter faults))"

definition aw_start :: "audit_writer \<Rightarrow> audit_writer" where
  "aw_start w = w\<lparr>aw_started := True\<rparr>"

definition aw_write :: "audit_record \<Rightarrow> audit_writer \<Rightarrow> audit_writer" where
  "aw_write r w =
     (if length (aw_ch w) < audit_capacity then w\<lparr>aw_ch := aw_ch w @ [r]\<rparr>
      else w\<lparr>aw_dropped := aw_dropped w @ [r]\<rparr>)"

text \<open>\<open>insert\<close>: one statement; the row is there afterwards exactly when it returns nil.\<close>

definition next_fault :: "goerr option list \<Rightarrow> goerr option \<times> goerr option list" where
  "next_fault fs = (case fs of [] \<Rightarrow> (None, []) | f # r \<Rightarrow> (f, r))"

definition aw_insert :: "audit_record \<Rightarrow> audit_writer \<Rightarrow> goerr option \<times> audit_writer" where
  "aw_insert r w =
     (let (f, rest) = next_fault (aw_faults w); w1 = w\<lparr>aw_faults := rest\<rparr>
      in case f of
           Some e \<Rightarrow> (Some e, w1)
         | None \<Rightarrow>
             if audit_row_ok r then (None, w1\<lparr>aw_table := aw_table w1 @ [r]\<rparr>)
             else (Some (EMsg ''constraint violation''), w1))"

text \<open>One turn of the worker's loop: it takes the oldest record, if there is one, or stops when its
  context is done.\<close>

definition aw_work :: "audit_writer \<Rightarrow> audit_writer" where
  "aw_work w =
     (if \<not> aw_started w \<or> aw_stopped w then w
      else (case aw_ch w of
              [] \<Rightarrow> w
            | r # q \<Rightarrow>
                (case aw_insert r (w\<lparr>aw_ch := q\<rparr>) of
                   (None, w1) \<Rightarrow> w1
                 | (Some _, w1) \<Rightarrow> w1\<lparr>aw_failed := aw_failed w1 @ [r]\<rparr>)))"

definition aw_cancel :: "audit_writer \<Rightarrow> audit_writer" where
  "aw_cancel w = w\<lparr>aw_stopped := True\<rparr>"

datatype audit_event = AuWrite audit_record | AuStart | AuWork | AuCancel

fun aw_step :: "audit_writer \<Rightarrow> audit_event \<Rightarrow> audit_writer" where
  "aw_step w (AuWrite r) = aw_write r w"
| "aw_step w AuStart = aw_start w"
| "aw_step w AuWork = aw_work w"
| "aw_step w AuCancel = aw_cancel w"

fun aw_run :: "audit_writer \<Rightarrow> audit_event list \<Rightarrow> audit_writer" where
  "aw_run w [] = w"
| "aw_run w (e # es) = aw_run (aw_step w e) es"

fun written :: "audit_event list \<Rightarrow> audit_record list" where
  "written [] = []"
| "written (AuWrite r # es) = r # written es"
| "written (_ # es) = written es"

section \<open>Invariant\<close>

text \<open>What is in the writer accounts for what has been written (\<open>ws\<close>): every record is in exactly
  one of the four places, the table and the queue keep the order of writing, the queue is bounded,
  and the table satisfies its constraints.\<close>

definition aw_inv :: "audit_record list \<Rightarrow> audit_writer \<Rightarrow> bool" where
  "aw_inv ws w \<longleftrightarrow>
     mset ws = mset (aw_table w) + mset (aw_failed w) + mset (aw_dropped w) + mset (aw_ch w) \<and>
     subseq (aw_table w @ aw_ch w) ws \<and>
     length (aw_ch w) \<le> audit_capacity \<and>
     (\<forall>r \<in> set (aw_table w). audit_row_ok r)"

lemma aw_inv_init: "aw_inv [] (newAuditWriter faults)"
  by (simp add: aw_inv_def newAuditWriter_def)

lemma aw_inv_write:
  assumes "aw_inv ws w"
  shows "aw_inv (ws @ [r]) (aw_write r w)"
proof (cases "length (aw_ch w) < audit_capacity")
  case True
  have "subseq ((aw_table w @ aw_ch w) @ [r]) (ws @ [r])"
    using assms by (subst subseq_append) (simp add: aw_inv_def)
  with assms True show ?thesis by (simp add: aw_inv_def aw_write_def)
next
  case False
  with assms show ?thesis by (auto simp: aw_inv_def aw_write_def intro: subseq_rev_drop_many)
qed

lemma subseq_remove_mid: "subseq (a @ x # b) ws \<Longrightarrow> subseq (a @ b) ws"
proof -
  assume s: "subseq (a @ x # b) ws"
  have "subseq b (x # b)" by (simp add: list_emb_Cons)
  then have "subseq (a @ b) (a @ x # b)" by (simp add: subseq_append')
  from subseq_order.trans [OF this s] show ?thesis .
qed

lemma aw_inv_work:
  assumes "aw_inv ws w"
  shows "aw_inv ws (aw_work w)"
proof (cases "\<not> aw_started w \<or> aw_stopped w \<or> aw_ch w = []")
  case True
  with assms show ?thesis by (auto simp: aw_work_def split: list.splits)
next
  case False
  then obtain r q where q: "aw_ch w = r # q" by (cases "aw_ch w") auto
  have s: "subseq (aw_table w @ q) ws"
    using assms q by (auto simp: aw_inv_def intro: subseq_remove_mid)
  obtain f rest where f: "next_fault (aw_faults w) = (f, rest)" by (cases "next_fault (aw_faults w)")
  show ?thesis
    using assms q s f False
    by (cases f) (auto simp: aw_inv_def aw_work_def aw_insert_def Let_def)
qed

lemma aw_inv_step:
  "aw_inv ws w \<Longrightarrow> aw_inv (ws @ written [e]) (aw_step w e)"
proof (cases e)
  case (AuWrite r)
  then show "aw_inv ws w \<Longrightarrow> ?thesis" by (simp add: aw_inv_write)
next
  case AuWork
  then show "aw_inv ws w \<Longrightarrow> ?thesis" by (simp add: aw_inv_work)
qed (simp_all add: aw_inv_def aw_start_def aw_cancel_def)

lemma written_Cons: "written (e # es) = written [e] @ written es"
  by (cases e) auto

lemma aw_inv_run: "aw_inv ws w \<Longrightarrow> aw_inv (ws @ written es) (aw_run w es)"
proof (induction es arbitrary: ws w)
  case Nil
  then show ?case by simp
next
  case (Cons e es)
  from Cons.IH [OF aw_inv_step [OF Cons.prems, of e]] show ?case
    by (simp add: written_Cons [of e es])
qed

text \<open>Nothing is dropped before the queue has been full.\<close>

lemma aw_dropped_step:
  assumes "length (written [e]) + length (aw_ch w) \<le> audit_capacity"
  shows "aw_dropped (aw_step w e) = aw_dropped w \<and>
    length (aw_ch (aw_step w e)) \<le> length (aw_ch w) + length (written [e])"
  using assms
  by (cases e)
     (auto simp: aw_write_def aw_start_def aw_cancel_def aw_work_def aw_insert_def Let_def
       split: list.splits option.splits prod.splits)

lemma aw_dropped_run:
  "length (written es) + length (aw_ch w) \<le> audit_capacity \<Longrightarrow> aw_dropped (aw_run w es) = aw_dropped w"
proof (induction es arbitrary: w)
  case Nil
  then show ?case by simp
next
  case (Cons e es)
  have l: "length (written (e # es)) = length (written [e]) + length (written es)"
    by (metis written_Cons length_append)
  with Cons.prems aw_dropped_step [of e w]
  have d: "aw_dropped (aw_step w e) = aw_dropped w"
    "length (written es) + length (aw_ch (aw_step w e)) \<le> audit_capacity" by auto
  from Cons.IH [OF d(2)] d(1) show ?case by simp
qed

section \<open>Properties\<close>

text \<open>
  C19. For any interleaving of writes, worker turns, start and cancellation: every record written is
  in exactly one of the table, the queue, the failed inserts and the dropped records; table and
  queue are in the order of writing; the queue never holds more than 256 records; every row
  satisfies the table's constraints.
\<close>

theorem audit_writer_accounts:
  "let w = aw_run (newAuditWriter faults) es in
     mset (written es) = mset (aw_table w) + mset (aw_failed w) + mset (aw_dropped w) + mset (aw_ch w) \<and>
     subseq (aw_table w @ aw_ch w) (written es) \<and> length (aw_ch w) \<le> 256 \<and>
     list_all audit_row_ok (aw_table w)"
  using aw_inv_run [OF aw_inv_init [of faults], of es]
  by (simp add: aw_inv_def Let_def audit_capacity_def list_all_iff)

text \<open>
  A burst of at most 256 records from the start of the writer loses none of them to a full
  queue, whatever the worker does meanwhile.
\<close>

theorem audit_burst_not_dropped:
  assumes "length (written es) \<le> 256"
  shows "aw_dropped (aw_run (newAuditWriter faults) es) = []"
  using aw_dropped_run [of es "newAuditWriter faults"] assms
  by (simp add: newAuditWriter_def audit_capacity_def)

definition demo_audit :: audit_record where
  "demo_audit = \<lparr>au_session = ''s'', au_turn = ''t'', au_tool = ''x'', au_args = Some JNull,
     au_decision = ''allow'', au_reason = []\<rparr>"

theorem audit_burst_not_dropped_witness:
  "aw_dropped (aw_run (newAuditWriter [])
     [AuStart, AuWrite demo_audit, AuWork, AuWrite demo_audit]) = []"
  by (rule audit_burst_not_dropped) simp

end
