(* ===== verification/Eval_Runner.thy ===== *)
theory Eval_Runner
  imports Eval_Case Audit_Log
begin

text \<open>
  \<open>runner.go\<close> of \<open>cmd/eval-runner\<close>: a case is run by triggering the agent and then polling the audit
  log until the last decision is the expected one. The database, the clock, the waits and the agent are
  the fields of \<open>eval_env\<close> on a state \<open>'w\<close>. The poll loop, which the retry storm of \<open>scenarios.go\<close>
  has too, is \<open>poll_audit\<close>; its fuel bounds the number of queries.
\<close>

record agent_reply =
  ar_status :: int
  ar_session :: string
  ar_body :: string
  ar_read_err :: "goerr option"

record agent_request =
  aq_url :: string
  aq_headers :: "(string \<times> string) list"
  aq_body :: json

text \<open>The rows of a query: what each \<open>Scan\<close> gives, and the error after the last row.\<close>

type_synonym audit_rows = "(trace_row go list \<times> goerr option) go"

record 'w eval_env =
  ev_rows :: "ctx \<Rightarrow> string \<Rightarrow> 'w \<Rightarrow> audit_rows \<times> 'w"
  ev_now :: "'w \<Rightarrow> int"
  ev_wait :: "ctx \<Rightarrow> int \<Rightarrow> 'w \<Rightarrow> goerr option \<times> 'w"
  ev_build :: "string \<Rightarrow> goerr option"
  ev_do :: "agent_request \<Rightarrow> 'w \<Rightarrow> agent_reply go \<times> 'w"

section \<open>The agent\<close>

definition NewCaseRunner :: "string \<Rightarrow> string" where
  "NewCaseRunner agentBaseURL = trim_right_char (CHR ''/'') agentBaseURL"

definition firstBytes :: "agent_reply \<Rightarrow> nat \<Rightarrow> string" where
  "firstBytes rep limit =
     (case ar_read_err rep of
        Some e \<Rightarrow> if length (ar_body rep) < limit then ''read response body: '' @ err_text e else take limit (ar_body rep)
      | None \<Rightarrow> take limit (ar_body rep))"

definition session_id_field :: "string \<Rightarrow> json \<Rightarrow> string \<Rightarrow> string option" where
  "session_id_field k v s = (if key_is ''session_id'' k then decode_str v s else Some s)"

definition trigger :: "'w eval_env \<Rightarrow> string \<Rightarrow> string \<Rightarrow> 'w \<Rightarrow> string go \<times> 'w" where
  "trigger E base input w =
     (let url = base @ ''/trigger'' in
      case ev_build E url of
        Some e \<Rightarrow> (Fail (EWrap ''build trigger request'' e), w)
      | None \<Rightarrow>
          (case ev_do E \<lparr>aq_url = url, aq_headers = [(''Content-Type'', ''application/json'')],
                         aq_body = JObj [(''input'', JStr input)]\<rparr> w of
             (Panic m, w1) \<Rightarrow> (Panic m, w1)
           | (Fail e, w1) \<Rightarrow> (Fail e, w1)
           | (Ret rep, w1) \<Rightarrow>
               (if ar_status rep \<noteq> 200
                then Fail (EMsg (''trigger returned HTTP '' @ itoa (ar_status rep) @ '': '' @ firstBytes rep 256))
                else (case unmarshal_struct session_id_field (decode_first (ar_body rep)) [] of
                        None \<Rightarrow> Fail (EWrap ''decode trigger response'' EJson)
                      | Some s \<Rightarrow> Ret s), w1)))"

section \<open>The audit log\<close>

fun scan_rows :: "trace_row go list \<Rightarrow> goerr option \<Rightarrow> trace go" where
  "scan_rows [] err = (case err of Some e \<Rightarrow> Fail e | None \<Rightarrow> Ret [])"
| "scan_rows (r # rs) err = go_bind r (\<lambda>row. go_bind (scan_rows rs err) (\<lambda>rows. Ret (row # rows)))"

definition queryTrace :: "'w eval_env \<Rightarrow> ctx \<Rightarrow> string \<Rightarrow> 'w \<Rightarrow> trace go \<times> 'w" where
  "queryTrace E c sid w =
     (case ev_rows E c sid w of
        (rows, w1) \<Rightarrow> (go_bind rows (\<lambda>(rs, err). scan_rows rs err), w1))"

definition auditPollInterval :: int where "auditPollInterval = 300 * 1000000"
definition auditPollTimeout :: int where "auditPollTimeout = 90 * 1000000000"

text \<open>How a poll ends; an error comes with the last trace seen before it.\<close>

datatype poll_end =
  PollMatched trace | PollLate trace | PollFailed goerr trace | PollPanic string | PollStopped goerr trace

fun poll_audit :: "nat \<Rightarrow> 'w eval_env \<Rightarrow> ctx \<Rightarrow> string \<Rightarrow> (trace \<Rightarrow> bool) \<Rightarrow> int \<Rightarrow> int \<Rightarrow> trace \<Rightarrow> 'w \<Rightarrow>
    (poll_end \<times> 'w) option" where
  "poll_audit 0 E c sid found interval deadline seen w = None"
| "poll_audit (Suc n) E c sid found interval deadline seen w =
     (case queryTrace E c sid w of
        (Panic m, w1) \<Rightarrow> Some (PollPanic m, w1)
      | (Fail e, w1) \<Rightarrow> Some (PollFailed e seen, w1)
      | (Ret tr, w1) \<Rightarrow>
          if found tr then Some (PollMatched tr, w1)
          else if ev_now E w1 > deadline then Some (PollLate tr, w1)
          else (case ev_wait E c interval w1 of
                  (Some e, w2) \<Rightarrow> Some (PollStopped e tr, w2)
                | (None, w2) \<Rightarrow> poll_audit n E c sid found interval deadline tr w2))"

text \<open>The queries that fit: one at the start, one after each interval, one after the deadline.\<close>

definition audit_fuel :: "int \<Rightarrow> int \<Rightarrow> nat" where
  "audit_fuel timeout interval = nat (timeout div interval) + 2"

definition last_is :: "string \<Rightarrow> trace \<Rightarrow> bool" where
  "last_is d tr = (tr \<noteq> [] \<and> trow_decision (last tr) = d)"

fun trace_of_poll :: "poll_end \<Rightarrow> trace go" where
  "trace_of_poll (PollMatched tr) = Ret tr"
| "trace_of_poll (PollLate tr) = Ret tr"
| "trace_of_poll (PollFailed e tr) = Fail e"
| "trace_of_poll (PollStopped e tr) = Fail e"
| "trace_of_poll (PollPanic m) = Panic m"

definition runner_Run :: "'w eval_env \<Rightarrow> string \<Rightarrow> ctx \<Rightarrow> eval_case \<Rightarrow> 'w \<Rightarrow> (trace go \<times> 'w) option" where
  "runner_Run E base c ec w =
     (case trigger E base (ec_input ec) w of
        (Panic m, w1) \<Rightarrow> Some (Panic m, w1)
      | (Fail e, w1) \<Rightarrow> Some (Fail e, w1)
      | (Ret sid, w1) \<Rightarrow>
          map_option (\<lambda>(p, w2). (trace_of_poll p, w2))
            (poll_audit (audit_fuel auditPollTimeout auditPollInterval) E c sid (last_is (ec_outcome ec))
               auditPollInterval (ev_now E w1 + auditPollTimeout) [] w1))"

section \<open>The clock of the loop\<close>

locale audit_clock =
  fixes E :: "'w eval_env"
  assumes rows_now: "ev_rows E c sid w = (out, w') \<Longrightarrow> ev_now E w \<le> ev_now E w'"
    and wait_now: "ev_wait E c d w = (None, w') \<Longrightarrow> ev_now E w + d \<le> ev_now E w'"
begin

lemma query_now: "queryTrace E c sid w = (out, w') \<Longrightarrow> ev_now E w \<le> ev_now E w'"
  using rows_now by (fastforce simp: queryTrace_def split: prod.splits)

lemma poll_audit_returns:
  assumes "0 < interval" "deadline - ev_now E w < int n * interval"
  shows "\<exists>y. poll_audit (Suc n) E c sid found interval deadline seen w = Some y"
  using assms(2)
proof (induction n arbitrary: w seen)
  case (0 w seen)
  obtain out w1 where q: "queryTrace E c sid w = (out, w1)" by (cases "queryTrace E c sid w")
  with query_now [OF q] 0 show ?case by (cases out) auto
next
  case (Suc n w seen)
  obtain out w1 where q: "queryTrace E c sid w = (out, w1)" by (cases "queryTrace E c sid w")
  obtain e w2 where t: "ev_wait E c interval w1 = (e, w2)" by (cases "ev_wait E c interval w1")
  have "\<exists>y. poll_audit (Suc n) E c sid found interval deadline tr w2 = Some y" if "e = None" for tr
  proof (rule Suc.IH)
    from query_now [OF q] wait_now [OF t [unfolded that]] Suc.prems
    show "deadline - ev_now E w2 < int n * interval" by (simp add: algebra_simps)
  qed
  with q t show ?case by (cases out; cases e) (auto simp del: poll_audit.simps(2) simp: poll_audit.simps(2) [of "Suc n"])
qed

lemma runner_Run_returns: "\<exists>y. runner_Run E base c ec w = Some y"
proof -
  obtain out w1 where t: "trigger E base (ec_input ec) w = (out, w1)" by (cases "trigger E base (ec_input ec) w")
  have "\<exists>y. poll_audit (Suc 301) E c sid found auditPollInterval (ev_now E w1 + auditPollTimeout) [] w1 = Some y" for sid found
    by (rule poll_audit_returns) (simp_all add: auditPollInterval_def auditPollTimeout_def)
  moreover have "audit_fuel auditPollTimeout auditPollInterval = Suc 301"
    by (simp add: audit_fuel_def auditPollTimeout_def auditPollInterval_def)
  ultimately have "\<exists>y. poll_audit (audit_fuel auditPollTimeout auditPollInterval) E c sid found auditPollInterval
      (ev_now E w1 + auditPollTimeout) [] w1 = Some y" for sid found by (simp only:)
  then have p: "\<exists>p w2. poll_audit (audit_fuel auditPollTimeout auditPollInterval) E c sid found auditPollInterval
      (ev_now E w1 + auditPollTimeout) [] w1 = Some (p, w2)" for sid found by (metis surj_pair)
  show ?thesis
  proof (cases out)
    case (Ret sid)
    with p [of sid "last_is (ec_outcome ec)"] t show ?thesis by (auto simp: runner_Run_def)
  qed (use t in \<open>simp_all add: runner_Run_def\<close>)
qed

end

text \<open>What the end of a poll says.\<close>

definition poll_verdict :: "'w eval_env \<Rightarrow> (trace \<Rightarrow> bool) \<Rightarrow> int \<Rightarrow> poll_end \<Rightarrow> 'w \<Rightarrow> bool" where
  "poll_verdict E found deadline p w' =
     (case p of
        PollMatched tr \<Rightarrow> found tr
      | PollLate tr \<Rightarrow> \<not> found tr \<and> deadline < ev_now E w'
      | _ \<Rightarrow> True)"

lemma poll_audit_end:
  "poll_audit n E c sid found interval deadline seen w = Some (p, w') \<Longrightarrow> poll_verdict E found deadline p w'"
proof (induction n arbitrary: w seen)
  case (Suc n)
  obtain out w1 where q: "queryTrace E c sid w = (out, w1)" by (cases "queryTrace E c sid w")
  obtain e w2 where t: "ev_wait E c interval w1 = (e, w2)" by (cases "ev_wait E c interval w1")
  from Suc q t show ?case
    by (cases out; cases e) (auto simp: poll_verdict_def split: if_splits)
qed simp

section \<open>The audit log of the gateway as the database\<close>

text \<open>The rows a query for a session finds in the table the audit writer fills, while the writer's worker
  inserts one record per wait.\<close>

definition row_of :: "audit_record \<Rightarrow> trace_row" where
  "row_of r = \<lparr>trow_tool = au_tool r, trow_decision = au_decision r, trow_args = au_args r\<rparr>"

definition session_trace :: "string \<Rightarrow> audit_record list \<Rightarrow> trace" where
  "session_trace sid rs = map row_of (filter (\<lambda>r. au_session r = sid) rs)"

definition audit_env :: "(agent_request \<Rightarrow> agent_reply go) \<Rightarrow> (audit_writer \<times> int) eval_env" where
  "audit_env agent =
     \<lparr>ev_rows = (\<lambda>c sid w. (Ret (map Ret (session_trace sid (aw_table (fst w))), None), w)),
      ev_now = snd,
      ev_wait = (\<lambda>c d w. case ctx_err c of Some e \<Rightarrow> (Some e, w) | None \<Rightarrow> (None, (aw_work (fst w), snd w + d))),
      ev_build = (\<lambda>_. None),
      ev_do = (\<lambda>q w. (agent q, w))\<rparr>"

interpretation audit_env: audit_clock "audit_env agent"
  by unfold_locales (auto simp: audit_env_def split: option.splits)

lemma scan_rows_Ret [simp]: "scan_rows (map Ret rs) None = Ret rs"
  by (induction rs) auto

lemma audit_env_query [simp]:
  "queryTrace (audit_env agent) c sid w = (Ret (session_trace sid (aw_table (fst w))), w)"
  by (simp add: queryTrace_def audit_env_def)

lemma audit_env_wait [simp]:
  "ctx_err c = None \<Longrightarrow> ev_wait (audit_env agent) c d w = (None, (aw_work (fst w), snd w + d))"
  "ev_now (audit_env agent) w = snd w"
  by (simp_all add: audit_env_def)

text \<open>A healthy writer: started, not stopped, statements succeed, and what is queued can be inserted.\<close>

definition healthy :: "audit_writer \<Rightarrow> bool" where
  "healthy a = (aw_started a \<and> \<not> aw_stopped a \<and> aw_faults a = [] \<and> list_all audit_row_ok (aw_ch a))"

lemma healthy_work:
  assumes "healthy a"
  shows "healthy (aw_work a)" "aw_table (aw_work a) @ aw_ch (aw_work a) = aw_table a @ aw_ch a"
    "length (aw_ch (aw_work a)) = length (aw_ch a) - 1"
  using assms
  by (cases "aw_ch a"; simp add: healthy_def aw_work_def aw_insert_def next_fault_def)+

lemma healthy_poll:
  assumes "healthy a" "ctx_err c = None" "found (session_trace sid (aw_table a @ aw_ch a))"
    "length (aw_ch a) < n" "t + int (length (aw_ch a)) * interval \<le> deadline" "0 < interval"
  shows "\<exists>tr w'. poll_audit n (audit_env agent) c sid found interval deadline seen (a, t) = Some (PollMatched tr, w') \<and>
    prefix tr (session_trace sid (aw_table a @ aw_ch a))"
  using assms
proof (induction n arbitrary: a t seen)
  case (Suc n)
  let ?tr = "session_trace sid (aw_table a)"
  show ?case
  proof (cases "found ?tr")
    case True
    then show ?thesis by (simp add: session_trace_def)
  next
    case False
    with Suc.prems(3) have q: "aw_ch a \<noteq> []" by auto
    then have l: "0 < length (aw_ch a)" by simp
    have "0 \<le> int (length (aw_ch a)) * interval" using Suc.prems(6) by simp
    with Suc.prems(5) have "\<not> t > deadline" by linarith
    moreover note w = healthy_work [OF Suc.prems(1)]
    have "\<exists>tr w'. poll_audit n (audit_env agent) c sid found interval deadline (session_trace sid (aw_table a)) (aw_work a, t + interval) =
        Some (PollMatched tr, w') \<and> prefix tr (session_trace sid (aw_table (aw_work a) @ aw_ch (aw_work a)))"
    proof (rule Suc.IH)
      show "t + interval + int (length (aw_ch (aw_work a))) * interval \<le> deadline"
        using Suc.prems(5) q by (cases "aw_ch a") (simp_all add: w(3) algebra_simps)
      show "length (aw_ch (aw_work a)) < n" using Suc.prems(4) l w(3) by linarith
    qed (use Suc.prems w l in simp_all)
    ultimately show ?thesis using False Suc.prems(2) w(2) by simp
  qed
qed simp

section \<open>Properties\<close>

text \<open>
  A run of a case ends, and without an error it ends with the expected decision as the last one of
  the trace, or after the deadline; the fuel given to the poll loop is enough on any clock.
\<close>

theorem case_run_ends:
  assumes "audit_clock E"
  shows "\<exists>out w'. runner_Run E base c ec w = Some (out, w') \<and>
    (\<exists>sid w1. is_ret out \<longrightarrow> trigger E base (ec_input ec) w = (Ret sid, w1) \<and>
       (\<exists>tr. out = Ret tr \<and> (last_is (ec_outcome ec) tr \<or> ev_now E w1 + auditPollTimeout < ev_now E w')))"
proof -
  obtain out w' where r: "runner_Run E base c ec w = Some (out, w')"
    using audit_clock.runner_Run_returns [OF assms, of base c ec w] by auto
  obtain t w1 where t: "trigger E base (ec_input ec) w = (t, w1)" by (cases "trigger E base (ec_input ec) w")
  have "\<exists>sid tr. t = Ret sid \<and> out = Ret tr \<and> (last_is (ec_outcome ec) tr \<or> ev_now E w1 + auditPollTimeout < ev_now E w')"
    if "is_ret out"
  proof (cases t)
    case (Ret sid)
    with r t obtain p where p: "poll_audit (audit_fuel auditPollTimeout auditPollInterval) E c sid (last_is (ec_outcome ec))
        auditPollInterval (ev_now E w1 + auditPollTimeout) [] w1 = Some (p, w')" "out = trace_of_poll p"
      by (auto simp: runner_Run_def)
    from poll_audit_end [OF p(1)] that p(2) Ret show ?thesis by (cases p) (auto simp: poll_verdict_def)
  qed (use r t that in \<open>auto simp: runner_Run_def\<close>)
  with r t show ?thesis by blast
qed

text \<open>
  C11. The verdict is reached: when the gateway's audit writer is healthy and what it has inserted and
  queued ends, for the session, with the expected decision, a run of the case returns a trace that
  is a prefix of it and ends with that decision; the queue's 256 places are drained before the
  deadline even at one record per poll.
\<close>

theorem healthy_log_reaches_verdict:
  assumes "healthy a" and "length (aw_ch a) \<le> audit_capacity" and "ctx_err c = None"
    and "trigger (audit_env agent) base (ec_input ec) (a, t) = (Ret sid, (a, t))"
    and "last_is (ec_outcome ec) (session_trace sid (aw_table a @ aw_ch a))"
  shows "\<exists>tr w'. runner_Run (audit_env agent) base c ec (a, t) = Some (Ret tr, w') \<and>
    last_is (ec_outcome ec) tr \<and> prefix tr (session_trace sid (aw_table a @ aw_ch a))"
proof -
  let ?E = "audit_env agent"
  have "length (aw_ch a) < audit_fuel auditPollTimeout auditPollInterval"
    "t + int (length (aw_ch a)) * auditPollInterval \<le> t + auditPollTimeout"
    using assms(2) by (simp_all add: audit_fuel_def auditPollTimeout_def auditPollInterval_def audit_capacity_def)
  moreover have "0 < auditPollInterval" by (simp add: auditPollInterval_def)
  ultimately obtain tr w' where p: "poll_audit (audit_fuel auditPollTimeout auditPollInterval) ?E c sid (last_is (ec_outcome ec))
      auditPollInterval (t + auditPollTimeout) [] (a, t) = Some (PollMatched tr, w')"
      "prefix tr (session_trace sid (aw_table a @ aw_ch a))"
    using healthy_poll [where found = "last_is (ec_outcome ec)", OF assms(1,3,5)] by blast
  from poll_audit_end [OF p(1)] have "last_is (ec_outcome ec) tr" by (simp add: poll_verdict_def)
  with p assms(4) show ?thesis by (simp add: runner_Run_def)
qed

text \<open>
  The verdict can be early: a case that expects \<open>allow\<close> stops at the first trace that ends with
  \<open>allow\<close> and passes, although the record that the call failed upstream is still in the queue.
\<close>

theorem pending_failure_not_seen:
  assumes "ctx_err c = None" and "ec_outcome ec = ''allow''" and "ec_must_include ec = [tool]"
    and "ec_must_not_include ec = []" and "ec_forbidden_args ec = []"
    and "trigger (audit_env agent) base (ec_input ec) (a, t) = (Ret sid, (a, t))"
    and "aw_table a = [\<lparr>au_session = sid, au_turn = turn, au_tool = tool, au_args = args, au_decision = ''allow'', au_reason = []\<rparr>]"
    and "aw_ch a = [\<lparr>au_session = sid, au_turn = turn, au_tool = tool, au_args = args, au_decision = ''upstream_error'', au_reason = why\<rparr>]"
  shows "\<exists>tr w'. runner_Run (audit_env agent) base c ec (a, t) = Some (Ret tr, w') \<and>
    cr_passed (eval_Evaluate txt ec tr) \<and> \<not> last_is ''allow'' (session_trace sid (aw_table a @ aw_ch a))"
proof -
  let ?tr = "session_trace sid (aw_table a)"
  have tr: "?tr = [\<lparr>trow_tool = tool, trow_decision = ''allow'', trow_args = args\<rparr>]"
    using assms(7) by (simp add: session_trace_def row_of_def)
  then have "poll_audit (audit_fuel auditPollTimeout auditPollInterval) (audit_env agent) c sid (last_is ''allow'')
      auditPollInterval (t + auditPollTimeout) [] (a, t) = Some (PollMatched ?tr, (a, t))"
    by (simp add: audit_fuel_def last_is_def numeral_2_eq_2)
  moreover have "cr_passed (eval_Evaluate txt ec ?tr)"
    using assms(2-5) tr by (simp add: eval_Evaluate_def Let_def evaluateMustInclude_def evaluateMustNotInclude_def
        evaluatePolicyOutcome_def evaluateMustNotContainInArgs_def)
  moreover have "\<not> last_is ''allow'' (session_trace sid (aw_table a @ aw_ch a))"
    using assms(7,8) by (simp add: session_trace_def row_of_def last_is_def)
  ultimately show ?thesis using assms(2,6) by (auto simp: runner_Run_def)
qed

definition demo_agent :: "agent_request \<Rightarrow> agent_reply go" where
  "demo_agent q = Ret \<lparr>ar_status = 200, ar_session = [], ar_body = marshal (JObj [(''session_id'', JStr ''s1'')]), ar_read_err = None\<rparr>"

definition demo_row :: "string \<Rightarrow> audit_record" where
  "demo_row d = \<lparr>au_session = ''s1'', au_turn = ''t1'', au_tool = ''create_refund'', au_args = Some JNull, au_decision = d, au_reason = []\<rparr>"

definition demo_writer :: "audit_record list \<Rightarrow> audit_record list \<Rightarrow> audit_writer" where
  "demo_writer table q =
     \<lparr>aw_ch = q, aw_table = table, aw_failed = [], aw_dropped = [], aw_started = True, aw_stopped = False, aw_faults = []\<rparr>"

definition refund_case :: "string \<Rightarrow> eval_case" where
  "refund_case d = \<lparr>ec_name = ''refund'', ec_input = ''refund'', ec_must_include = [''create_refund''],
     ec_must_not_include = [], ec_outcome = d, ec_forbidden_args = []\<rparr>"

lemma demo_trigger: "trigger (audit_env demo_agent) base i w = (Ret ''s1'', w)"
  by (simp add: trigger_def audit_env_def demo_agent_def unmarshal_struct_def decode_struct_def
      session_id_field_def key_is_def decode_str_def decode_first_text maxNestingDepth_def del: json_text.simps)

theorem case_run_ends_witness:
  "\<exists>out w'. runner_Run (audit_env demo_agent) ''http://agent'' background (refund_case ''allow'') (demo_writer [] [], 0) =
     Some (out, w')"
  using case_run_ends [OF audit_env.audit_clock_axioms, of  demo_agent "''http://agent''" background
      "refund_case ''allow''" "(demo_writer [] [], 0)"] by blast

theorem healthy_log_reaches_verdict_witness:
  "\<exists>tr w'. runner_Run (audit_env demo_agent) ''http://agent'' background (refund_case ''upstream_error'')
     (demo_writer [demo_row ''allow''] [demo_row ''upstream_error''], 0) = Some (Ret tr, w') \<and> last_is ''upstream_error'' tr"
proof -
  let ?a = "demo_writer [demo_row ''allow''] [demo_row ''upstream_error'']"
  have a: "healthy ?a" "length (aw_ch ?a) \<le> audit_capacity" "ctx_err background = None"
    "last_is (ec_outcome (refund_case ''upstream_error'')) (session_trace ''s1'' (aw_table ?a @ aw_ch ?a))"
    by (simp_all add: healthy_def demo_writer_def demo_row_def audit_row_ok_def audit_decisions_def audit_capacity_def
        background_def refund_case_def session_trace_def row_of_def last_is_def)
  have o: "ec_outcome (refund_case ''upstream_error'') = ''upstream_error''" by (simp add: refund_case_def)
  from healthy_log_reaches_verdict [OF a(1-3) demo_trigger a(4)] show ?thesis unfolding o by blast
qed

theorem pending_failure_not_seen_witness:
  "\<exists>tr w'. runner_Run (audit_env demo_agent) ''http://agent'' background (refund_case ''allow'')
     (demo_writer [demo_row ''allow''] [demo_row ''upstream_error''], 0) = Some (Ret tr, w') \<and>
     cr_passed (eval_Evaluate (\<lambda>_. ''{}'') (refund_case ''allow'') tr)"
proof -
  let ?a = "demo_writer [demo_row ''allow''] [demo_row ''upstream_error'']"
  have e: "ctx_err background = None" "ec_outcome (refund_case ''allow'') = ''allow''"
    "ec_must_include (refund_case ''allow'') = [''create_refund'']" "ec_must_not_include (refund_case ''allow'') = []"
    "ec_forbidden_args (refund_case ''allow'') = []"
    "aw_table ?a = [\<lparr>au_session = ''s1'', au_turn = ''t1'', au_tool = ''create_refund'', au_args = Some JNull,
       au_decision = ''allow'', au_reason = []\<rparr>]"
    "aw_ch ?a = [\<lparr>au_session = ''s1'', au_turn = ''t1'', au_tool = ''create_refund'', au_args = Some JNull,
       au_decision = ''upstream_error'', au_reason = []\<rparr>]"
    by (simp_all add: background_def refund_case_def demo_writer_def demo_row_def)
  from pending_failure_not_seen [OF e(1-5) demo_trigger e(6,7)] show ?thesis by blast
qed

end
