(* ===== verification/Eval_Service.thy ===== *)
theory Eval_Service
  imports Eval_Report Eval_Runner
begin

text \<open>
  \<open>execution.go\<close>, \<open>stream.go\<close>, the handlers of \<open>serve.go\<close> and \<open>stack_health.go\<close> of \<open>cmd/eval-runner\<close>: the
  suites run over HTTP, as one reply or as a stream of server-sent events. A runner is a function on
  the state \<open>'w\<close>; \<open>txt\<close> is the text of a row's arguments and \<open>enc\<close> the text of a JSON value. What a
  handler does to the client is an \<open>eval_reply\<close>.
\<close>

type_synonym 'w case_executor = "eval_case \<Rightarrow> 'w \<Rightarrow> trace go \<times> 'w"

section \<open>Running a case\<close>

definition run_failed :: "string \<Rightarrow> string \<Rightarrow> case_result" where
  "run_failed name e =
     \<lparr>cr_name = name, cr_passed = False, cr_failures = [failure ''run'' ''case completes successfully'' e], cr_trace = []\<rparr>"

definition runEvalCase :: "(raw \<Rightarrow> string) \<Rightarrow> 'w case_executor \<Rightarrow> eval_case \<Rightarrow> 'w \<Rightarrow> case_result go \<times> 'w" where
  "runEvalCase txt run c w =
     (case run c w of
        (Panic m, w1) \<Rightarrow> (Panic m, w1)
      | (Fail e, w1) \<Rightarrow> (Ret (run_failed (ec_name c) (err_text e)), w1)
      | (Ret tr, w1) \<Rightarrow> (Ret (eval_Evaluate txt c tr), w1))"

section \<open>Encoding\<close>

text \<open>Members marked \<open>omitempty\<close> are left out when empty.\<close>

definition omit_empty :: "string \<Rightarrow> 'a list \<Rightarrow> ('a list \<Rightarrow> json) \<Rightarrow> (string \<times> json) list" where
  "omit_empty k xs f = (if xs = [] then [] else [(k, f xs)])"

definition encode_trace_row :: "trace_row \<Rightarrow> json" where
  "encode_trace_row r =
     JObj ([(''tool_name'', JStr (trow_tool r)), (''decision'', JStr (trow_decision r))] @
       (case trow_args r of None \<Rightarrow> [] | Some a \<Rightarrow> [(''arguments'', a)]))"

definition encode_failure :: "check_failure \<Rightarrow> json" where
  "encode_failure f =
     JObj [(''check'', JStr (cf_check f)), (''expected'', JStr (cf_expected f)), (''observed'', JStr (cf_observed f))]"

definition encode_result :: "case_result \<Rightarrow> json" where
  "encode_result r =
     JObj ([(''name'', JStr (cr_name r)), (''passed'', JBool (cr_passed r))] @
       omit_empty ''failures'' (cr_failures r) (\<lambda>fs. JArr (map encode_failure fs)) @
       omit_empty ''trace'' (cr_trace r) (\<lambda>tr. JArr (map encode_trace_row tr)))"

definition json_int :: "int \<Rightarrow> json" where "json_int i = JNum (Lit (itoa i))"

definition encode_summary :: "eval_response \<Rightarrow> json" where
  "encode_summary s =
     JObj [(''passed'', JBool (er_passed s)), (''pass_count'', json_int (int (er_pass_count s))),
       (''total_count'', json_int (int (er_total s))), (''cases'', JArr (map encode_result (er_cases s))),
       (''report'', JStr (er_report s))]"

definition caseStartEvent :: "string \<Rightarrow> nat \<Rightarrow> nat \<Rightarrow> json" where
  "caseStartEvent name i tot =
     JObj [(''name'', JStr name), (''index'', json_int (int i)), (''tot'', json_int (int tot))]"

definition caseResultEvent :: "nat \<Rightarrow> nat \<Rightarrow> case_result \<Rightarrow> json" where
  "caseResultEvent i tot r =
     JObj [(''index'', json_int (int i)), (''tot'', json_int (int tot)), (''result'', encode_result r)]"

section \<open>Server-sent events\<close>

text \<open>The response: what was written, the outcomes of the writes to come, and whether it can be flushed.
  An event that could not be written whole is not in \<open>sw_out\<close>.\<close>

record sse_writer =
  sw_out :: "(string \<times> json) list"
  sw_faults :: "goerr option list"
  sw_flusher :: bool

definition writeSSE :: "string \<Rightarrow> json \<Rightarrow> sse_writer \<Rightarrow> goerr option \<times> sse_writer" where
  "writeSSE event payload s =
     (let (f, rest) = next_fault (sw_faults s); s1 = s\<lparr>sw_faults := rest\<rparr>
      in case f of
           Some e \<Rightarrow> (Some e, s1)
         | None \<Rightarrow>
             (if sw_flusher s then None else Some (EMsg ''streaming unsupported''),
              s1\<lparr>sw_out := sw_out s @ [(event, payload)]\<rparr>))"

definition sse_text :: "(json \<Rightarrow> string) \<Rightarrow> string \<times> json \<Rightarrow> string" where
  "sse_text enc e = ''event: '' @ fst e @ nl @ ''data: '' @ enc (snd e) @ nl @ nl"

fun stream_cases :: "(raw \<Rightarrow> string) \<Rightarrow> 'w case_executor \<Rightarrow> nat \<Rightarrow> nat \<Rightarrow> eval_case list \<Rightarrow> case_result list \<Rightarrow>
    sse_writer \<Rightarrow> 'w \<Rightarrow> unit go \<times> sse_writer \<times> 'w" where
  "stream_cases txt run tot i [] results s w =
     (case writeSSE ''summary'' (encode_summary (summarizeResults results)) s of (_, s1) \<Rightarrow> (Ret (), s1, w))"
| "stream_cases txt run tot i (c # cs) results s w =
     (case writeSSE ''case_start'' (caseStartEvent (ec_name c) i tot) s of
        (Some e, s1) \<Rightarrow> (Ret (), s1, w)
      | (None, s1) \<Rightarrow>
          (case runEvalCase txt run c w of
             (Panic m, w1) \<Rightarrow> (Panic m, s1, w1)
           | (Fail e, w1) \<Rightarrow> (Fail e, s1, w1)
           | (Ret r, w1) \<Rightarrow>
               (case writeSSE ''case_result'' (caseResultEvent i tot r) s1 of
                  (Some e, s2) \<Rightarrow> (Ret (), s2, w1)
                | (None, s2) \<Rightarrow> stream_cases txt run tot (Suc i) cs (results @ [r]) s2 w1)))"

definition streamEvalSuite :: "(raw \<Rightarrow> string) \<Rightarrow> 'w case_executor \<Rightarrow> eval_case list \<Rightarrow> sse_writer \<Rightarrow> 'w \<Rightarrow>
    unit go \<times> sse_writer \<times> 'w" where
  "streamEvalSuite txt run cs = stream_cases txt run (length cs) 0 cs []"

section \<open>Handlers\<close>

text \<open>\<open>http.Error\<close> with its status, a reply with the results, or a stream; a panic ends the connection.\<close>

datatype eval_reply =
    HttpError int string
  | JsonResults eval_response
  | TextReport string
  | EventStream sse_writer
  | Aborted string

fun run_all :: "(raw \<Rightarrow> string) \<Rightarrow> 'w case_executor \<Rightarrow> eval_case list \<Rightarrow> 'w \<Rightarrow> case_result list go \<times> 'w" where
  "run_all txt run [] w = (Ret [], w)"
| "run_all txt run (c # cs) w =
     (case runEvalCase txt run c w of
        (Panic m, w1) \<Rightarrow> (Panic m, w1)
      | (Fail e, w1) \<Rightarrow> (Fail e, w1)
      | (Ret r, w1) \<Rightarrow> (case run_all txt run cs w1 of (rs, w2) \<Rightarrow> (go_bind rs (\<lambda>rs. Ret (r # rs)), w2)))"

definition makeEvalHandler :: "(raw \<Rightarrow> string) \<Rightarrow> 'w case_executor \<Rightarrow> eval_suite \<Rightarrow> string \<Rightarrow> 'w \<Rightarrow> eval_reply \<times> 'w" where
  "makeEvalHandler txt run suite accept w =
     (case run_all txt run suite w of
        (Panic m, w1) \<Rightarrow> (Aborted m, w1)
      | (Fail e, w1) \<Rightarrow> (Aborted (err_text e), w1)
      | (Ret rs, w1) \<Rightarrow>
          (if accept = ''application/json'' then JsonResults (summarizeResults rs)
           else TextReport (er_report (summarizeResults rs)), w1))"

record custom_body =
  cb_suite :: string
  cb_agent :: string

definition custom_field :: "string \<Rightarrow> json \<Rightarrow> custom_body \<Rightarrow> custom_body option" where
  "custom_field k v b =
     (if key_is ''suite'' k then map_option (\<lambda>s. b\<lparr>cb_suite := s\<rparr>) (decode_str v (cb_suite b))
      else if key_is ''agent_url'' k then map_option (\<lambda>s. b\<lparr>cb_agent := s\<rparr>) (decode_str v (cb_agent b))
      else Some b)"

definition decode_custom :: "raw \<Rightarrow> custom_body option" where
  "decode_custom r = unmarshal_struct custom_field r \<lparr>cb_suite = [], cb_agent = []\<rparr>"

definition eval_bad_request :: "string \<Rightarrow> eval_reply" where
  "eval_bad_request m = HttpError 400 m"

definition makeCustomEvalHandler ::
  "(raw \<Rightarrow> string) \<Rightarrow> (string \<Rightarrow> eval_suite go) \<Rightarrow> (string \<Rightarrow> 'w case_executor) \<Rightarrow> raw \<Rightarrow> string \<Rightarrow> 'w \<Rightarrow> eval_reply \<times> 'w" where
  "makeCustomEvalHandler txt yaml new_runner body accept w =
     (case decode_custom body of
        None \<Rightarrow> (eval_bad_request (''invalid request: '' @ err_text EJson), w)
      | Some b \<Rightarrow>
          if cb_agent b = [] then (eval_bad_request ''missing agent_url'', w)
          else if cb_suite b = [] then (eval_bad_request ''missing suite'', w)
          else (case LoadSuiteFromReader yaml (cb_suite b) of
                  Panic m \<Rightarrow> (Aborted m, w)
                | Fail e \<Rightarrow> (eval_bad_request (''invalid suite: '' @ err_text e), w)
                | Ret suite \<Rightarrow> makeEvalHandler txt (new_runner (cb_agent b)) suite accept w))"

definition stream_reply :: "unit go \<times> sse_writer \<times> 'w \<Rightarrow> eval_reply \<times> 'w" where
  "stream_reply x =
     (case x of
        (Panic m, s, w) \<Rightarrow> (Aborted m, w)
      | (Fail e, s, w) \<Rightarrow> (Aborted (err_text e), w)
      | (Ret _, s, w) \<Rightarrow> (EventStream s, w))"

definition makeCustomEvalStreamHandler ::
  "(raw \<Rightarrow> string) \<Rightarrow> (string \<Rightarrow> eval_suite go) \<Rightarrow> (string \<Rightarrow> 'w case_executor) \<Rightarrow> raw \<Rightarrow> sse_writer \<Rightarrow> 'w \<Rightarrow>
   eval_reply \<times> 'w" where
  "makeCustomEvalStreamHandler txt yaml new_runner body s w =
     (case decode_custom body of
        None \<Rightarrow> (eval_bad_request (''invalid request: '' @ err_text EJson), w)
      | Some b \<Rightarrow>
          if trim_space (cb_agent b) = [] then (eval_bad_request ''missing agent_url'', w)
          else if trim_space (cb_suite b) = [] then (eval_bad_request ''missing suite'', w)
          else (case LoadSuiteFromReader yaml (cb_suite b) of
                  Panic m \<Rightarrow> (Aborted m, w)
                | Fail e \<Rightarrow> (eval_bad_request (''invalid suite: '' @ err_text e), w)
                | Ret suite \<Rightarrow>
                    if \<not> sw_flusher s then (HttpError 500 ''streaming unsupported'', w)
                    else stream_reply (streamEvalSuite txt (new_runner (cb_agent b)) suite s w)))"

section \<open>Stack health\<close>

record stack_service =
  sh_name :: string
  sh_status :: string
  sh_detail :: string

definition service :: "string \<Rightarrow> string \<Rightarrow> string \<Rightarrow> stack_service" where
  "service n st d = \<lparr>sh_name = n, sh_status = st, sh_detail = d\<rparr>"

text \<open>A \<open>GET\<close>: the error of building the request, or the error or the status of the exchange.\<close>

definition probeHTTPService :: "(string \<Rightarrow> goerr option) \<Rightarrow> (string \<Rightarrow> int go) \<Rightarrow> string \<Rightarrow> string \<Rightarrow> stack_service" where
  "probeHTTPService build get name target =
     (case build target of
        Some e \<Rightarrow> service name ''unknown'' (err_text e)
      | None \<Rightarrow>
          (case get target of
             Ret st \<Rightarrow> service name (if 200 \<le> st \<and> st < 300 then ''up'' else ''down'') target
           | _ \<Rightarrow> service name ''down'' target))"

definition probeTCPService :: "(string \<Rightarrow> goerr option) \<Rightarrow> string \<Rightarrow> string \<Rightarrow> stack_service" where
  "probeTCPService dial name target =
     (case dial target of Some e \<Rightarrow> service name ''down'' target | None \<Rightarrow> service name ''up'' target)"

definition probePostgresService :: "goerr option option \<Rightarrow> stack_service" where
  "probePostgresService ping =
     (case ping of
        None \<Rightarrow> service ''Postgres'' ''unknown'' ''pool unavailable''
      | Some (Some e) \<Rightarrow> service ''Postgres'' ''down'' ''configured DSN unreachable''
      | Some None \<Rightarrow> service ''Postgres'' ''up'' ''configured DSN reachable'')"

definition or_default :: "string \<Rightarrow> string \<Rightarrow> string" where
  "or_default s d = (if s = [] then d else s)"

definition makeStackHealthHandler ::
  "(string \<Rightarrow> goerr option) \<Rightarrow> (string \<Rightarrow> int go) \<Rightarrow> (string \<Rightarrow> goerr option) \<Rightarrow> goerr option option \<Rightarrow>
   string \<Rightarrow> string \<Rightarrow> string \<Rightarrow> stack_service list" where
  "makeStackHealthHandler build get dial ping gatewayURL mcpAddr larkURL =
     [probeHTTPService build get ''Gateway'' (or_default gatewayURL ''http://localhost:18080/mcp''),
      probeTCPService dial ''MCP'' (or_default mcpAddr ''127.0.0.1:18421''),
      probeHTTPService build get ''Lark'' (or_default larkURL ''http://localhost:18090/healthz''),
      probePostgresService ping]"

section \<open>What a stream delivers\<close>

text \<open>All the events of a suite whose cases gave these results.\<close>

fun stream_plan :: "nat \<Rightarrow> nat \<Rightarrow> (eval_case \<times> case_result) list \<Rightarrow> (string \<times> json) list" where
  "stream_plan tot i [] = []"
| "stream_plan tot i ((c, r) # crs) =
     (''case_start'', caseStartEvent (ec_name c) i tot) # (''case_result'', caseResultEvent i tot r) #
     stream_plan tot (Suc i) crs"

definition suite_events :: "eval_case list \<Rightarrow> case_result list \<Rightarrow> (string \<times> json) list" where
  "suite_events cs rs =
     stream_plan (length cs) 0 (zip cs rs) @ [(''summary'', encode_summary (summarizeResults rs))]"

lemma writeSSE_cases:
  assumes "writeSSE e p s = (out, s')"
  obtains (failed) x where "out = Some x" "sw_out s' = sw_out s" "sw_faults s \<noteq> []"
  | (unflushed) x where "out = Some x" "sw_out s' = sw_out s @ [(e, p)]" "\<not> sw_flusher s"
  | (written) "out = None" "sw_out s' = sw_out s @ [(e, p)]" "sw_flusher s' = sw_flusher s"
      "sw_faults s' = tl (sw_faults s)"
  using assms by (cases "sw_faults s") (auto simp: writeSSE_def next_fault_def Let_def split: option.splits if_splits)

lemma run_all_cons:
  assumes "run_all txt run (c # cs) w = (Ret rs, w2)"
  obtains r rs' w1 where "runEvalCase txt run c w = (Ret r, w1)" "run_all txt run cs w1 = (Ret rs', w2)" "rs = r # rs'"
proof -
  obtain o1 w1 where 1: "runEvalCase txt run c w = (o1, w1)" by (cases "runEvalCase txt run c w")
  obtain o2 w3 where 2: "run_all txt run cs w1 = (o2, w3)" by (cases "run_all txt run cs w1")
  from assms 1 2 that show thesis by (cases o1; cases o2) auto
qed

lemma stream_cases_events:
  assumes "stream_cases txt run tot i cs acc s w = (Ret (), s', w')" "run_all txt run cs w = (Ret rs, w2)"
  shows "\<exists>es. sw_out s' = sw_out s @ es \<and>
    prefix es (stream_plan tot i (zip cs rs) @ [(''summary'', encode_summary (summarizeResults (acc @ rs)))]) \<and>
    (sw_faults s = [] \<and> sw_flusher s \<longrightarrow>
       es = stream_plan tot i (zip cs rs) @ [(''summary'', encode_summary (summarizeResults (acc @ rs)))])"
  using assms
proof (induction cs arbitrary: i acc s w rs)
  case Nil
  obtain o1 s1 where w: "writeSSE ''summary'' (encode_summary (summarizeResults acc)) s = (o1, s1)"
    by (metis prod.exhaust)
  with Nil have "s' = s1" "rs = []" by auto
  with w show ?case by (cases rule: writeSSE_cases [OF w]) auto
next
  case (Cons c cs)
  from Cons.prems(2) obtain r rs' w1 where r: "runEvalCase txt run c w = (Ret r, w1)"
    "run_all txt run cs w1 = (Ret rs', w2)" "rs = r # rs'" by (rule run_all_cons)
  obtain o1 s1 where a: "writeSSE ''case_start'' (caseStartEvent (ec_name c) i tot) s = (o1, s1)" by (metis prod.exhaust)
  obtain o2 s2 where b: "writeSSE ''case_result'' (caseResultEvent i tot r) s1 = (o2, s2)" by (metis prod.exhaust)
  from a show ?case
  proof (cases rule: writeSSE_cases)
    case (failed x)
    with Cons.prems(1) a r show ?thesis by auto
  next
    case (unflushed x)
    with Cons.prems(1) a r show ?thesis by auto
  next
    case written
    note w1 = written
    from b show ?thesis
    proof (cases rule: writeSSE_cases)
      case (failed x)
      with Cons.prems(1) a b r w1 show ?thesis by auto
    next
      case (unflushed x)
      with Cons.prems(1) a b r w1 show ?thesis by auto
    next
      case written
      from Cons.prems(1) a b r(1) w1 written have
        "stream_cases txt run tot (Suc i) cs (acc @ [r]) s2 w1 = (Ret (), s', w')" by simp
      from Cons.IH [OF this r(2)] w1 written r(3) show ?thesis by auto
    qed
  qed
qed

text \<open>A client of the stream: lines \<open>event:\<close> and \<open>data:\<close> are remembered, an empty line delivers them.\<close>

fun sse_client :: "string \<Rightarrow> string \<Rightarrow> string list \<Rightarrow> (string \<times> string) list" where
  "sse_client e d [] = []"
| "sse_client e d (l # ls) =
     (if l = [] then (if d = [] then sse_client [] [] ls else (e, d) # sse_client [] [] ls)
      else if has_prefix l ''event: '' then sse_client (drop 7 l) d ls
      else if has_prefix l ''data: '' then sse_client e (drop 6 l) ls
      else sse_client e d ls)"

lemma sse_client_event:
  assumes "one_line e" "one_line d" "d \<noteq> []"
  shows "sse_client [] [] (split_char (CHR 10) (''event: '' @ e @ nl @ ''data: '' @ d @ nl @ nl @ rest)) =
    (e, d) # sse_client [] [] (split_char (CHR 10) rest)"
proof -
  have "split_char (CHR 10) (''event: '' @ e @ nl @ ''data: '' @ d @ nl @ nl @ rest) =
      (''event: '' @ e) # (''data: '' @ d) # [] # split_char (CHR 10) rest"
    using split_line [of "''event: '' @ e" "''data: '' @ d @ nl @ nl @ rest"] split_line [of "''data: '' @ d" "nl @ rest"]
      split_line [of "[]" rest] assms by simp
  with assms(3) show ?thesis by simp
qed

lemma sse_client_text:
  "one_line e \<Longrightarrow> one_line (enc p) \<Longrightarrow> enc p \<noteq> [] \<Longrightarrow>
   sse_client [] [] (split_char (CHR 10) (sse_text enc (e, p) @ rest)) = (e, enc p) # sse_client [] [] (split_char (CHR 10) rest)"
  unfolding sse_text_def fst_conv snd_conv append_assoc by (rule sse_client_event)

lemma sse_client_events:
  assumes "list_all (\<lambda>(e, p). one_line e \<and> one_line (enc p) \<and> enc p \<noteq> []) es"
  shows "sse_client [] [] (split_char (CHR 10) (concat (map (sse_text enc) es))) = map (\<lambda>(e, p). (e, enc p)) es"
  using assms
proof (induction es)
  case (Cons x es)
  obtain e p where x: "x = (e, p)" by (cases x)
  with Cons sse_client_text [of e enc p "concat (map (sse_text enc) es)"] show ?case by simp
qed simp

text \<open>The payloads are one line when the arguments in the traces are.\<close>

definition args_ok :: "(f64 \<Rightarrow> string) \<Rightarrow> case_result \<Rightarrow> bool" where
  "args_ok ffmt r = list_all (\<lambda>t. case trow_args t of None \<Rightarrow> True | Some a \<Rightarrow> numbers_ok ffmt a) (cr_trace r)"

lemma numbers_ok_list_iff: "numbers_ok_list ffmt xs \<longleftrightarrow> list_all (numbers_ok ffmt) xs"
  by (induction xs) auto

lemma numbers_ok_members_append [simp]:
  "numbers_ok_members ffmt (xs @ ys) \<longleftrightarrow> numbers_ok_members ffmt xs \<and> numbers_ok_members ffmt ys"
  by (induction xs) auto

lemma numbers_ok_result: "args_ok ffmt r \<Longrightarrow> numbers_ok ffmt (encode_result r)"
  by (auto simp: args_ok_def encode_result_def omit_empty_def numbers_ok_list_iff encode_failure_def encode_trace_row_def
      list_all_iff split: option.splits)

lemma numbers_ok_events:
  assumes "list_all (args_ok ffmt) rs"
  shows "list_all (\<lambda>(e, p). one_line e \<and> one_line (json_text ffmt p) \<and> json_text ffmt p \<noteq> []) (suite_events cs rs)"
proof -
  have "list_all (\<lambda>(e, p). one_line e \<and> one_line (json_text ffmt p) \<and> json_text ffmt p \<noteq> []) (stream_plan t i (zip cs rs))" for t i
    using assms
  proof (induction cs arbitrary: rs i)
    case (Cons c cs)
    show ?case
    proof (cases rs)
      case (Cons r rs')
      with Cons.prems have "numbers_ok ffmt (encode_result r)" by (simp add: numbers_ok_result)
      then have "one_line (json_text ffmt (caseResultEvent i t r))" "one_line (json_text ffmt (caseStartEvent (ec_name c) i t))"
        by (intro json_text_one_line(1); simp add: caseResultEvent_def caseStartEvent_def json_int_def)+
      with Cons Cons.prems Cons.IH [of rs' "Suc i"] show ?thesis
        by (simp add: caseResultEvent_def caseStartEvent_def)
    qed simp
  qed simp
  moreover have "one_line (json_text ffmt (encode_summary (summarizeResults rs)))"
    using assms by (intro json_text_one_line(1))
      (simp add: encode_summary_def summarizeResults_def json_int_def numbers_ok_list_iff list_all_iff numbers_ok_result)
  ultimately show ?thesis by (simp add: suite_events_def encode_summary_def)
qed

section \<open>Properties\<close>


definition demo_writer_ok :: sse_writer where
  "demo_writer_ok = \<lparr>sw_out = [], sw_faults = [], sw_flusher = True\<rparr>"


end
