(* ===== verification/Tickets.thy ===== *)
theory Tickets
  imports Mcp_Types Audit_Log
begin

text \<open>
  \<open>cmd/gateway/ticket.go\<close> and the \<open>ticket\<close> table of \<open>db.go\<close>. The rows are kept with their
  key; the outcome of each statement sent to Postgres is taken from a list of outcomes to come, and
  the ids that \<open>gen_random_uuid()\<close> returns from another. The contract of the narrow interface
  \<open>ticketStatusUpdater\<close>, on which the approval bridge and the webhook rely, is the locale
  \<open>ticket_updater\<close>.
\<close>

record ticket_record =
  tr_session :: string
  tr_turn :: string
  tr_tool :: string
  tr_args :: raw
  tr_expires :: int

record ticket_row =
  row_rec :: ticket_record
  row_status :: string
  row_by :: "string option"

record ticket_store =
  ts_rows :: "(string \<times> ticket_row) list"
  ts_faults :: "goerr option list"
  ts_ids :: "string list"

definition ticket_statuses :: "string list" where
  "ticket_statuses = [''pending'', ''approved'', ''denied'', ''expired'', ''cancelled'']"

definition NewTicketStore :: "ticket_store option \<Rightarrow> ticket_store go" where
  "NewTicketStore pool =
     (case pool of
        None \<Rightarrow> Panic ''ticket store requires a configured postgres pool''
      | Some p \<Rightarrow> Ret p)"

text \<open>\<open>INSERT \<dots> RETURNING id\<close>: the row starts \<open>pending\<close>; \<open>arguments\<close> must not be null and
  the id must be new.\<close>

definition ts_insert :: "ticket_record \<Rightarrow> ticket_store \<Rightarrow> string go \<times> ticket_store" where
  "ts_insert r s =
     (let (f, rest) = next_fault (ts_faults s); s1 = s\<lparr>ts_faults := rest\<rparr>
      in case f of
           Some e \<Rightarrow> (Fail e, s1)
         | None \<Rightarrow>
             (case ts_ids s1 of
                [] \<Rightarrow> (Fail (EMsg ''no id''), s1)
              | i # is \<Rightarrow>
                  if tr_args r = None \<or> map_of (ts_rows s1) i \<noteq> None
                  then (Fail (EMsg ''constraint violation''), s1\<lparr>ts_ids := is\<rparr>)
                  else (Ret i, s1\<lparr>ts_ids := is,
                          ts_rows := map_put i \<lparr>row_rec = r, row_status = ''pending'', row_by = None\<rparr>
                                       (ts_rows s1)\<rparr>)))"

text \<open>\<open>UPDATE ticket SET status, decision_by WHERE id AND status = 'pending'\<close>: no error when no row
  matches; the \<open>CHECK\<close> on \<open>status\<close> applies to the row that would change.\<close>

definition ts_update_status ::
  "string \<Rightarrow> string \<Rightarrow> string \<Rightarrow> ticket_store \<Rightarrow> goerr option \<times> ticket_store" where
  "ts_update_status i st by s =
     (let (f, rest) = next_fault (ts_faults s); s1 = s\<lparr>ts_faults := rest\<rparr>
      in case f of
           Some e \<Rightarrow> (Some e, s1)
         | None \<Rightarrow>
             (case map_of (ts_rows s1) i of
                None \<Rightarrow> (None, s1)
              | Some row \<Rightarrow>
                  if row_status row \<noteq> ''pending'' then (None, s1)
                  else if st \<notin> set ticket_statuses then (Some (EMsg ''constraint violation''), s1)
                  else (None, s1\<lparr>ts_rows := map_put i (row\<lparr>row_status := st, row_by := Some by\<rparr>)
                                               (ts_rows s1)\<rparr>)))"

definition ticket_status :: "ticket_store \<Rightarrow> string \<Rightarrow> string option" where
  "ticket_status s i = map_option row_status (map_of (ts_rows s) i)"

section \<open>The contract of a status updater\<close>

locale ticket_updater =
  fixes upd :: "string \<Rightarrow> string \<Rightarrow> string \<Rightarrow> 'w \<Rightarrow> goerr option \<times> 'w"
    and status :: "'w \<Rightarrow> string \<Rightarrow> string option"
  assumes upd_ok: "upd i st by w = (None, w') \<Longrightarrow>
      status w' = (if status w i = Some ''pending'' then (status w)(i \<mapsto> st) else status w)"
    and upd_err: "upd i st by w = (Some e, w') \<Longrightarrow> status w' = status w"
begin

lemma decided_stays:
  assumes "status w j = Some x" "x \<noteq> ''pending''"
  shows "status (snd (upd i st by w)) j = Some x"
proof (cases "fst (upd i st by w)")
  case None
  then have "upd i st by w = (None, snd (upd i st by w))" by (metis prod.collapse)
  from upd_ok [OF this] assms show ?thesis by auto
next
  case (Some e)
  then have "upd i st by w = (Some e, snd (upd i st by w))" by (metis prod.collapse)
  from upd_err [OF this] assms show ?thesis by simp
qed

lemma others_untouched: "j \<noteq> i \<Longrightarrow> status (snd (upd i st by w)) j = status w j"
  using upd_ok [of i st "by" w "snd (upd i st by w)"] upd_err [of i st "by" w _ "snd (upd i st by w)"]
  by (cases "upd i st by w"; cases "fst (upd i st by w)") (auto split: if_splits)

lemma success_decides:
  assumes "upd i st by w = (None, w')" "st \<noteq> ''pending''" "status w i \<noteq> None"
  shows "\<exists>x. status w' i = Some x \<and> x \<noteq> ''pending''"
  using upd_ok [OF assms(1)] assms(2,3) by auto

end

lemma ts_update_status_ok:
  "ts_update_status i st by s = (None, s') \<Longrightarrow>
   ticket_status s' = (if ticket_status s i = Some ''pending'' then (ticket_status s)(i \<mapsto> st)
                       else ticket_status s)"
  by (cases "next_fault (ts_faults s)")
     (auto simp: ts_update_status_def ticket_status_def Let_def fun_eq_iff
       split: option.splits if_splits)

lemma ts_update_status_err:
  "ts_update_status i st by s = (Some e, s') \<Longrightarrow> ticket_status s' = ticket_status s"
  by (cases "next_fault (ts_faults s)")
     (auto simp: ts_update_status_def ticket_status_def Let_def fun_eq_iff
       split: option.splits if_splits)

interpretation tickets: ticket_updater ts_update_status ticket_status
  by unfold_locales (erule ts_update_status_ok, erule ts_update_status_err)

section \<open>Properties\<close>

text \<open>One call of the store: an insert or an update.\<close>

datatype ticket_op = TkInsert ticket_record | TkUpdate string string string

fun ticket_run :: "ticket_store \<Rightarrow> ticket_op list \<Rightarrow> ticket_store" where
  "ticket_run s [] = s"
| "ticket_run s (TkInsert r # ops) = ticket_run (snd (ts_insert r s)) ops"
| "ticket_run s (TkUpdate i st b # ops) = ticket_run (snd (ts_update_status i st b s)) ops"

lemma ts_insert_keeps:
  "ticket_status s j = Some x \<Longrightarrow> ticket_status (snd (ts_insert r s)) j = Some x"
  by (cases "next_fault (ts_faults s)"; cases "ts_ids s")
     (auto simp: ts_insert_def ticket_status_def Let_def split: option.splits)

text \<open>
  A decision is final: once a ticket has a status other than \<open>pending\<close>, no sequence of
  inserts and status updates changes it, whatever statements fail on the way.
\<close>

theorem ticket_decision_final:
  assumes "ticket_status s i = Some x" and "x \<noteq> ''pending''"
  shows "ticket_status (ticket_run s ops) i = Some x"
  using assms(1)
proof (induction s ops rule: ticket_run.induct)
  case (2 s r ops)
  then show ?case by (simp add: ts_insert_keeps)
next
  case (3 s j st b ops)
  from tickets.decided_stays [OF 3(2) assms(2)] 3(1) show ?case by simp
qed simp

definition demo_ticket :: ticket_record where
  "demo_ticket = \<lparr>tr_session = ''s'', tr_turn = ''t'', tr_tool = ''create_refund'',
     tr_args = Some (JObj []), tr_expires = 0\<rparr>"

definition demo_store :: ticket_store where
  "demo_store = \<lparr>ts_rows = [(''a1'', \<lparr>row_rec = demo_ticket, row_status = ''denied'', row_by = Some ''u''\<rparr>)],
     ts_faults = [], ts_ids = [''b2'']\<rparr>"

theorem ticket_decision_final_witness:
  "ticket_status (ticket_run demo_store
     [TkUpdate ''a1'' ''approved'' ''eve'', TkInsert demo_ticket, TkUpdate ''a1'' ''expired'' []]) ''a1'' =
   Some ''denied''"
  by (rule ticket_decision_final) (simp_all add: ticket_status_def demo_store_def)

end
