(* ===== verification/Pipeline.thy ===== *)
theory Pipeline
  imports Mcp_Types
begin

text \<open>
  \<open>core/mcp/handler.go\<close> and \<open>core/mcp/pipeline.go\<close>: a handler takes the request context, the
  request (which it may change in place, so the changed request is part of its result) and the
  state \<open>'w\<close> of everything else. \<open>Ret None\<close> is Go's \<open>(nil, nil)\<close>: continue with the next
  handler.
\<close>

type_synonym 'w handler_result = "rpc_response option go \<times> rpc_request \<times> 'w"
type_synonym 'w handler = "ctx \<Rightarrow> rpc_request \<Rightarrow> 'w \<Rightarrow> 'w handler_result"

record 'w pipeline =
  pl_handlers :: "'w handler list"
  pl_terminal :: "'w handler"

definition NewPipeline :: "'w handler option \<Rightarrow> 'w pipeline go" where
  "NewPipeline terminal =
     (case terminal of
        None \<Rightarrow> Panic ''mcp: nil terminal handler''
      | Some t \<Rightarrow> Ret \<lparr>pl_handlers = [], pl_terminal = t\<rparr>)"

definition pl_use :: "'w pipeline \<Rightarrow> 'w handler \<Rightarrow> 'w pipeline" where
  "pl_use p h = p\<lparr>pl_handlers := pl_handlers p @ [h]\<rparr>"

fun run_chain :: "'w handler list \<Rightarrow> 'w handler \<Rightarrow> 'w handler" where
  "run_chain [] terminal c r w = terminal c r w"
| "run_chain (h # hs) terminal c r w =
     (case h c r w of
        (Ret None, r', w') \<Rightarrow> run_chain hs terminal c r' w'
      | halted \<Rightarrow> halted)"

definition pl_run :: "'w pipeline \<Rightarrow> 'w handler" where
  "pl_run p = run_chain (pl_handlers p) (pl_terminal p)"

section \<open>Contracts\<close>

text \<open>
  The contract of a handler that only observes or enriches requests: it never answers, and it
  leaves the method and the id of the request alone.
\<close>

locale passive_handler =
  fixes h :: "'w handler"
  assumes never_answers: "h c r w = (out, r', w') \<Longrightarrow> out \<noteq> Ret (Some a)"
    and keeps_method: "h c r w = (out, r', w') \<Longrightarrow> req_method r' = req_method r"
    and keeps_id: "h c r w = (out, r', w') \<Longrightarrow> req_id r' = req_id r"
begin

lemma chain_answer:
  assumes "run_chain (h # hs) terminal c r w = (Ret (Some a), r', w')"
  obtains r1 w1 where "h c r w = (Ret None, r1, w1)" "req_method r1 = req_method r"
    "req_id r1 = req_id r" "run_chain hs terminal c r1 w1 = (Ret (Some a), r', w')"
proof -
  obtain out r1 w1 where h: "h c r w = (out, r1, w1)" by (cases "h c r w") auto
  from h have "out \<noteq> Ret (Some b)" for b by (rule never_answers)
  with assms h have "out = Ret None"
    by (cases out) (auto split: option.splits)
  with assms h that keeps_method [OF h] keeps_id [OF h] show thesis by simp
qed

end

section \<open>Halting\<close>

text \<open>The states a chain passes through: \<open>continues hs c r w r' w'\<close> says that every handler of
  \<open>hs\<close> in turn returned \<open>(nil, nil)\<close>, leading to the request \<open>r'\<close> and the state \<open>w'\<close>.\<close>

fun continues :: "'w handler list \<Rightarrow> ctx \<Rightarrow> rpc_request \<Rightarrow> 'w \<Rightarrow> rpc_request \<Rightarrow> 'w \<Rightarrow> bool" where
  "continues [] c r w r' w' = (r' = r \<and> w' = w)"
| "continues (h # hs) c r w r' w' =
     (\<exists>r1 w1. h c r w = (Ret None, r1, w1) \<and> continues hs c r1 w1 r' w')"

lemma run_chain_skip:
  "continues pre c r w r' w' \<Longrightarrow> run_chain (pre @ hs) t c r w = run_chain hs t c r' w'"
  by (induction pre arbitrary: r w) auto

lemma run_chain_halt:
  "h c r w = (out, r', w') \<Longrightarrow> out \<noteq> Ret None \<Longrightarrow> run_chain (h # hs) t c r w = (out, r', w')"
  by (auto split: go.splits option.splits)

lemma run_chain_cases:
  "(\<exists>r1 w1. continues hs c r w r1 w1 \<and> run_chain hs t c r w = t c r1 w1) \<or>
   (\<exists>pre h post r1 w1. hs = pre @ h # post \<and> continues pre c r w r1 w1 \<and>
      fst (h c r1 w1) \<noteq> Ret None \<and> run_chain hs t c r w = h c r1 w1)"
proof (induction hs arbitrary: r w)
  case Nil
  then show ?case by simp
next
  case (Cons h hs)
  obtain out r1 w1 where h: "h c r w = (out, r1, w1)" by (cases "h c r w") auto
  show ?case
  proof (cases "out = Ret None")
    case False
    then have "run_chain (h # hs) t c r w = h c r w"
      using h run_chain_halt [of h c r w out r1 w1] by simp
    with False h show ?thesis
      by (intro disjI2 exI [of _ "[]"] exI [of _ h] exI [of _ hs]) simp
  next
    case True
    then have e: "run_chain (h # hs) t c r w = run_chain hs t c r1 w1" using h by simp
    from Cons.IH [of r1 w1] show ?thesis
    proof
      assume "\<exists>r2 w2. continues hs c r1 w1 r2 w2 \<and> run_chain hs t c r1 w1 = t c r2 w2"
      then show ?thesis using e h True by (intro disjI1) auto
    next
      assume "\<exists>pre h post r2 w2. hs = pre @ h # post \<and> continues pre c r1 w1 r2 w2 \<and>
          fst (h c r2 w2) \<noteq> Ret None \<and> run_chain hs t c r1 w1 = h c r2 w2"
      then obtain pre g post r2 w2 where g: "hs = pre @ g # post" "continues pre c r1 w1 r2 w2"
        "fst (g c r2 w2) \<noteq> Ret None" "run_chain hs t c r1 w1 = g c r2 w2" by blast
      then show ?thesis using e h True
        by (intro disjI2 exI [of _ "h # pre"] exI [of _ g] exI [of _ post] exI [of _ r2]
            exI [of _ w2]) auto
    qed
  qed
qed

section \<open>Properties\<close>

text \<open>
  The pipeline runs its handlers in the order of their registration and returns what the first
  handler that does not return \<open>(nil, nil)\<close> returns, without running a later one; the terminal
  handler answers exactly when every handler continued, on the request and state they left.
\<close>

theorem pipeline_first_halt:
  "(\<exists>r1 w1. continues (pl_handlers p) c r w r1 w1 \<and> pl_run p c r w = pl_terminal p c r1 w1) \<or>
   (\<exists>pre h post r1 w1. pl_handlers p = pre @ h # post \<and> continues pre c r w r1 w1 \<and>
      fst (h c r1 w1) \<noteq> Ret None \<and> pl_run p c r w = h c r1 w1)"
  unfolding pl_run_def by (rule run_chain_cases)

lemma pipeline_order:
  "pl_handlers (pl_use (pl_use p h) g) = pl_handlers p @ [h, g]"
  by (simp add: pl_use_def)

end
