(* ===== verification/Tool_Call.thy ===== *)
theory Tool_Call
  imports Pipeline
begin

text \<open>
  What the gateway does with the parameters of a \<open>tools/call\<close> request: \<open>parseToolCallParams\<close> and
  \<open>redactArguments\<close> of \<open>policy_gate.go\<close>, the handler \<open>ContextInjector\<close> of \<open>injector.go\<close>,
  which adds the session and turn ids to the \<open>_meta\<close> object, and the handler
  \<open>RequestLogger\<close> of \<open>logger.go\<close> with the attributes it logs.
\<close>

named_theorems call_simps \<open>the tool call parameters\<close>

section \<open>Tool name and arguments\<close>

record tool_params =
  tp_name :: string
  tp_args :: raw

definition tool_field :: "string \<Rightarrow> json \<Rightarrow> tool_params \<Rightarrow> tool_params option" where
  "tool_field k v p =
     (if key_is ''name'' k then map_option (\<lambda>s. p\<lparr>tp_name := s\<rparr>) (decode_str v (tp_name p))
      else if key_is ''arguments'' k then Some (p\<lparr>tp_args := Some v\<rparr>)
      else Some p)"

definition parseToolCallParams :: "raw \<Rightarrow> (string \<times> raw) go" where
  "parseToolCallParams r =
     (case unmarshal_struct tool_field r \<lparr>tp_name = [], tp_args = None\<rparr> of
        None \<Rightarrow> Fail (EWrap ''decode params'' EJson)
      | Some p \<Rightarrow>
          if tp_name p = [] then Fail (EMsg ''decode params: missing name'')
          else Ret (tp_name p, (case tp_args p of None \<Rightarrow> Some JNull | Some a \<Rightarrow> Some a)))"

definition encode_tool_params :: "string \<Rightarrow> raw \<Rightarrow> json" where
  "encode_tool_params name args =
     JObj [(''name'', JStr name), (''arguments'', the_default JNull args)]"

lemma tool_field_keys:
  "tool_field ''name'' (JStr s) p = Some (p\<lparr>tp_name := s\<rparr>)"
  "tool_field ''arguments'' v p = Some (p\<lparr>tp_args := Some v\<rparr>)"
  "tool_field ''_meta'' v p = Some p"
  by (simp_all add: tool_field_def key_eval decode_str_def)

lemma parse_encode_tool_params [call_simps]:
  "name \<noteq> [] \<Longrightarrow> parseToolCallParams (Some (encode_tool_params name args)) =
     Ret (name, Some (the_default JNull args))"
  by (cases args) (simp_all add: parseToolCallParams_def unmarshal_struct_def decode_struct_def
      encode_tool_params_def tool_field_keys)

lemma parseToolCallParams_no_panic [simp]: "parseToolCallParams r \<noteq> Panic m"
  by (simp add: parseToolCallParams_def split: option.splits)

lemma parseToolCallParams_Ret:
  "parseToolCallParams r = Ret (name, args) \<Longrightarrow> name \<noteq> [] \<and> args \<noteq> None"
  by (auto simp: parseToolCallParams_def split: option.split_asm if_split_asm) metis

section \<open>Redaction\<close>

definition redacted_mark :: string where "redacted_mark = ''***REDACTED***''"

definition redact_field :: "string \<Rightarrow> (string \<times> gval) list \<Rightarrow> (string \<times> gval) list" where
  "redact_field f m =
     (case map_of m f of None \<Rightarrow> m | Some _ \<Rightarrow> map_put f (VStr redacted_mark) m)"

definition redactArguments :: "raw \<Rightarrow> string list \<Rightarrow> raw" where
  "redactArguments r fs =
     (if fs = [] \<or> r = None then r
      else
        (case unmarshal_map_any r of
           (m, False) \<Rightarrow> r
         | (None, True) \<Rightarrow> Some JNull
         | (Some m, True) \<Rightarrow> Some (json_of (VMap (fold redact_field fs m)))))"

lemma redact_field_lookup:
  "map_of (redact_field f m) k =
     (if k = f then map_option (\<lambda>_. VStr redacted_mark) (map_of m k) else map_of m k)"
  by (simp add: redact_field_def split: option.splits)

lemma redact_fields_lookup:
  "map_of (fold redact_field fs m) k =
     (if k \<in> set fs then map_option (\<lambda>_. VStr redacted_mark) (map_of m k) else map_of m k)"
  by (induction fs arbitrary: m) (auto simp: redact_field_lookup option.map_comp comp_def)

lemma distinct_redact_field:
  "distinct (map fst m) \<Longrightarrow> distinct (map fst (redact_field f m))"
  by (simp add: redact_field_def split: option.splits)

lemma distinct_redact_fields:
  "distinct (map fst m) \<Longrightarrow> distinct (map fst (fold redact_field fs m))"
  by (induction fs arbitrary: m) (auto simp: distinct_redact_field)

lemma redactArguments_object:
  assumes "fs \<noteq> []" "any_ok_fields kvs"
  obtains out where "redactArguments (Some (JObj kvs)) fs = Some (JObj out)"
    "\<And>k. map_of out k =
        (if k \<in> set fs then map_option (\<lambda>_. JStr redacted_mark) (map_of (rev kvs) k)
         else map_option (json_of \<circ> any_of) (map_of (rev kvs) k))"
    "distinct (map fst out)"
proof -
  let ?m = "fold redact_field fs (any_fields kvs [])"
  have d: "distinct (map fst (json_fields ?m))"
    by (simp add: distinct_redact_fields distinct_any_fields)
  have "redactArguments (Some (JObj kvs)) fs = Some (JObj (sort_key fst (json_fields ?m)))"
    using assms by (simp add: redactArguments_def unmarshal_map_any_def)
  moreover have "map_of (sort_key fst (json_fields ?m)) k =
        (if k \<in> set fs then map_option (\<lambda>_. JStr redacted_mark) (map_of (rev kvs) k)
         else map_option (json_of \<circ> any_of) (map_of (rev kvs) k))" for k
    using d by (simp add: map_of_json_fields redact_fields_lookup map_of_any_fields option.map_comp
        comp_def)
  moreover have "distinct (map fst (sort_key fst (json_fields ?m)))"
    using d by (metis distinct_map distinct_sort set_sort)
  ultimately show thesis by (rule that)
qed

section \<open>Session and turn ids in \<open>_meta\<close>\<close>

definition meta_injection_error :: "goerr \<Rightarrow> goerr" where
  "meta_injection_error e = ECoded CodeInternalError ''internal error: meta injection failed'' (Some e)"

definition meta_of :: "(string \<times> json) list option \<Rightarrow> (string \<times> json) list option go" where
  "meta_of params =
     (case nil_lookup params ''_meta'' of
        None \<Rightarrow> Ret (Some [])
      | Some rawMeta \<Rightarrow>
          (case unmarshal_map_raw (Some rawMeta) [] of
             Fail e \<Rightarrow> Fail (EWrap ''decode _meta'' e)
           | r \<Rightarrow> r))"

definition injectContextMeta :: "raw \<Rightarrow> string \<Rightarrow> string \<Rightarrow> raw go" where
  "injectContextMeta rawParams sid tid =
     (case unmarshal_map_raw rawParams [] of
        Fail e \<Rightarrow> Fail (EWrap ''decode params'' e)
      | Panic m \<Rightarrow> Panic m
      | Ret params \<Rightarrow>
          go_bind (meta_of params) (\<lambda>meta.
          go_bind (nil_put ''sessionId'' (JStr sid) meta) (\<lambda>meta1.
          go_bind (nil_put ''turnId'' (JStr tid) meta1) (\<lambda>meta2.
          go_bind (nil_put ''_meta'' (marshal_map_raw (the_default [] meta2)) params) (\<lambda>params1.
            Ret (Some (marshal_map_raw (the_default [] params1))))))))"

definition ContextInjector_Handle :: "'w handler" where
  "ContextInjector_Handle c r w =
     (if req_method r \<noteq> ''tools/call'' then (Ret None, r, w)
      else
        (case injectContextMeta (req_params r) (SessionIDFromContext c) (TurnIDFromContext c) of
           Fail e \<Rightarrow> (Fail (meta_injection_error e), r, w)
         | Panic m \<Rightarrow> (Panic m, r, w)
         | Ret p \<Rightarrow> (Ret None, r\<lparr>req_params := p\<rparr>, w)))"

interpretation injector: passive_handler "ContextInjector_Handle :: 'w handler"
  by unfold_locales (auto simp: ContextInjector_Handle_def split: if_splits go.splits)

text \<open>The members of the parameters before and after: \<open>_meta\<close> is replaced, everything else is
  kept.\<close>

lemma sort_key_lookup:
  "distinct (map fst (m :: (string \<times> json) list)) \<Longrightarrow> marshal_map_raw m = JObj kvs \<Longrightarrow>
   map_of kvs = map_of m \<and> distinct (map fst kvs)"
  by (auto simp: marshal_map_raw_def distinct_map)

lemma injectContextMeta_object:
  assumes "map_of (rev kvs) ''_meta'' = None \<and> meta = [] \<or>
           map_of (rev kvs) ''_meta'' = Some (JObj meta)"
  obtains out mo where
    "injectContextMeta (Some (JObj kvs)) sid tid = Ret (Some (JObj out))"
    "map_of out = (map_of (rev kvs))(''_meta'' \<mapsto> JObj mo)" "distinct (map fst out)"
    "map_of mo = (map_of (rev meta))(''sessionId'' \<mapsto> JStr sid, ''turnId'' \<mapsto> JStr tid)"
    "distinct (map fst mo)"
proof -
  let ?p = "fold (\<lambda>(k, v). map_put k v) kvs []"
  let ?m = "fold (\<lambda>(k, v). map_put k v) meta []"
  let ?m2 = "map_put ''turnId'' (JStr tid) (map_put ''sessionId'' (JStr sid) ?m)"
  let ?p1 = "map_put ''_meta'' (marshal_map_raw ?m2) ?p"
  have l: "map_of ?p ''_meta'' = map_of (rev kvs) ''_meta''"
    by (simp add: map_of_fold_map_put)
  have mo: "meta_of (Some ?p) = Ret (Some ?m)"
    using assms by (auto simp: meta_of_def nil_lookup_def l unmarshal_map_raw_def)
  have r: "injectContextMeta (Some (JObj kvs)) sid tid = Ret (Some (marshal_map_raw ?p1))"
    using mo by (simp add: injectContextMeta_def unmarshal_map_raw_def nil_put_def)
  obtain out mo' where o: "marshal_map_raw ?p1 = JObj out" "marshal_map_raw ?m2 = JObj mo'"
    by (simp add: marshal_map_raw_def)
  have d: "distinct (map fst ?m2)" "distinct (map fst ?p1)"
    by (simp_all add: distinct_fold_map_put)
  from sort_key_lookup [OF d(2) o(1)] sort_key_lookup [OF d(1) o(2)] r o show thesis
    by (intro that [of out mo']) (simp_all add: map_of_fold_map_put)
qed

section \<open>Request log\<close>

text \<open>A log entry is its level, its message and its attributes.\<close>

datatype log_level = LevelInfo | LevelWarn | LevelError
datatype log_value = LStr string | LInt int
type_synonym log_entry = "log_level \<times> string \<times> (string \<times> log_value) list"

definition name_field :: "string \<Rightarrow> json \<Rightarrow> string \<Rightarrow> string option" where
  "name_field k v n = (if key_is ''name'' k then decode_str v n else Some n)"

definition toolNameFromParams :: "raw \<Rightarrow> string option" where
  "toolNameFromParams r =
     (case unmarshal_struct name_field r [] of
        None \<Rightarrow> None
      | Some n \<Rightarrow> if n = [] then None else Some n)"

definition log_attrs :: "ctx \<Rightarrow> rpc_request \<Rightarrow> (string \<times> log_value) list" where
  "log_attrs c r =
     [(''sessionId'', LStr (SessionIDFromContext c)), (''turnId'', LStr (TurnIDFromContext c)),
      (''method'', LStr (req_method r))] @
     (if req_method r = ''tools/call'' then
        (case toolNameFromParams (req_params r) of
           None \<Rightarrow> []
         | Some t \<Rightarrow> [(''toolName'', LStr t)])
      else [])"

definition RequestLogger_Handle :: "(log_entry \<Rightarrow> 'w \<Rightarrow> 'w) \<Rightarrow> 'w handler" where
  "RequestLogger_Handle emit c r w =
     (Ret None, r, emit (LevelInfo, ''mcp request'', log_attrs c r) w)"

interpretation logger: passive_handler "RequestLogger_Handle emit"
  by unfold_locales (auto simp: RequestLogger_Handle_def)

definition LogOutcome :: "ctx \<Rightarrow> rpc_request \<Rightarrow> rpc_response option \<Rightarrow> goerr option \<Rightarrow> log_entry" where
  "LogOutcome c r resp err =
     (case err of
        Some e \<Rightarrow>
          (LevelWarn, ''mcp request outcome'',
           log_attrs c r @ [(''outcome'', LStr ''error''), (''errorCode'', LInt (jsonRPCCode e))])
      | None \<Rightarrow>
          (case resp of
             Some p \<Rightarrow>
               (case resp_error p of
                  Some e \<Rightarrow>
                    (LevelWarn, ''mcp request outcome'',
                     log_attrs c r @ [(''outcome'', LStr ''error''), (''errorCode'', LInt (err_code e))])
                | None \<Rightarrow>
                    (LevelInfo, ''mcp request outcome'',
                     log_attrs c r @ [(''outcome'', LStr ''success'')]))
           | None \<Rightarrow>
               (LevelInfo, ''mcp request outcome'', log_attrs c r @ [(''outcome'', LStr ''success'')])))"

section \<open>Properties\<close>

text \<open>
  C32. Enrichment: on parameters that are an object whose \<open>_meta\<close> (the last one, if repeated) is
  an object or missing, the injector sets \<open>_meta.sessionId\<close> and \<open>_meta.turnId\<close> and keeps every
  other member of \<open>_meta\<close> and of the parameters with its value, each key once.
\<close>

theorem inject_merges_meta:
  assumes "map_of (rev kvs) ''_meta'' = None \<and> meta = [] \<or>
           map_of (rev kvs) ''_meta'' = Some (JObj meta)"
  shows "\<exists>out mo. injectContextMeta (Some (JObj kvs)) sid tid = Ret (Some (JObj out)) \<and>
    map_of out = (map_of (rev kvs))(''_meta'' \<mapsto> JObj mo) \<and> distinct (map fst out) \<and>
    map_of mo = (map_of (rev meta))(''sessionId'' \<mapsto> JStr sid, ''turnId'' \<mapsto> JStr tid) \<and>
    distinct (map fst mo)"
  by (rule injectContextMeta_object [OF assms, of sid tid]) blast

theorem inject_merges_meta_witness:
  "\<exists>out mo. injectContextMeta (Some (JObj [(''name'', JStr ''t''),
        (''_meta'', JObj [(''progressToken'', JBool True)])])) ''s1'' ''t1'' = Ret (Some (JObj out)) \<and>
     map_of out ''name'' = Some (JStr ''t'') \<and> map_of out ''_meta'' = Some (JObj mo) \<and>
     map_of mo ''progressToken'' = Some (JBool True) \<and> map_of mo ''sessionId'' = Some (JStr ''s1'')"
proof -
  have "map_of (rev [(''name'', JStr ''t''), (''_meta'', JObj [(''progressToken'', JBool True)])])
      ''_meta'' = Some (JObj [(''progressToken'', JBool True)])" by simp
  from inject_merges_meta [OF disjI2, OF this, of "''s1''" "''t1''"] show ?thesis by auto
qed

text \<open>
  A \<open>tools/call\<close> request whose \<open>params\<close> or \<open>params._meta\<close> is \<open>null\<close> makes the injector
  panic with an assignment to a nil map, because \<open>json.Unmarshal\<close> of \<open>null\<close> leaves or makes the
  map nil.
\<close>

theorem inject_null_panics:
  "injectContextMeta (Some JNull) sid tid = Panic ''assignment to entry in nil map'' \<and>
   injectContextMeta (Some (JObj [(''name'', JStr n), (''_meta'', JNull)])) sid tid =
     Panic ''assignment to entry in nil map''"
  by (simp add: injectContextMeta_def unmarshal_map_raw_def meta_of_def nil_lookup_def nil_put_def)

text \<open>
  C33. Redaction of an object whose numbers are all in the range of \<open>float64\<close>: each listed field
  that is present is replaced by the mark, no listed field keeps its value, and every other member
  is the one the decoder saw, re-encoded; no field is added or dropped.
\<close>

theorem redact_hides_fields:
  assumes "fs \<noteq> []" and "any_ok_fields kvs"
  shows "\<exists>out. redactArguments (Some (JObj kvs)) fs = Some (JObj out) \<and>
    distinct (map fst out) \<and> fst ` set out = fst ` set kvs \<and>
    (\<forall>k. map_of out k =
       (if k \<in> set fs then map_option (\<lambda>_. JStr redacted_mark) (map_of (rev kvs) k)
        else map_option (json_of \<circ> any_of) (map_of (rev kvs) k)))"
proof (rule redactArguments_object [OF assms])
  fix out
  assume o: "redactArguments (Some (JObj kvs)) fs = Some (JObj out)" "distinct (map fst out)"
    "\<And>k. map_of out k =
        (if k \<in> set fs then map_option (\<lambda>_. JStr redacted_mark) (map_of (rev kvs) k)
         else map_option (json_of \<circ> any_of) (map_of (rev kvs) k))"
  have "dom (map_of out) = dom (map_of (rev kvs))"
    by (auto simp: dom_def o(3) split: if_splits)
  then have "fst ` set out = fst ` set kvs" by (simp add: dom_map_of_conv_image_fst)
  with o show ?thesis by blast
qed

theorem redact_hides_fields_witness:
  "\<exists>out. redactArguments (Some (JObj [(''channel'', JStr ''ops''), (''message'', JStr ''ssn'')]))
       [''message''] = Some (JObj out) \<and>
     map_of out ''message'' = Some (JStr redacted_mark) \<and> map_of out ''channel'' = Some (JStr ''ops'')"
proof -
  have "any_ok_fields [(''channel'', JStr ''ops''), (''message'', JStr ''ssn'')]" by simp
  from redact_hides_fields [OF _ this, of "[''message'']"] show ?thesis by fastforce
qed

text \<open>
  C40. One number outside the range of \<open>float64\<close> anywhere in the arguments switches redaction off:
  the decoder reports an error, and the arguments are returned as they came, with every field that
  should have been hidden.
\<close>

theorem redact_bypassed_by_large_number:
  assumes "\<not> any_ok_fields kvs"
  shows "redactArguments (Some (JObj kvs)) fs = Some (JObj kvs)"
  using assms by (simp add: redactArguments_def unmarshal_map_any_def)

theorem redact_bypassed_by_large_number_witness:
  "redactArguments (Some (JObj [(''message'', JStr ''ssn''), (''n'', JNum (Lit ''1e309''))])) [''message''] =
     Some (JObj [(''message'', JStr ''ssn''), (''n'', JNum (Lit ''1e309''))])"
  by (rule redact_bypassed_by_large_number) (simp del: num_f64.simps)

end
