(* ===== verification/Lark_Webhook.thy ===== *)
theory Lark_Webhook
  imports Tickets Tool_Call "HOL-Library.Signed_Division"
begin

text \<open>
  \<open>cmd/gateway/slack_webhook.go\<close>: the callback that Lark sends when somebody presses a button of
  an approval card. SHA-256, the clock, the ticket store and the publisher are the
  fields of \<open>webhook_env\<close>. The ages of timestamps are computed in \<open>int64\<close>, with its wrap-around.
\<close>

named_theorems webhook_simps \<open>decoding of the callback's members\<close>

section \<open>The payload\<close>

record action_value =
  av_ticket :: string
  av_action :: string

record card_action =
  ca_tag :: string
  ca_value :: action_value

record lark_envelope =
  en_schema :: string
  en_header_token :: string
  en_operator :: string
  en_event_action :: card_action
  en_token :: string
  en_open_id :: string
  en_action :: card_action

definition empty_action :: card_action where
  "empty_action = \<lparr>ca_tag = [], ca_value = \<lparr>av_ticket = [], av_action = []\<rparr>\<rparr>"

definition empty_envelope :: lark_envelope where
  "empty_envelope =
     \<lparr>en_schema = [], en_header_token = [], en_operator = [], en_event_action = empty_action,
      en_token = [], en_open_id = [], en_action = empty_action\<rparr>"

definition value_field :: "string \<Rightarrow> json \<Rightarrow> action_value \<Rightarrow> action_value option" where
  "value_field k v a =
     (if key_is ''ticket_id'' k then map_option (\<lambda>s. a\<lparr>av_ticket := s\<rparr>) (decode_str v (av_ticket a))
      else if key_is ''action'' k then map_option (\<lambda>s. a\<lparr>av_action := s\<rparr>) (decode_str v (av_action a))
      else Some a)"

definition action_field :: "string \<Rightarrow> json \<Rightarrow> card_action \<Rightarrow> card_action option" where
  "action_field k v a =
     (if key_is ''tag'' k then map_option (\<lambda>s. a\<lparr>ca_tag := s\<rparr>) (decode_str v (ca_tag a))
      else if key_is ''value'' k
      then map_option (\<lambda>x. a\<lparr>ca_value := x\<rparr>) (decode_struct value_field v (ca_value a))
      else Some a)"

definition one_string :: "string \<Rightarrow> string \<Rightarrow> json \<Rightarrow> string \<Rightarrow> string option" where
  "one_string name k v s = (if key_is name k then decode_str v s else Some s)"

definition event_field :: "string \<Rightarrow> json \<Rightarrow> string \<times> card_action \<Rightarrow> (string \<times> card_action) option" where
  "event_field k v p =
     (if key_is ''operator'' k
      then map_option (\<lambda>s. (s, snd p)) (decode_struct (one_string ''open_id'') v (fst p))
      else if key_is ''action'' k
      then map_option (\<lambda>a. (fst p, a)) (decode_struct action_field v (snd p))
      else Some p)"

definition envelope_field :: "string \<Rightarrow> json \<Rightarrow> lark_envelope \<Rightarrow> lark_envelope option" where
  "envelope_field k v e =
     (if key_is ''schema'' k then map_option (\<lambda>s. e\<lparr>en_schema := s\<rparr>) (decode_str v (en_schema e))
      else if key_is ''header'' k
      then map_option (\<lambda>s. e\<lparr>en_header_token := s\<rparr>)
             (decode_struct (one_string ''token'') v (en_header_token e))
      else if key_is ''event'' k
      then map_option (\<lambda>(s, a). e\<lparr>en_operator := s, en_event_action := a\<rparr>)
             (decode_struct event_field v (en_operator e, en_event_action e))
      else if key_is ''token'' k then map_option (\<lambda>s. e\<lparr>en_token := s\<rparr>) (decode_str v (en_token e))
      else if key_is ''open_id'' k then map_option (\<lambda>s. e\<lparr>en_open_id := s\<rparr>) (decode_str v (en_open_id e))
      else if key_is ''action'' k
      then map_option (\<lambda>a. e\<lparr>en_action := a\<rparr>) (decode_struct action_field v (en_action e))
      else Some e)"

definition decode_envelope :: "raw \<Rightarrow> lark_envelope option" where
  "decode_envelope r = unmarshal_struct envelope_field r empty_envelope"

text \<open>The token, the user and the action, from the nested or from the flat form.\<close>

definition normalise :: "lark_envelope \<Rightarrow> string \<times> string \<times> card_action" where
  "normalise e =
     (if en_schema e = ''2.0'' then (en_header_token e, en_operator e, en_event_action e)
      else (en_token e, en_open_id e, en_action e))"

definition challenge_field :: "string \<Rightarrow> json \<Rightarrow> string \<times> string \<Rightarrow> (string \<times> string) option" where
  "challenge_field k v p =
     (if key_is ''type'' k then map_option (\<lambda>s. (s, snd p)) (decode_str v (fst p))
      else if key_is ''challenge'' k then map_option (\<lambda>s. (fst p, s)) (decode_str v (snd p))
      else Some p)"

definition challenge_of :: "raw \<Rightarrow> string option" where
  "challenge_of r =
     (case unmarshal_struct challenge_field r ([], []) of
        Some (ty, ch) \<Rightarrow> if ty = ''url_verification'' then Some ch else None
      | None \<Rightarrow> None)"

section \<open>Authentication\<close>

record lark_request =
  wr_body :: string
  wr_read_err :: "goerr option"
  wr_timestamp :: string
  wr_nonce :: string
  wr_signature :: string

record http_reply =
  rp_status :: int
  rp_type :: string
  rp_body :: string

record 'w webhook_env =
  wh_token :: string
  wh_sha256 :: "string \<Rightarrow> 8 word list"
  wh_now :: "'w \<Rightarrow> int"
  wh_update :: "string \<Rightarrow> string \<Rightarrow> string \<Rightarrow> 'w \<Rightarrow> goerr option \<times> 'w"
  wh_publish :: "string \<Rightarrow> string \<Rightarrow> 'w \<Rightarrow> goerr option \<times> 'w"
  wh_log :: "log_entry \<Rightarrow> 'w \<Rightarrow> 'w"

definition computeLarkSignature ::
  "(string \<Rightarrow> 8 word list) \<Rightarrow> string \<Rightarrow> string \<Rightarrow> string \<Rightarrow> string \<Rightarrow> string" where
  "computeLarkSignature sha token ts nonce body = hex_bytes (sha (token @ ts @ nonce @ body))"

text \<open>\<open>time.Now().Unix() - tsUnix\<close>, negated when negative; the negation of the least \<open>int64\<close> is
  itself.\<close>

definition wrap64 :: "int \<Rightarrow> int" where
  "wrap64 i = sint (word_of_int i :: 64 word)"

definition timestamp_delta :: "int \<Rightarrow> int \<Rightarrow> int" where
  "timestamp_delta now ts =
     (let d = wrap64 (now - ts) in if d < 0 then wrap64 (- d) else d)"

definition larkReplayWindowSeconds :: int where "larkReplayWindowSeconds = 5 * 60"

text \<open>The log entry of a request that is refused, \<open>None\<close> for one that is accepted.\<close>

definition lark_refusal :: "'w webhook_env \<Rightarrow> lark_request \<Rightarrow> string \<Rightarrow> 'w \<Rightarrow> log_entry option" where
  "lark_refusal H q token w =
     (if wr_timestamp q = [] then
        (if token \<noteq> wh_token H then Some (LevelWarn, ''lark webhook: token mismatch'', []) else None)
      else
        (case parse_int64 (wr_timestamp q) of
           None \<Rightarrow>
             Some (LevelWarn, ''lark webhook: invalid timestamp header'', [(''header'', LStr (wr_timestamp q))])
         | Some ts \<Rightarrow>
             (let delta = timestamp_delta (wh_now H w) ts in
              if delta > larkReplayWindowSeconds then
                Some (LevelWarn, ''lark webhook: request timestamp outside replay window'',
                  [(''timestamp'', LInt ts), (''delta_seconds'', LInt delta)])
              else if computeLarkSignature (wh_sha256 H) (wh_token H) (wr_timestamp q) (wr_nonce q) (wr_body q)
                      \<noteq> wr_signature q
              then Some (LevelWarn, ''lark webhook: signature mismatch'', [])
              else None)))"

section \<open>The handler\<close>

definition http_error :: "string \<Rightarrow> int \<Rightarrow> http_reply" where
  "http_error msg code =
     \<lparr>rp_status = code, rp_type = ''text/plain; charset=utf-8'', rp_body = msg @ [CHR 10]\<rparr>"

definition json_reply :: "string \<Rightarrow> http_reply" where
  "json_reply body = \<lparr>rp_status = 200, rp_type = ''application/json'', rp_body = body\<rparr>"

definition status_of_action :: "string \<Rightarrow> string option" where
  "status_of_action a =
     (if a = ''approve'' then Some ''approved'' else if a = ''deny'' then Some ''denied'' else None)"

definition record_decision ::
  "'w webhook_env \<Rightarrow> string \<Rightarrow> string \<Rightarrow> string \<Rightarrow> 'w \<Rightarrow> http_reply \<times> 'w" where
  "record_decision H ticket status user w =
     (case wh_update H ticket status user w of
        (Some e, w1) \<Rightarrow>
          (http_error ''internal server error'' 500,
           wh_log H (LevelError, ''lark webhook: UpdateStatus failed'',
             [(''ticketID'', LStr ticket), (''status'', LStr status), (''error'', LStr (err_text e))]) w1)
      | (None, w1) \<Rightarrow>
          (case wh_publish H (''approvals:'' @ ticket) status w1 of
             (err, w2) \<Rightarrow>
               let w3 = (case err of
                           None \<Rightarrow> w2
                         | Some e \<Rightarrow>
                             wh_log H (LevelWarn, ''lark webhook: Redis Publish failed; ticket persisted, waiter will timeout'',
                               [(''ticketID'', LStr ticket), (''channel'', LStr (''approvals:'' @ ticket)),
                                (''error'', LStr (err_text e))]) w2)
               in (json_reply ''{}'',
                   wh_log H (LevelInfo, ''lark webhook: decision recorded'',
                     [(''ticketID'', LStr ticket), (''status'', LStr status), (''userID'', LStr user)]) w3)))"

definition bad_request :: http_reply where
  "bad_request = http_error ''bad request'' 400"

definition route_action ::
  "'w webhook_env \<Rightarrow> card_action \<Rightarrow> string \<Rightarrow> 'w \<Rightarrow> http_reply \<times> 'w" where
  "route_action H a user w =
     (let ticket = av_ticket (ca_value a); act = av_action (ca_value a) in
      if ticket = [] then
        (bad_request, wh_log H (LevelWarn, ''lark webhook: missing ticket_id in action value'', []) w)
      else
        (case status_of_action act of
           None \<Rightarrow>
             (bad_request, wh_log H (LevelWarn, ''lark webhook: unknown action'',
                [(''action'', LStr act), (''ticketID'', LStr ticket)]) w)
         | Some status \<Rightarrow> record_decision H ticket status user w))"

definition lark_callback :: "'w webhook_env \<Rightarrow> lark_request \<Rightarrow> lark_envelope \<Rightarrow> 'w \<Rightarrow> http_reply \<times> 'w" where
  "lark_callback H q e w =
     (case normalise e of
        (token, user, act) \<Rightarrow>
          (case lark_refusal H q token w of
             Some entry \<Rightarrow> (bad_request, wh_log H entry w)
           | None \<Rightarrow> route_action H act user w))"

definition webhook_ServeHTTP :: "'w webhook_env \<Rightarrow> lark_request \<Rightarrow> 'w \<Rightarrow> http_reply \<times> 'w" where
  "webhook_ServeHTTP H q w =
     (case wr_read_err q of
        Some e \<Rightarrow>
          (bad_request, wh_log H (LevelError, ''lark webhook: read body failed'', [(''error'', LStr (err_text e))]) w)
      | None \<Rightarrow>
          (case challenge_of (parse_json (wr_body q)) of
             Some ch \<Rightarrow>
               (json_reply ([CHR ''{'', CHR 34] @ ''challenge'' @ [CHR 34, CHR '':'', CHR 34] @ ch @ [CHR 34, CHR ''}'']),
                wh_log H (LevelInfo, ''lark webhook: responding to URL verification challenge'', []) w)
           | None \<Rightarrow>
               (case decode_envelope (parse_json (wr_body q)) of
                  None \<Rightarrow>
                    (bad_request, wh_log H (LevelError, ''lark webhook: unmarshal payload failed'',
                       [(''error'', LStr (err_text EJson))]) w)
                | Some e \<Rightarrow> lark_callback H q e w)))"

text \<open>\<open>NewLarkWebhookHandler\<close> of the gateway: the store updates the tickets, the Redis client
  publishes.\<close>

definition NewLarkWebhookHandler ::
  "string \<Rightarrow> (string \<Rightarrow> 8 word list) \<Rightarrow> ('w \<Rightarrow> int) \<Rightarrow>
   (string \<Rightarrow> string \<Rightarrow> string \<Rightarrow> 'w \<Rightarrow> goerr option \<times> 'w) \<Rightarrow>
   (string \<Rightarrow> string \<Rightarrow> 'w \<Rightarrow> goerr option \<times> 'w) \<Rightarrow> (log_entry \<Rightarrow> 'w \<Rightarrow> 'w) \<Rightarrow> 'w webhook_env" where
  "NewLarkWebhookHandler token sha now upd pub lg =
     \<lparr>wh_token = token, wh_sha256 = sha, wh_now = now, wh_update = upd,
      wh_publish = pub, wh_log = lg\<rparr>"

section \<open>Timestamps\<close>

lemma wrap64_id: "- (2 ^ 63) \<le> i \<Longrightarrow> i < 2 ^ 63 \<Longrightarrow> wrap64 i = i"
  by (simp add: wrap64_def sint_sbintrunc' signed_take_bit_int_eq_self)

lemma wrap64_above: "2 ^ 63 \<le> i \<Longrightarrow> i < 2 ^ 64 \<Longrightarrow> wrap64 i = i - 2 ^ 64"
proof -
  assume i: "2 ^ 63 \<le> i" "i < 2 ^ 64"
  have "(word_of_int i :: 64 word) = word_of_int (i - 2 ^ 64)"
    by (simp add: word_of_int_eq_iff take_bit_eq_mod)
  then have "wrap64 i = wrap64 (i - 2 ^ 64)" by (simp only: wrap64_def)
  also have "\<dots> = i - 2 ^ 64" using i by (intro wrap64_id) simp_all
  finally show ?thesis .
qed

section \<open>The effects of a request\<close>

text \<open>The updates, with their success, and the publications that a request makes.\<close>

datatype webhook_event = WhUpdate string string string bool | WhPublish string string

definition watched :: "'w webhook_env \<Rightarrow> (webhook_event list \<times> 'w) webhook_env" where
  "watched H =
     \<lparr>wh_token = wh_token H, wh_sha256 = wh_sha256 H,
      wh_now = (\<lambda>(l, w). wh_now H w),
      wh_update = (\<lambda>i st u (l, w).
         case wh_update H i st u w of (e, w1) \<Rightarrow> (e, (l @ [WhUpdate i st u (e = None)], w1))),
      wh_publish = (\<lambda>ch m (l, w).
         case wh_publish H ch m w of (e, w1) \<Rightarrow> (e, (l @ [WhPublish ch m], w1))),
      wh_log = (\<lambda>x (l, w). (l, wh_log H x w))\<rparr>"

lemma watched_simps [simp]:
  "wh_token (watched H) = wh_token H" "wh_sha256 (watched H) = wh_sha256 H"
  "wh_now (watched H) (l, w) = wh_now H w" "wh_log (watched H) x (l, w) = (l, wh_log H x w)"
  by (simp_all add: watched_def)

definition authentic :: "'w webhook_env \<Rightarrow> lark_request \<Rightarrow> string \<Rightarrow> 'w \<Rightarrow> bool" where
  "authentic H q token w \<longleftrightarrow>
     (if wr_timestamp q = [] then token = wh_token H
      else \<exists>ts. parse_int64 (wr_timestamp q) = Some ts \<and>
             timestamp_delta (wh_now H w) ts \<le> larkReplayWindowSeconds \<and>
             computeLarkSignature (wh_sha256 H) (wh_token H) (wr_timestamp q) (wr_nonce q) (wr_body q)
               = wr_signature q)"

lemma lark_refusal_None: "lark_refusal H q token w = None \<longleftrightarrow> authentic H q token w"
  by (auto simp: lark_refusal_def authentic_def Let_def simp del: parse_int64.simps
      split: option.splits if_splits)

lemma authentic_watched [simp]: "authentic (watched H) q token (l, w) = authentic H q token w"
  by (simp add: authentic_def)

lemma record_decision_effects:
  assumes "record_decision (watched H) ticket status user (l, w) = (rep, (l', w'))"
  shows "l' = l @ [WhUpdate ticket status user False] \<and> rp_status rep = 500 \<or>
    l' = l @ [WhUpdate ticket status user True, WhPublish (''approvals:'' @ ticket) status] \<and> rp_status rep = 200"
proof -
  obtain e w1 where u: "wh_update H ticket status user w = (e, w1)"
    by (cases "wh_update H ticket status user w")
  obtain e2 w2 where p: "wh_publish H (''approvals:'' @ ticket) status w1 = (e2, w2)"
    by (cases "wh_publish H (''approvals:'' @ ticket) status w1")
  show ?thesis
  proof (cases e)
    case (Some x)
    with assms u show ?thesis
      by (auto simp: record_decision_def watched_def http_error_def)
  next
    case None
    with assms u p show ?thesis
      by (cases e2) (auto simp: record_decision_def watched_def json_reply_def Let_def)
  qed
qed

lemma route_action_effects:
  assumes "route_action (watched H) a user (l, w) = (rep, (l', w'))" "l' \<noteq> l"
  obtains status where "status_of_action (av_action (ca_value a)) = Some status"
    "av_ticket (ca_value a) \<noteq> []"
    "record_decision (watched H) (av_ticket (ca_value a)) status user (l, w) = (rep, (l', w'))"
  using assms by (auto simp: route_action_def Let_def split: if_splits option.splits)

section \<open>Properties\<close>

text \<open>
  C8. Authenticity and order: a request that updates a ticket or publishes a signal carries the
  verification token, or a timestamp within the window and the signature over it; it updates exactly
  the ticket of its payload to the status of its action, and publishes exactly that status on that
  ticket's channel, after the update and only if the update succeeded; the reply is 200 then, and 500
  when the update failed.
\<close>

theorem webhook_effects_authentic:
  assumes "webhook_ServeHTTP (watched H) q ([], w) = (rep, (l, w'))" and "l \<noteq> []"
  shows "\<exists>e token user act status. decode_envelope (parse_json (wr_body q)) = Some e \<and>
    normalise e = (token, user, act) \<and> authentic H q token w \<and>
    av_ticket (ca_value act) \<noteq> [] \<and> status_of_action (av_action (ca_value act)) = Some status \<and>
    (l = [WhUpdate (av_ticket (ca_value act)) status user False] \<and> rp_status rep = 500 \<or>
     l = [WhUpdate (av_ticket (ca_value act)) status user True,
          WhPublish (''approvals:'' @ av_ticket (ca_value act)) status] \<and> rp_status rep = 200)"
proof -
  from assms obtain e where e: "decode_envelope (parse_json (wr_body q)) = Some e"
    and cb: "lark_callback (watched H) q e ([], w) = (rep, (l, w'))"
    by (auto simp: webhook_ServeHTTP_def split: option.splits)
  obtain token user act where n: "normalise e = (token, user, act)" by (cases "normalise e")
  from cb n assms(2) have a: "lark_refusal (watched H) q token ([], w) = None"
    and r: "route_action (watched H) act user ([], w) = (rep, (l, w'))"
    by (auto simp: lark_callback_def split: option.splits)
  from r assms(2) obtain status where s: "status_of_action (av_action (ca_value act)) = Some status"
    "av_ticket (ca_value act) \<noteq> []"
    "record_decision (watched H) (av_ticket (ca_value act)) status user ([], w) = (rep, (l, w'))"
    by (rule route_action_effects)
  from a have "authentic H q token w" by (simp add: lark_refusal_None)
  with e n s record_decision_effects [OF s(3)] show ?thesis by auto
qed

text \<open>
  C34. The replay window, for a clock between 1970 and the year of \<open>2^62\<close> seconds: a timestamp is
  accepted when it is at most five minutes away from the clock, and in one more case, when it lies
  exactly \<open>2^63\<close> seconds in the past, where the difference and its negation are both the least
  \<open>int64\<close>.
\<close>

theorem replay_window_iff:
  assumes "0 \<le> now" and "now < 2 ^ 62" and "int64_min \<le> ts" and "ts \<le> int64_max"
  shows "timestamp_delta now ts \<le> larkReplayWindowSeconds \<longleftrightarrow> \<bar>now - ts\<bar> \<le> 300 \<or> now - ts = 2 ^ 63"
proof (cases "now - ts < 2 ^ 63")
  case True
  moreover have "- (2 ^ 63) < now - ts" using assms by (simp add: int64_max_def)
  ultimately have "wrap64 (now - ts) = now - ts" "wrap64 (- (now - ts)) = - (now - ts)"
    by (auto intro!: wrap64_id)
  with True show ?thesis by (auto simp: timestamp_delta_def Let_def larkReplayWindowSeconds_def)
next
  case False
  with assms have b: "2 ^ 63 \<le> now - ts" "now - ts < 2 ^ 64" by (simp_all add: int64_min_def)
  then have w: "wrap64 (now - ts) = now - ts - 2 ^ 64" by (rule wrap64_above)
  show ?thesis
  proof (cases "now - ts = 2 ^ 63")
    case True
    then have "timestamp_delta now ts = - (2 ^ 63)"
      by (simp add: timestamp_delta_def Let_def w wrap64_above)
    with True show ?thesis by (simp add: larkReplayWindowSeconds_def)
  next
    case False
    with b have "wrap64 (- (now - ts - 2 ^ 64)) = 2 ^ 64 - (now - ts)"
      by (subst wrap64_id) simp_all
    with b False assms show ?thesis
      by (auto simp: timestamp_delta_def Let_def w larkReplayWindowSeconds_def int64_min_def)
  qed
qed

theorem replay_window_iff_witness:
  "timestamp_delta 1700000000 (1700000000 - 2 ^ 63) \<le> larkReplayWindowSeconds"
  by (subst replay_window_iff) (simp_all add: int64_min_def int64_max_def)

end
