(* ===== verification/Forwarder.thy ===== *)
theory Forwarder
  imports Pipeline
begin

text \<open>
  \<open>core/mcp/forwarder.go\<close>: the terminal handler, which sends a request to the upstream server over
  HTTP and repairs a lost upstream session once. The HTTP client and the JSON parser (bytes to the
  value they denote, \<open>None\<close> for invalid JSON) are the fields of \<open>transport\<close>; \<open>bufio.Scanner\<close>
  and \<open>mime.ParseMediaType\<close> are modelled.
\<close>

section \<open>Media types\<close>

definition tspecials :: "char list" where
  "tspecials = ''()<>@,;:'' @ [CHR 92, CHR 34] @ ''/[]?=''"

definition is_token_char :: "char \<Rightarrow> bool" where
  "is_token_char c = (CHR 0x20 < c \<and> c < CHR 0x7F \<and> c \<notin> set tspecials)"

definition trim_left_space :: "string \<Rightarrow> string" where
  "trim_left_space s = trim_seqs (length s) space_seqs s"

text \<open>The value and the rest of a quoted string, after the opening quote.\<close>

fun quoted_value :: "string \<Rightarrow> string \<Rightarrow> (string \<times> string) option" where
  "quoted_value acc [] = None"
| "quoted_value acc (c # r) =
     (if c = CHR 34 then Some (rev acc, r)
      else if c = CHR 92 \<and> r \<noteq> [] \<and> hd r \<in> set tspecials then
        (case r of [] \<Rightarrow> None | d # r' \<Rightarrow> quoted_value (d # acc) r')
      else if c = CHR 13 \<or> c = CHR 10 then None
      else quoted_value (c # acc) r)"

definition consume_value :: "string \<Rightarrow> (string \<times> string) option" where
  "consume_value v =
     (if v = [] then None
      else if hd v = CHR 34 then quoted_value [] (tl v)
      else if takeWhile is_token_char v = [] then None
      else Some (takeWhile is_token_char v, dropWhile is_token_char v))"

definition consume_param :: "string \<Rightarrow> (string \<times> string \<times> string) option" where
  "consume_param v =
     (let r0 = trim_left_space v in
      if \<not> has_prefix r0 '';'' then None
      else
        let r1 = trim_left_space (tl r0);
            k = to_lower (takeWhile is_token_char r1);
            r2 = trim_left_space (dropWhile is_token_char r1)
        in if k = [] \<or> \<not> has_prefix r2 ''='' then None
           else (case consume_value (trim_left_space (tl r2)) of
                   None \<Rightarrow> None
                 | Some (val, rest) \<Rightarrow> Some (k, val, rest)))"

fun media_params_ok :: "nat \<Rightarrow> (string \<times> string) list \<Rightarrow> string \<Rightarrow> bool" where
  "media_params_ok 0 seen v = True"
| "media_params_ok (Suc n) seen v =
     (let v1 = trim_left_space v in
      if v1 = [] then True
      else (case consume_param v1 of
              None \<Rightarrow> trim_space v1 = '';''
            | Some (k, val, rest) \<Rightarrow>
                (case map_of seen k of
                   Some old \<Rightarrow> old = val \<and> media_params_ok n seen rest
                 | None \<Rightarrow> media_params_ok n ((k, val) # seen) rest)))"

definition media_type_ok :: "string \<Rightarrow> bool" where
  "media_type_ok t =
     (takeWhile is_token_char t \<noteq> [] \<and>
      (case dropWhile is_token_char t of
         [] \<Rightarrow> True
       | c # r \<Rightarrow> c = CHR ''/'' \<and> r \<noteq> [] \<and> list_all is_token_char r))"

definition ParseMediaType :: "string \<Rightarrow> string option" where
  "ParseMediaType v =
     (let base = takeWhile (\<lambda>c. c \<noteq> CHR '';'') v;
          rest = dropWhile (\<lambda>c. c \<noteq> CHR '';'') v;
          t = trim_space (to_lower base)
      in if media_type_ok t \<and> media_params_ok (Suc (length rest)) [] rest then Some t else None)"

section \<open>Server-sent events\<close>

text \<open>\<open>bufio.ScanLines\<close>: lines end at a line feed, a carriage return before it is dropped, an
  empty last piece is no line; a line that does not fit the buffer of 64 KiB with its terminator
  ends the scan with an error.\<close>

definition scan_lines :: "string \<Rightarrow> string list" where
  "scan_lines s =
     (let ls = split_char (CHR 10) s in if last ls = [] then butlast ls else ls)"

definition drop_cr :: "string \<Rightarrow> string" where
  "drop_cr s = (if s \<noteq> [] \<and> last s = CHR 13 then butlast s else s)"

definition max_token :: nat where "max_token = 65536"

fun first_data :: "string list \<Rightarrow> goerr option \<Rightarrow> string go" where
  "first_data [] rerr =
     (case rerr of Some e \<Rightarrow> Fail e | None \<Rightarrow> Fail (EMsg ''missing SSE data line''))"
| "first_data (l # ls) rerr =
     (if max_token \<le> length l then Fail (EMsg ''bufio.Scanner: token too long'')
      else if has_prefix (drop_cr l) ''data:''
      then Ret (trim_space (trim_prefix (drop_cr l) ''data:''))
      else first_data ls rerr)"

definition readFirstSSEData :: "string \<Rightarrow> goerr option \<Rightarrow> string go" where
  "readFirstSSEData body rerr = first_data (scan_lines body) rerr"

section \<open>The forwarder\<close>

record http_req =
  hq_url :: string
  hq_headers :: "(string \<times> string) list"
  hq_body :: json

record http_resp =
  hr_status :: int
  hr_session :: string
  hr_ctype :: string
  hr_body :: string
  hr_read_err :: "goerr option"

record 'w transport =
  tr_build :: "string \<Rightarrow> goerr option"
  tr_do :: "http_req \<Rightarrow> 'w \<Rightarrow> http_resp go \<times> 'w"

record forwarder =
  fw_url :: string
  fw_session :: string

definition NewUpstreamForwarder :: "string \<Rightarrow> forwarder" where
  "NewUpstreamForwarder u = \<lparr>fw_url = u, fw_session = []\<rparr>"

definition wrapUpstreamError :: "string \<Rightarrow> goerr option \<Rightarrow> goerr" where
  "wrapUpstreamError m e = ECoded CodeInternalError m e"

definition upstreamFailureMessage :: "goerr option \<Rightarrow> string" where
  "upstreamFailureMessage e =
     (case e of
        None \<Rightarrow> ''upstream request failed''
      | Some x \<Rightarrow>
          if contains (err_text x) ''Client.Timeout'' \<or> contains (err_text x) ''context deadline exceeded''
          then ''upstream timeout'' else ''upstream request failed'')"

definition decodeUpstreamResponse :: "http_resp \<Rightarrow> rpc_response go" where
  "decodeUpstreamResponse h =
     go_bind
       (if the_default [] (ParseMediaType (hr_ctype h)) = ''text/event-stream''
        then readFirstSSEData (hr_body h) (hr_read_err h)
        else (case hr_read_err h of Some e \<Rightarrow> Fail e | None \<Rightarrow> Ret (hr_body h)))
       (\<lambda>payload. case decode_response (parse_json payload) of None \<Rightarrow> Fail EJson | Some a \<Rightarrow> Ret a)"

definition upstream_request :: "forwarder \<Rightarrow> rpc_request \<Rightarrow> http_req" where
  "upstream_request f r =
     \<lparr>hq_url = fw_url f,
      hq_headers =
        [(''Content-Type'', ''application/json''), (''Accept'', ''application/json, text/event-stream'')] @
        (if fw_session f \<noteq> [] then [(''Mcp-Session-Id'', fw_session f)] else []),
      hq_body = encode_request r\<rparr>"

definition is_stale :: "forwarder \<Rightarrow> rpc_request \<Rightarrow> http_resp \<Rightarrow> bool" where
  "is_stale f r h =
     (fw_session f \<noteq> [] \<and> req_method r \<noteq> ''initialize'' \<and> (hr_status h = 404 \<or> hr_status h = 400))"

text \<open>What \<open>doRequest\<close> makes of an HTTP response: the result (response and stale flag) and the
  forwarder's session id afterwards.\<close>

definition after_response ::
  "forwarder \<Rightarrow> rpc_request \<Rightarrow> http_resp \<Rightarrow> (rpc_response option \<times> bool) go \<times> forwarder" where
  "after_response f r h =
     (let f1 = (if req_method r = ''initialize'' \<and> hr_session h \<noteq> []
                then f\<lparr>fw_session := hr_session h\<rparr> else f)
      in if is_stale f r h then (Ret (None, True), f1\<lparr>fw_session := []\<rparr>)
         else if hr_status h \<noteq> 200 then
           (Fail (wrapUpstreamError (''upstream returned status '' @ itoa (hr_status h)) None), f1)
         else (case decodeUpstreamResponse h of
                 Ret a \<Rightarrow> (Ret (Some a, False), f1)
               | Fail e \<Rightarrow> (Fail (wrapUpstreamError ''decode upstream response'' (Some e)), f1)
               | Panic m \<Rightarrow> (Panic m, f1)))"

definition doRequest ::
  "'w transport \<Rightarrow> forwarder \<Rightarrow> rpc_request \<Rightarrow> 'w \<Rightarrow> (rpc_response option \<times> bool) go \<times> forwarder \<times> 'w" where
  "doRequest T f r w =
     (case tr_build T (fw_url f) of
        Some e \<Rightarrow> (Fail (wrapUpstreamError ''build upstream request'' (Some e)), f, w)
      | None \<Rightarrow>
          (case tr_do T (upstream_request f r) w of
             (Fail e, w1) \<Rightarrow> (Fail (wrapUpstreamError (upstreamFailureMessage (Some e)) (Some e)), f, w1)
           | (Panic m, w1) \<Rightarrow> (Panic m, f, w1)
           | (Ret h, w1) \<Rightarrow> (case after_response f r h of (out, f1) \<Rightarrow> (out, f1, w1))))"

definition reinit_request :: "rpc_request \<Rightarrow> rpc_request" where
  "reinit_request r =
     \<lparr>req_jsonrpc = ''2.0'', req_id = req_id r, req_method = ''initialize'',
      req_params = Some (JObj
        [(''protocolVersion'', JStr ''2025-03-26''), (''capabilities'', JObj []),
         (''clientInfo'', JObj [(''name'', JStr ''gateway''), (''version'', JStr ''1.0.0'')])])\<rparr>"

definition revalidateSession ::
  "'w transport \<Rightarrow> forwarder \<Rightarrow> rpc_request \<Rightarrow> 'w \<Rightarrow> unit go \<times> forwarder \<times> 'w" where
  "revalidateSession T f r w =
     (case doRequest T f (reinit_request r) w of
        (Ret _, f1, w1) \<Rightarrow> (Ret (), f1, w1)
      | (Fail e, f1, w1) \<Rightarrow> (Fail e, f1, w1)
      | (Panic m, f1, w1) \<Rightarrow> (Panic m, f1, w1))"

definition forwarder_Handle ::
  "'w transport \<Rightarrow> forwarder \<Rightarrow> rpc_request \<Rightarrow> 'w \<Rightarrow> rpc_response option go \<times> forwarder \<times> 'w" where
  "forwarder_Handle T f r w =
     (case doRequest T f r w of
        (Fail e, f1, w1) \<Rightarrow> (Fail e, f1, w1)
      | (Panic m, f1, w1) \<Rightarrow> (Panic m, f1, w1)
      | (Ret (resp, stale), f1, w1) \<Rightarrow>
          if \<not> stale then (Ret resp, f1, w1)
          else
            (case revalidateSession T f1 r w1 of
               (Fail e, f2, w2) \<Rightarrow> (Fail e, f2, w2)
             | (Panic m, f2, w2) \<Rightarrow> (Panic m, f2, w2)
             | (Ret _, f2, w2) \<Rightarrow>
                 (case doRequest T f2 r w2 of
                    (Ret (resp2, _), f3, w3) \<Rightarrow> (Ret resp2, f3, w3)
                  | (Fail e, f3, w3) \<Rightarrow> (Fail e, f3, w3)
                  | (Panic m, f3, w3) \<Rightarrow> (Panic m, f3, w3))))"

lemma reinit_simps [simp]:
  "req_method (reinit_request r) = ''initialize''" "req_id (reinit_request r) = req_id r"
  "\<not> is_stale f (reinit_request q) h"
  by (simp_all add: reinit_request_def is_stale_def)

section \<open>Exchanges\<close>

text \<open>A transport that keeps the list of its exchanges beside the state.\<close>

definition logged :: "'w transport \<Rightarrow> ((http_req \<times> http_resp go) list \<times> 'w) transport" where
  "logged T =
     \<lparr>tr_build = tr_build T,
      tr_do = (\<lambda>q (l, w). case tr_do T q w of (out, w1) \<Rightarrow> (out, (l @ [(q, out)], w1)))\<rparr>"

lemma logged_simps [simp]:
  "tr_build (logged T) = tr_build T"
  by (simp_all add: logged_def)

lemma after_response_cases:
  assumes "after_response f r h = (out, f')"
  obtains (stale) "is_stale f r h" "out = Ret (None, True)" "f' = f\<lparr>fw_session := []\<rparr>"
  | (fail) e where "\<not> is_stale f r h" "out = Fail (wrapUpstreamError (fst e) (snd e))"
      "fw_url f' = fw_url f" "fw_session f' \<in> {fw_session f, hr_session h}"
  | (panic) m where "out = Panic m"
  | (ok) a where "\<not> is_stale f r h" "hr_status h = 200"
      "decodeUpstreamResponse h = Ret a" "out = Ret (Some a, False)"
      "fw_url f' = fw_url f"
      "fw_session f' = (if req_method r = ''initialize'' \<and> hr_session h \<noteq> [] then hr_session h
                        else fw_session f)"
proof -
  note a = assms [unfolded after_response_def Let_def]
  show thesis
  proof (cases "is_stale f r h")
    case True
    then have "req_method r \<noteq> ''initialize''" by (simp add: is_stale_def)
    with True a [symmetric] show thesis by (intro stale) simp_all
  next
    case False
    show thesis
    proof (cases "hr_status h = 200")
      case False
      with \<open>\<not> is_stale f r h\<close> a [symmetric] show thesis
        by (intro fail [of "(''upstream returned status '' @ itoa (hr_status h), None)"]) (auto split: if_splits)
    next
      case True
      show thesis
      proof (cases "decodeUpstreamResponse h")
        case (Ret x)
        with True False a [symmetric] show thesis by (intro ok) simp_all
      next
        case (Fail e)
        with True False a [symmetric] show thesis
          by (intro fail [of "(''decode upstream response'', Some e)"]) (auto split: if_splits)
      next
        case (Panic m)
        with True False a [symmetric] show thesis by (intro panic) simp_all
      qed
    qed
  qed
qed

text \<open>One logged request: what is appended to the log and what the result says about it.\<close>

lemma doRequest_logged:
  assumes "doRequest (logged T) f r (l, w) = (out, f', (l', w'))"
  obtains (unsent) e where "l' = l" "out = Fail e" "f' = f" "w' = w"
  | (broken) e where "l' = l @ [(upstream_request f r, Fail e)]" "f' = f"
      "out = Fail (wrapUpstreamError (upstreamFailureMessage (Some e)) (Some e))"
  | (panicked) m where "l' = l @ [(upstream_request f r, Panic m)]" "out = Panic m" "f' = f"
  | (answered) h where "l' = l @ [(upstream_request f r, Ret h)]"
      "after_response f r h = (out, f')"
proof (cases "tr_build T (fw_url f)")
  case (Some e)
  with assms [symmetric] show thesis by (intro unsent) (simp_all add: doRequest_def)
next
  case None
  obtain x w1 where d: "tr_do T (upstream_request f r) w = (x, w1)"
    by (cases "tr_do T (upstream_request f r) w")
  note a = assms [symmetric, unfolded doRequest_def]
  show thesis
  proof (cases x)
    case (Ret h)
    with None d a show thesis by (intro answered [of h]) (simp_all add: logged_def split: prod.splits)
  next
    case (Fail e)
    with None d a show thesis by (intro broken) (simp_all add: logged_def)
  next
    case (Panic m)
    with None d a show thesis by (intro panicked) (simp_all add: logged_def)
  qed
qed

lemma doRequest_Ret_logged:
  assumes "doRequest (logged T) f r (l, w) = (Ret (a, stale), f', (l', w'))"
  obtains h where "l' = l @ [(upstream_request f r, Ret h)]" "stale = is_stale f r h"
    "fw_url f' = fw_url f"
    "if stale then a = None \<and> fw_session f' = []
     else hr_status h = 200 \<and> (\<exists>x. a = Some x \<and> decodeUpstreamResponse h = Ret x) \<and>
       fw_session f' = (if req_method r = ''initialize'' \<and> hr_session h \<noteq> [] then hr_session h
                        else fw_session f)"
  using assms
proof (cases rule: doRequest_logged)
  case (answered h)
  from answered(2) show thesis
    by (cases rule: after_response_cases) (auto intro!: that [OF answered(1)])
qed auto

text \<open>The states of \<open>forwarder_Handle\<close> that return a value: one request, or three.\<close>

lemma forwarder_Handle_Ret:
  assumes "forwarder_Handle T f r w = (Ret a, f', w')"
  obtains (direct) "doRequest T f r w = (Ret (a, False), f', w')"
  | (retried) b f1 w1 i f2 w2 st where "doRequest T f r w = (Ret (b, True), f1, w1)"
      "doRequest T f1 (reinit_request r) w1 = (Ret i, f2, w2)"
      "doRequest T f2 r w2 = (Ret (a, st), f', w')"
proof -
  obtain o1 f1 w1 where 1: "doRequest T f r w = (o1, f1, w1)" by (cases "doRequest T f r w") auto
  with assms obtain b st where o1: "o1 = Ret (b, st)"
    by (cases o1) (auto simp: forwarder_Handle_def)
  show thesis
  proof (cases st)
    case False
    with assms 1 o1 show thesis by (intro direct) (simp add: forwarder_Handle_def)
  next
    case True
    obtain o2 f2 w2 where 2: "doRequest T f1 (reinit_request r) w1 = (o2, f2, w2)"
      by (cases "doRequest T f1 (reinit_request r) w1") auto
    with assms 1 o1 True obtain i where o2: "o2 = Ret i"
      by (cases o2) (auto simp: forwarder_Handle_def revalidateSession_def)
    obtain o3 f3 w3 where 3: "doRequest T f2 r w2 = (o3, f3, w3)" by (cases "doRequest T f2 r w2") auto
    with assms 1 o1 True 2 o2 obtain a' s' where o3: "o3 = Ret (a', s')"
      by (cases o3) (auto simp: forwarder_Handle_def revalidateSession_def)
    from assms 1 o1 True 2 o2 3 o3 have "a' = a" "f3 = f'" "w3 = w'"
      by (simp_all add: forwarder_Handle_def revalidateSession_def)
    with 1 o1 True 2 o2 3 o3 show thesis by (intro retried) simp_all
  qed
qed

text \<open>What is sent: the request, and at most an \<open>initialize\<close> for it.\<close>

definition sent_for :: "rpc_request \<Rightarrow> (http_req \<times> http_resp go) list \<Rightarrow> bool" where
  "sent_for r x = (\<forall>q \<in> fst ` set x. hq_body q \<in> {encode_request r, encode_request (reinit_request r)})"

lemma doRequest_sends:
  assumes "doRequest (logged T) f q (l, w) = (out, f', (l', w'))" "q = r \<or> q = reinit_request r"
  shows "\<exists>x. l' = l @ x \<and> sent_for r x"
proof -
  have b: "hq_body (upstream_request f q) = encode_request q" by (simp add: upstream_request_def)
  from assms(1) show ?thesis
    by (cases rule: doRequest_logged) (use assms(2) b in \<open>auto simp: sent_for_def\<close>)
qed

lemma forwarder_sends:
  assumes "forwarder_Handle (logged T) f r (l, w) = (out, f', (l', w'))"
  shows "\<exists>x. l' = l @ x \<and> sent_for r x"
proof -
  obtain o1 f1 l1 w1 where 1: "doRequest (logged T) f r (l, w) = (o1, f1, (l1, w1))"
    by (metis prod.exhaust)
  obtain o2 f2 l2 w2 where 2: "doRequest (logged T) f1 (reinit_request r) (l1, w1) = (o2, f2, (l2, w2))"
    by (metis prod.exhaust)
  obtain o3 f3 l3 w3 where 3: "doRequest (logged T) f2 r (l2, w2) = (o3, f3, (l3, w3))"
    by (metis prod.exhaust)
  from doRequest_sends [OF 1] doRequest_sends [OF 2] doRequest_sends [OF 3] obtain x y z where
    s: "l1 = l @ x" "l2 = l1 @ y" "l3 = l2 @ z" "sent_for r x" "sent_for r y" "sent_for r z"
    by blast
  from assms 1 2 3 have "l' = l1 \<or> l' = l2 \<or> l' = l3"
    by (auto simp: forwarder_Handle_def revalidateSession_def split: go.splits prod.splits if_splits)
  with s show ?thesis by (auto simp: sent_for_def image_Un)
qed

section \<open>Properties\<close>

text \<open>
  C17. Provenance: a response the forwarder returns is the decoded body of the last exchange, which
  was the given request, answered with status 200; it took one exchange, or three after the first
  was answered 404 or 400 under a session id, the second being an \<open>initialize\<close> without a session
  id.
\<close>

theorem forwarder_answer_provenance:
  assumes "forwarder_Handle (logged T) f r ([], w) = (Ret (Some a), f', (l, w'))"
  shows "\<exists>h pre g. l = pre @ [(upstream_request g r, Ret h)] \<and> hr_status h = 200 \<and>
    decodeUpstreamResponse h = Ret a \<and>
    (pre = [] \<and> g = f \<or>
     (\<exists>h1 h2. pre = [(upstream_request f r, Ret h1),
                     (upstream_request (f\<lparr>fw_session := []\<rparr>) (reinit_request r), Ret h2)] \<and>
        is_stale f r h1 \<and> hr_status h2 = 200 \<and> g = f\<lparr>fw_session := hr_session h2\<rparr>))"
  using assms
proof (cases rule: forwarder_Handle_Ret)
  case direct
  from direct show ?thesis
    by (rule doRequest_Ret_logged) auto
next
  case (retried b f1 w1 i f2 w2 st)
  obtain l1 v1 l2 v2 where w: "w1 = (l1, v1)" "w2 = (l2, v2)" by (cases w1, cases w2)
  obtain i1 i2 where i: "i = (i1, i2)" by (cases i)
  from retried(1) [unfolded w] obtain h1 where 1: "l1 = [(upstream_request f r, Ret h1)]"
    "is_stale f r h1" "fw_url f1 = fw_url f" "fw_session f1 = []"
    by (rule doRequest_Ret_logged) auto
  then have f1: "f1 = f\<lparr>fw_session := []\<rparr>" by (cases f1; cases f) simp
  from retried(2) [unfolded w i] obtain h2 where 2:
    "l2 = l1 @ [(upstream_request f1 (reinit_request r), Ret h2)]" "hr_status h2 = 200"
    "fw_url f2 = fw_url f1" "fw_session f2 = hr_session h2"
    by (rule doRequest_Ret_logged) (auto simp: 1 split: if_splits)
  then have f2: "f2 = f\<lparr>fw_session := hr_session h2\<rparr>" by (cases f2; cases f; simp add: f1)
  from retried(3) [unfolded w] obtain h3 where 3: "l = l2 @ [(upstream_request f2 r, Ret h3)]"
    "hr_status h3 = 200" "decodeUpstreamResponse h3 = Ret a"
    by (rule doRequest_Ret_logged) (auto split: if_splits)
  show ?thesis
    using 1 2 3 f1 f2 by (intro exI [of _ h3] exI [of _ l2] exI [of _ f2]) auto
qed

text \<open>A transport for the examples: it answers from a list of responses.\<close>

definition demo_transport :: "http_resp list transport" where
  "demo_transport =
     \<lparr>tr_build = (\<lambda>_. None),
      tr_do = (\<lambda>q hs. case hs of [] \<Rightarrow> (Fail (EMsg ''EOF''), []) | h # r \<Rightarrow> (Ret h, r))\<rparr>"

definition demo_http :: "int \<Rightarrow> string \<Rightarrow> http_resp" where
  "demo_http st sid =
     \<lparr>hr_status = st, hr_session = sid, hr_ctype = [], hr_body = ''{}'',
      hr_read_err = None\<rparr>"

definition demo_forwarder :: forwarder where
  "demo_forwarder = \<lparr>fw_url = ''http://up'', fw_session = ''s1''\<rparr>"

definition demo_call :: rpc_request where
  "demo_call = \<lparr>req_jsonrpc = ''2.0'', req_id = Some JNull, req_method = ''tools/call'',
     req_params = Some (JObj [(''name'', JStr ''create_refund'')])\<rparr>"

lemma demo_simps [simp]:
  "tr_build demo_transport u = None"
  "tr_do demo_transport q (h # hs) = (Ret h, hs)"
  "hr_status (demo_http st sid) = st" "hr_session (demo_http st sid) = sid"
  by (simp_all add: demo_transport_def demo_http_def)

lemma demo_decode [simp]: "decodeUpstreamResponse (demo_http st sid) = Ret empty_response"
proof -
  have "ParseMediaType [] = None" "parse_json ''{}'' = Some (JObj [])" by code_simp+
  then show ?thesis
    by (simp add: decodeUpstreamResponse_def demo_http_def demo_transport_def decode_response_def
        unmarshal_struct_def decode_struct_def)
qed

lemma demo_logged: "tr_do (logged demo_transport) q (l, h # hs) = (Ret h, (l @ [(q, Ret h)], hs))"
  by (simp add: logged_def)

theorem forwarder_answer_provenance_witness:
  "\<exists>h. hr_status h = 200 \<and>
     decodeUpstreamResponse h = Ret empty_response"
proof -
  have "forwarder_Handle (logged demo_transport) demo_forwarder demo_call ([], [demo_http 200 []]) =
      (Ret (Some empty_response), demo_forwarder,
       ([(upstream_request demo_forwarder demo_call, Ret (demo_http 200 []))], []))"
    by (simp add: forwarder_Handle_def doRequest_def after_response_def is_stale_def demo_logged
        demo_call_def)
  from forwarder_answer_provenance [OF this] show ?thesis by blast
qed

text \<open>
  C30. Recovery: when the cached upstream session was dropped (404 or 400), the forwarder obtains a
  new one and the caller gets the upstream's answer to the repeated request; the new session id is
  kept for later requests.
\<close>

theorem forwarder_recovers_session:
  assumes "fw_session f \<noteq> []" and "req_method r \<noteq> ''initialize''" and "\<And>u. tr_build T u = None"
    and "tr_do T (upstream_request f r) w = (Ret h1, w1)" and "hr_status h1 \<in> {404, 400}"
    and "tr_do T (upstream_request (f\<lparr>fw_session := []\<rparr>) (reinit_request r)) w1 = (Ret h2, w2)"
    and "hr_status h2 = 200" and "hr_session h2 = s2" and "s2 \<noteq> []"
    and "decodeUpstreamResponse h2 = Ret i"
    and "tr_do T (upstream_request (f\<lparr>fw_session := s2\<rparr>) r) w2 = (Ret h3, w3)"
    and "hr_status h3 = 200" and "decodeUpstreamResponse h3 = Ret a"
  shows "forwarder_Handle T f r w = (Ret (Some a), f\<lparr>fw_session := s2\<rparr>, w3)"
proof -
  have 1: "doRequest T f r w = (Ret (None, True), f\<lparr>fw_session := []\<rparr>, w1)"
    using assms(1-5) by (auto simp: doRequest_def after_response_def is_stale_def)
  have 2: "doRequest T (f\<lparr>fw_session := []\<rparr>) (reinit_request r) w1 =
      (Ret (Some i, False), f\<lparr>fw_session := s2\<rparr>, w2)"
    using assms(3,6-10) by (simp add: doRequest_def after_response_def)
  have 3: "doRequest T (f\<lparr>fw_session := s2\<rparr>) r w2 = (Ret (Some a, False), f\<lparr>fw_session := s2\<rparr>, w3)"
    using assms(2,3,11-13) by (simp add: doRequest_def after_response_def is_stale_def)
  from 1 2 3 show ?thesis by (simp add: forwarder_Handle_def revalidateSession_def)
qed

theorem forwarder_recovers_session_witness:
  "forwarder_Handle demo_transport demo_forwarder demo_call
     [demo_http 404 [], demo_http 200 ''s2'', demo_http 200 []] =
   (Ret (Some empty_response), demo_forwarder\<lparr>fw_session := ''s2''\<rparr>, [])"
  by (rule forwarder_recovers_session
        [where ?h1.0 = "demo_http 404 []" and ?h2.0 = "demo_http 200 ''s2''" and ?h3.0 = "demo_http 200 []"
         and ?w1.0 = "[demo_http 200 ''s2'', demo_http 200 []]" and ?w2.0 = "[demo_http 200 []]"])
     (simp_all add: demo_forwarder_def demo_call_def)

text \<open>
  The forwarder returns neither a response nor an error only when the request is answered 404
  or 400 both before and after a successful re-initialisation: a second rejection of the repeated
  request is dropped. The caller then answers \<open>204 No Content\<close>.
\<close>

theorem forwarder_silent_iff_rejected_twice:
  assumes "forwarder_Handle (logged T) f r ([], w) = (Ret None, f', (l, w'))"
  shows "\<exists>g h1 h2 h3. l =
      [(upstream_request f r, Ret h1),
       (upstream_request (f\<lparr>fw_session := []\<rparr>) (reinit_request r), Ret h2),
       (upstream_request g r, Ret h3)] \<and>
    hr_status h1 \<in> {404, 400} \<and> hr_status h2 = 200 \<and> hr_status h3 \<in> {404, 400} \<and>
    fw_session g = hr_session h2 \<and> fw_session g \<noteq> [] \<and> fw_session f' = []"
  using assms
proof (cases rule: forwarder_Handle_Ret)
  case direct
  then show ?thesis by (rule doRequest_Ret_logged) auto
next
  case (retried b f1 w1 i f2 w2 st)
  obtain l1 v1 l2 v2 where w: "w1 = (l1, v1)" "w2 = (l2, v2)" by (cases w1, cases w2)
  obtain i1 i2 where i: "i = (i1, i2)" by (cases i)
  from retried(1) [unfolded w] obtain h1 where 1: "l1 = [(upstream_request f r, Ret h1)]"
    "is_stale f r h1" "fw_url f1 = fw_url f" "fw_session f1 = []"
    by (rule doRequest_Ret_logged) auto
  then have f1: "f1 = f\<lparr>fw_session := []\<rparr>" by (cases f1; cases f) simp
  from retried(2) [unfolded w i] obtain h2 where 2:
    "l2 = l1 @ [(upstream_request f1 (reinit_request r), Ret h2)]" "hr_status h2 = 200"
    "fw_session f2 = hr_session h2"
    by (rule doRequest_Ret_logged) (auto simp: 1 split: if_splits)
  from retried(3) [unfolded w] obtain h3 where 3: "l = l2 @ [(upstream_request f2 r, Ret h3)]"
    "is_stale f2 r h3" "fw_session f' = []"
    by (rule doRequest_Ret_logged) (auto split: if_splits)
  show ?thesis
    using 1 2 3 f1
    by (intro exI [of _ f2] exI [of _ h1] exI [of _ h2] exI [of _ h3]) (auto simp: is_stale_def)
qed

theorem forwarder_silent_iff_rejected_twice_witness:
  "\<exists>l. fst (forwarder_Handle (logged demo_transport) demo_forwarder demo_call
        ([], [demo_http 404 [], demo_http 200 ''s2'', demo_http 400 []])) = Ret None \<and>
     length (l :: (http_req \<times> http_resp go) list) = 3"
proof -
  obtain l f' w' where e: "forwarder_Handle (logged demo_transport) demo_forwarder demo_call
        ([], [demo_http 404 [], demo_http 200 ''s2'', demo_http 400 []]) = (Ret None, f', (l, w'))"
    by (simp add: forwarder_Handle_def revalidateSession_def doRequest_def after_response_def demo_logged
        is_stale_def demo_forwarder_def demo_call_def)
  from forwarder_silent_iff_rejected_twice [OF e] have "length l = 3" by auto
  with e show ?thesis by auto
qed

end
