(* ===== verification/Lark_Notifier.thy ===== *)
theory Lark_Notifier
  imports Lark_Webhook Forwarder
begin

text \<open>
  \<open>cmd/gateway/slack_notifier.go\<close>: the card with an Approve and a Deny button that is sent to Lark
  for a held call. The HTTP client and the text of a received JSON value are the fields of
  \<open>lark_http\<close>; the card is encoded by \<open>json_text\<close>, without numbers.
\<close>

record 'w lark_http =
  lh_transport :: "'w transport"
  lh_text :: "json \<Rightarrow> string"

record lark_client =
  lc_app_id :: string
  lc_app_secret :: string
  lc_chat :: string
  lc_base :: string

definition larkAPIBaseURL :: string where
  "larkAPIBaseURL = ''https://open.feishu.cn/open-apis''"

definition NewLarkClient :: "string \<Rightarrow> string \<Rightarrow> string \<Rightarrow> string \<Rightarrow> lark_client" where
  "NewLarkClient app secret chat base =
     \<lparr>lc_app_id = app, lc_app_secret = secret, lc_chat = chat,
      lc_base = (if base = [] then larkAPIBaseURL else base)\<rparr>"

section \<open>The tenant token\<close>

record token_resp =
  tk_code :: int
  tk_msg :: string
  tk_token :: string

definition token_field :: "string \<Rightarrow> json \<Rightarrow> token_resp \<Rightarrow> token_resp option" where
  "token_field k v t =
     (if key_is ''code'' k then map_option (\<lambda>i. t\<lparr>tk_code := i\<rparr>) (decode_int v (tk_code t))
      else if key_is ''msg'' k then map_option (\<lambda>s. t\<lparr>tk_msg := s\<rparr>) (decode_str v (tk_msg t))
      else if key_is ''tenant_access_token'' k
      then map_option (\<lambda>s. t\<lparr>tk_token := s\<rparr>) (decode_str v (tk_token t))
      else Some t)"

definition lark_error :: "string \<Rightarrow> string" where
  "lark_error m = ''lark notifier: '' @ m"

definition token_request :: "lark_client \<Rightarrow> http_req" where
  "token_request c =
     \<lparr>hq_url = lc_base c @ ''/auth/v3/tenant_access_token/internal'',
      hq_headers = [(''Content-Type'', ''application/json'')],
      hq_body = JObj [(''app_id'', JStr (lc_app_id c)), (''app_secret'', JStr (lc_app_secret c))]\<rparr>"

definition token_of_response :: "http_resp \<Rightarrow> string go" where
  "token_of_response h =
     (if hr_status h \<noteq> 200 then
        Fail (EMsg (lark_error (''token endpoint status '' @ itoa (hr_status h))))
      else
        (case unmarshal_struct token_field (parse_json (hr_body h)) \<lparr>tk_code = 0, tk_msg = [], tk_token = []\<rparr> of
           None \<Rightarrow> Fail (EWrap (lark_error ''decode token response'') EJson)
         | Some t \<Rightarrow>
             if tk_code t \<noteq> 0 then
               Fail (EMsg (lark_error (''token error code '' @ itoa (tk_code t) @ '': '' @ tk_msg t)))
             else Ret (tk_token t)))"

text \<open>One HTTP exchange, with the prefixes of its two possible errors.\<close>

definition lark_exchange ::
  "'w transport \<Rightarrow> string \<Rightarrow> http_req \<Rightarrow> 'w \<Rightarrow> http_resp go \<times> 'w" where
  "lark_exchange T what q w =
     (case tr_build T (hq_url q) of
        Some e \<Rightarrow> (Fail (EWrap (lark_error (''build '' @ what @ '' request'')) e), w)
      | None \<Rightarrow>
          (case tr_do T q w of
             (Fail e, w1) \<Rightarrow> (Fail (EWrap (lark_error (what @ '' http request'')) e), w1)
           | out \<Rightarrow> out))"

definition fetchTenantToken :: "'w transport \<Rightarrow> lark_client \<Rightarrow> 'w \<Rightarrow> string go \<times> 'w" where
  "fetchTenantToken T c w =
     (case lark_exchange T ''token'' (token_request c) w of
        (Fail e, w1) \<Rightarrow> (Fail e, w1)
      | (Panic m, w1) \<Rightarrow> (Panic m, w1)
      | (Ret h, w1) \<Rightarrow> (token_of_response h, w1))"

section \<open>The card\<close>

definition larkArgsTruncateAt :: nat where "larkArgsTruncateAt = 2000"

definition truncateArgs :: "string \<Rightarrow> string" where
  "truncateArgs s =
     (if length s > larkArgsTruncateAt then take larkArgsTruncateAt s @ ''... [truncated]'' else s)"

definition larkCardText :: "string \<Rightarrow> string \<Rightarrow> json" where
  "larkCardText tag content = JObj [(''tag'', JStr tag), (''content'', JStr content)]"

text \<open>The members of the button's value are a Go map: they are encoded in the order of their keys.\<close>

definition button_value :: "string \<Rightarrow> string \<Rightarrow> json" where
  "button_value ticket act = JObj [(''action'', JStr act), (''ticket_id'', JStr ticket)]"

definition larkCardButton :: "string \<Rightarrow> string \<Rightarrow> string \<Rightarrow> string \<Rightarrow> json" where
  "larkCardButton label ty ticket act =
     JObj [(''tag'', JStr ''button''), (''text'', larkCardText ''plain_text'' label), (''type'', JStr ty),
           (''value'', button_value ticket act)]"

definition approval_card :: "string \<Rightarrow> string \<Rightarrow> json" where
  "approval_card ticket card_text =
     JObj [(''config'', JObj [(''wide_screen_mode'', JBool True)]),
           (''elements'', JArr
              [JObj [(''tag'', JStr ''div''), (''text'', larkCardText ''lark_md'' card_text)],
               JObj [(''tag'', JStr ''action''),
                     (''actions'', JArr [larkCardButton ''Approve'' ''primary'' ticket ''approve'',
                                         larkCardButton ''Deny'' ''danger'' ticket ''deny''])]])]"

definition card_text :: "'w lark_http \<Rightarrow> ticket_record \<Rightarrow> string" where
  "card_text L t =
     ''**Tool:** '' @ tr_tool t @ [CHR 10] @ ''**Arguments:** '' @
     truncateArgs (case tr_args t of None \<Rightarrow> [] | Some v \<Rightarrow> lh_text L v) @ [CHR 10] @
     ''**Session:** '' @ tr_session t"

definition message_request :: "'w lark_http \<Rightarrow> lark_client \<Rightarrow> string \<Rightarrow> string \<Rightarrow> ticket_record \<Rightarrow> http_req" where
  "message_request L c token ticket t =
     \<lparr>hq_url = lc_base c @ ''/im/v1/messages?receive_id_type=chat_id'',
      hq_headers = [(''Authorization'', ''Bearer '' @ token), (''Content-Type'', ''application/json'')],
      hq_body = JObj [(''receive_id'', JStr (lc_chat c)), (''msg_type'', JStr ''interactive''),
                      (''content'', JStr (marshal (approval_card ticket (card_text L t))))]\<rparr>"

definition SendApprovalRequest ::
  "'w lark_http \<Rightarrow> lark_client \<Rightarrow> string \<Rightarrow> ticket_record \<Rightarrow> 'w \<Rightarrow> unit go \<times> 'w" where
  "SendApprovalRequest L c ticket t w =
     (case fetchTenantToken (lh_transport L) c w of
        (Fail e, w1) \<Rightarrow> (Fail e, w1)
      | (Panic m, w1) \<Rightarrow> (Panic m, w1)
      | (Ret token, w1) \<Rightarrow>
          (case lark_exchange (lh_transport L) ''message'' (message_request L c token ticket t) w1 of
             (Fail e, w2) \<Rightarrow> (Fail e, w2)
           | (Panic m, w2) \<Rightarrow> (Panic m, w2)
           | (Ret h, w2) \<Rightarrow>
               if hr_status h \<noteq> 200 then
                 (Fail (EMsg (lark_error (''unexpected status '' @ itoa (hr_status h) @ '': '' @ hr_body h))), w2)
               else (Ret (), w2)))"

section \<open>Lemmas\<close>

lemma length_truncateArgs: "length (truncateArgs s) \<le> 2015"
  by (simp add: truncateArgs_def larkArgsTruncateAt_def)

lemma truncateArgs_prefix: "take 2000 (truncateArgs s) = take 2000 s"
  by (simp add: truncateArgs_def larkArgsTruncateAt_def)

lemma value_field_keys:
  "value_field ''ticket_id'' (JStr s) a = Some (a\<lparr>av_ticket := s\<rparr>)"
  "value_field ''action'' (JStr s) a = Some (a\<lparr>av_action := s\<rparr>)"
  by (simp_all add: value_field_def key_eval decode_str_def)

lemma action_field_keys:
  "action_field ''tag'' (JStr s) a = Some (a\<lparr>ca_tag := s\<rparr>)"
  "action_field ''value'' v a = map_option (\<lambda>x. a\<lparr>ca_value := x\<rparr>) (decode_struct value_field v (ca_value a))"
  by (simp_all add: action_field_def key_eval decode_str_def)

lemma one_string_key: "one_string k k (JStr s) x = Some s"
  by (simp add: one_string_def key_is_def decode_str_def)

lemma event_field_keys:
  "event_field ''operator'' v p = map_option (\<lambda>s. (s, snd p)) (decode_struct (one_string ''open_id'') v (fst p))"
  "event_field ''action'' v p = map_option (\<lambda>a. (fst p, a)) (decode_struct action_field v (snd p))"
  by (simp_all add: event_field_def key_eval)

lemma envelope_field_keys:
  "envelope_field ''schema'' (JStr s) e = Some (e\<lparr>en_schema := s\<rparr>)"
  "envelope_field ''header'' v e =
     map_option (\<lambda>s. e\<lparr>en_header_token := s\<rparr>) (decode_struct (one_string ''token'') v (en_header_token e))"
  "envelope_field ''event'' v e =
     map_option (\<lambda>(s, a). e\<lparr>en_operator := s, en_event_action := a\<rparr>)
       (decode_struct event_field v (en_operator e, en_event_action e))"
  "envelope_field ''token'' (JStr s) e = Some (e\<lparr>en_token := s\<rparr>)"
  "envelope_field ''open_id'' (JStr s) e = Some (e\<lparr>en_open_id := s\<rparr>)"
  "envelope_field ''action'' v e =
     map_option (\<lambda>a. e\<lparr>en_action := a\<rparr>) (decode_struct action_field v (en_action e))"
  by (simp_all add: envelope_field_def key_eval decode_str_def)

lemma challenge_field_keys:
  "challenge_field ''token'' v p = Some p" "challenge_field ''open_id'' v p = Some p"
  "challenge_field ''action'' v p = Some p" "challenge_field ''schema'' v p = Some p"
  "challenge_field ''header'' v p = Some p" "challenge_field ''event'' v p = Some p"
  by (simp_all add: challenge_field_def key_eval)

lemma decode_button_value:
  "decode_struct value_field (button_value ticket act) a = Some \<lparr>av_ticket = ticket, av_action = act\<rparr>"
  by (cases a) (simp add: decode_struct_def button_value_def value_field_keys)

text \<open>The callbacks that Lark makes of a pressed button, in the flat and in the nested form.\<close>

definition flat_callback :: "string \<Rightarrow> string \<Rightarrow> json \<Rightarrow> json" where
  "flat_callback token user v =
     JObj [(''open_id'', JStr user), (''token'', JStr token),
           (''action'', JObj [(''value'', v), (''tag'', JStr ''button'')])]"

definition nested_callback :: "string \<Rightarrow> string \<Rightarrow> json \<Rightarrow> json" where
  "nested_callback token user v =
     JObj [(''schema'', JStr ''2.0''), (''header'', JObj [(''token'', JStr token)]),
           (''event'', JObj [(''operator'', JObj [(''open_id'', JStr user)]),
                             (''action'', JObj [(''value'', v), (''tag'', JStr ''button'')])])]"

lemma callback_decodes:
  assumes "cb \<in> {flat_callback, nested_callback}"
  shows "challenge_of (Some (cb token user (button_value ticket act))) = None \<and>
    (\<exists>e. decode_envelope (Some (cb token user (button_value ticket act))) = Some e \<and>
       normalise e = (token, user, \<lparr>ca_tag = ''button'', ca_value = \<lparr>av_ticket = ticket, av_action = act\<rparr>\<rparr>))"
proof -
  have c: "decode_struct action_field (JObj [(''value'', button_value ticket act), (''tag'', JStr ''button'')]) empty_action =
      Some \<lparr>ca_tag = ''button'', ca_value = \<lparr>av_ticket = ticket, av_action = act\<rparr>\<rparr>"
    by (simp add: decode_struct_def [of action_field] action_field_keys decode_button_value empty_action_def)
  from assms consider "cb = flat_callback" | "cb = nested_callback" by auto
  then show ?thesis
  proof cases
    case 1
    with c show ?thesis
      by (simp add: flat_callback_def challenge_of_def decode_envelope_def unmarshal_struct_def
          decode_struct_def [of challenge_field] decode_struct_def [of envelope_field]
          challenge_field_keys envelope_field_keys empty_envelope_def normalise_def)
  next
    case 2
    with c show ?thesis
      by (simp add: nested_callback_def challenge_of_def decode_envelope_def unmarshal_struct_def
          decode_struct_def [of challenge_field] decode_struct_def [of envelope_field]
          decode_struct_def [of event_field] decode_struct_def [of "one_string n" for n]
          challenge_field_keys envelope_field_keys event_field_keys one_string_key empty_envelope_def
          normalise_def)
  qed
qed

lemma button_recorded:
  assumes "(act, status) \<in> {(''approve'', ''approved''), (''deny'', ''denied'')}" and "ticket \<noteq> []"
    and "cb \<in> {flat_callback, nested_callback}"
    and "parse_json (wr_body q) = Some (cb (wh_token H) user (button_value ticket act))"
    and "wr_timestamp q = []" and "wr_read_err q = None"
  shows "webhook_ServeHTTP H q w = record_decision H ticket status user w"
proof -
  from callback_decodes [OF assms(3), of "wh_token H" user ticket act] obtain e where
    "challenge_of (parse_json (wr_body q)) = None" "decode_envelope (parse_json (wr_body q)) = Some e"
    "normalise e = (wh_token H, user, \<lparr>ca_tag = ''button'', ca_value = \<lparr>av_ticket = ticket, av_action = act\<rparr>\<rparr>)"
    unfolding assms(4) by blast
  moreover have "status_of_action act = Some status"
    using assms(1) by (auto simp: status_of_action_def)
  ultimately show ?thesis
    using assms(2,5,6)
    by (simp add: webhook_ServeHTTP_def lark_callback_def lark_refusal_def route_action_def)
qed

section \<open>Properties\<close>

text \<open>
  Round trip of the card: when Lark calls back, in either form, with the value of one of the
  card's buttons and the verification token, the webhook records for the card's ticket the decision
  that is written on the button.
\<close>

theorem card_button_roundtrip:
  assumes "(act, status) \<in> {(''approve'', ''approved''), (''deny'', ''denied'')}" and "ticket \<noteq> []"
    and "cb \<in> {flat_callback, nested_callback}"
    and "parse_json (wr_body q) = Some (cb (wh_token H) user (button_value ticket act))"
    and "wr_timestamp q = []" and "wr_read_err q = None"
  shows "webhook_ServeHTTP H q w = record_decision H ticket status user w"
  using assms by (rule button_recorded)

text \<open>Collaborators for the examples: the tickets, the outcomes of the publications to come, no log.\<close>

definition demo_webhook :: "(ticket_store \<times> goerr option list) webhook_env" where
  "demo_webhook = NewLarkWebhookHandler ''tok'' (\<lambda>s. []) (\<lambda>w. 1700000000)
     (\<lambda>i st u (s, k). case ts_update_status i st u s of (e, s1) \<Rightarrow> (e, (s1, k)))
     (\<lambda>ch m (s, k). case next_fault k of (e, k1) \<Rightarrow> (e, (s, k1))) (\<lambda>x w. w)"

definition demo_press :: "json \<Rightarrow> lark_request" where
  "demo_press v = \<lparr>wr_body = marshal v, wr_read_err = None, wr_timestamp = [], wr_nonce = [], wr_signature = []\<rparr>"

lemma demo_press_simps:
  "wr_timestamp (demo_press v) = []" "wr_read_err (demo_press v) = None"
  by (simp_all add: demo_press_def)

lemma demo_press_read:
  assumes "cb \<in> {flat_callback, nested_callback}"
    and "list_all (\<lambda>s. valid_bytes s = s) [token, user, ticket, act]"
  shows "parse_json (wr_body (demo_press (cb token user (button_value ticket act)))) = Some (cb token user (button_value ticket act))"
proof -
  have "readable (cb token user (button_value ticket act))"
    using assms by (auto simp: readable_def flat_callback_def nested_callback_def button_value_def maxNestingDepth_def)
  then show ?thesis unfolding demo_press_def by (simp add: parse_marshal del: json_text.simps)
qed

theorem card_button_roundtrip_witness:
  "webhook_ServeHTTP demo_webhook (demo_press (nested_callback ''tok'' ''ou_1'' (button_value ''a1'' ''deny'')))
      (demo_store, []) =
   record_decision demo_webhook ''a1'' ''denied''
      ''ou_1'' (demo_store, [])"
  by (rule card_button_roundtrip [where act = "''deny''" and cb = nested_callback])
     (simp_all add: demo_webhook_def NewLarkWebhookHandler_def demo_press_simps demo_press_read)

text \<open>
  The notifier asks for a token first and sends the card only with a token it was given: the
  exchanges are none, the token request alone, or the token request and the message with that
  token; it reports success exactly when both were answered with status 200.
\<close>

theorem notifier_exchanges:
  assumes "lh_transport L = logged T"
    and "SendApprovalRequest L c ticket t ([], w) = (out, (l, w'))"
  shows "l = [] \<and> \<not> is_ret out \<or>
    (\<exists>r. l = [(token_request c, r)] \<and> \<not> is_ret out) \<or>
    (\<exists>h token r. l = [(token_request c, Ret h), (message_request L c token ticket t, r)] \<and>
       token_of_response h = Ret token \<and> (is_ret out \<longleftrightarrow> (\<exists>h2. r = Ret h2 \<and> hr_status h2 = 200)))"
proof -
  have ex: "lark_exchange (logged T) what q (l0, v) = (x, (l1, v1)) \<Longrightarrow>
      (l1 = l0 \<and> \<not> is_ret x) \<or> (\<exists>h. l1 = l0 @ [(q, Ret h)] \<and> x = Ret h) \<or>
      (\<exists>r. l1 = l0 @ [(q, r)] \<and> \<not> is_ret x \<and> \<not> is_ret r)" for what q l0 v x l1 v1
    by (cases "tr_do T q v"; cases "fst (tr_do T q v)")
       (auto simp: lark_exchange_def logged_def split: option.splits)
  obtain x l1 w1 where 1: "lark_exchange (logged T) ''token'' (token_request c) ([], w) = (x, (l1, w1))"
    by (metis prod.exhaust)
  show ?thesis
  proof (cases "\<exists>h token. x = Ret h \<and> token_of_response h = Ret token")
    case False
    then have "\<not> is_ret out \<and> l = l1"
      using assms 1
      by (cases x) (auto simp: SendApprovalRequest_def fetchTenantToken_def split: go.splits)
    with ex [OF 1] show ?thesis by auto
  next
    case True
    then obtain h token where h: "x = Ret h" "token_of_response h = Ret token" by blast
    with ex [OF 1] have l1: "l1 = [(token_request c, Ret h)]" by auto
    obtain y l2 w2 where 2: "lark_exchange (logged T) ''message'' (message_request L c token ticket t) (l1, w1) = (y, (l2, w2))"
      by (metis prod.exhaust)
    have o: "l = l2 \<and> (is_ret out \<longleftrightarrow> (\<exists>h2. y = Ret h2 \<and> hr_status h2 = 200))"
      using assms 1 h 2
      by (cases y) (auto simp: SendApprovalRequest_def fetchTenantToken_def split: if_splits)
    from ex [OF 2] show ?thesis
    proof (elim disjE exE conjE)
      assume "l2 = l1" "\<not> is_ret y"
      with l1 o show ?thesis by auto
    next
      fix h2 assume "l2 = l1 @ [(message_request L c token ticket t, Ret h2)]" "y = Ret h2"
      with l1 h o show ?thesis by auto
    next
      fix r assume "l2 = l1 @ [(message_request L c token ticket t, r)]" "\<not> is_ret y" "\<not> is_ret r"
      with l1 h o show ?thesis by auto
    qed
  qed
qed

theorem notifier_exchanges_witness:
  "\<exists>out l w'. SendApprovalRequest \<lparr>lh_transport = logged demo_transport, lh_text = (\<lambda>v. ''{}'')\<rparr>
      (NewLarkClient ''app'' ''secret'' ''chat'' []) ''a1'' demo_ticket ([], [demo_http 500 []]) = (out, (l, w')) \<and>
     \<not> is_ret out"
proof -
  let ?c = "NewLarkClient ''app'' ''secret'' ''chat'' []"
  have r: "SendApprovalRequest \<lparr>lh_transport = logged demo_transport, lh_text = (\<lambda>v. ''{}'')\<rparr> ?c ''a1'' demo_ticket
      ([], [demo_http 500 []]) =
      (Fail (EMsg (lark_error (''token endpoint status '' @ itoa 500))), ([(token_request ?c, Ret (demo_http 500 []))], []))"
    by (simp add: SendApprovalRequest_def fetchTenantToken_def lark_exchange_def demo_logged token_of_response_def)
  have "lh_transport \<lparr>lh_transport = logged demo_transport, lh_text = (\<lambda>v. ''{}'')\<rparr> = logged demo_transport"
    by simp
  from notifier_exchanges [OF this r] r show ?thesis by auto
qed

theorem webhook_effects_authentic_witness:
  "\<exists>rep w'. webhook_ServeHTTP (watched demo_webhook)
      (demo_press (flat_callback ''tok'' ''ou_1'' (button_value ''a1'' ''deny''))) ([], (demo_store, [])) = (rep, ([WhUpdate ''a1'' ''denied'' ''ou_1'' True, WhPublish ''approvals:a1'' ''denied''], w')) \<and>
     authentic demo_webhook (demo_press (flat_callback ''tok'' ''ou_1'' (button_value ''a1'' ''deny''))) ''tok'' (demo_store, [])"
proof -
  let ?v = "flat_callback ''tok'' ''ou_1'' (button_value ''a1'' ''deny'')"
  let ?H = demo_webhook and ?q = "demo_press ?v"
  have f: "wh_token ?H = ''tok''" by (simp add: demo_webhook_def NewLarkWebhookHandler_def)
  have "webhook_ServeHTTP (watched ?H) ?q ([], (demo_store, [])) =
      record_decision (watched ?H) ''a1'' ''denied'' ''ou_1'' ([], (demo_store, []))"
    by (rule button_recorded [where act = "''deny''" and cb = flat_callback])
       (simp_all add: f demo_press_simps demo_press_read)
  also obtain rep w' where "record_decision (watched ?H) ''a1'' ''denied'' ''ou_1'' ([], (demo_store, [])) =
      (rep, ([WhUpdate ''a1'' ''denied'' ''ou_1'' True, WhPublish ''approvals:a1'' ''denied''], w'))"
    by (simp add: record_decision_def watched_def demo_webhook_def NewLarkWebhookHandler_def
        ts_update_status_def demo_store_def next_fault_def Let_def)
  finally have r: "webhook_ServeHTTP (watched ?H) ?q ([], (demo_store, [])) =
      (rep, ([WhUpdate ''a1'' ''denied'' ''ou_1'' True, WhPublish ''approvals:a1'' ''denied''], w'))" .
  from webhook_effects_authentic [OF r] obtain token where "authentic ?H ?q token (demo_store, [])"
    by auto
  then have "authentic ?H ?q ''tok'' (demo_store, [])"
    by (simp add: authentic_def demo_press_simps f)
  with r show ?thesis by blast
qed

text \<open>
  The reply to a URL verification is not encoded: a challenge with quotation marks adds members of its sender's choice to
  the reply, or breaks it.
\<close>

theorem challenge_injects_member:
  assumes "wr_read_err q = None"
    and "challenge_of (parse_json (wr_body q)) = Some (a @ [CHR 34, CHR '','', CHR 34] @ k @ [CHR 34, CHR '':'', CHR 34] @ b)"
    and "plain a" "plain k" "plain b"
  shows "parse_json (rp_body (fst (webhook_ServeHTTP H q w))) = Some (JObj [(''challenge'', JStr a), (k, JStr b)])"
proof -
  define f where "f = foldl scan_step"
  define p where "p = [CHR ''{'', CHR 34] @ ''challenge'' @ [CHR 34, CHR '':'']"
  define quoted where "quoted = (\<lambda>s. [CHR 34] @ s @ [CHR 34])"
  have "rp_body (fst (webhook_ServeHTTP H q w)) = p @ quoted a @ '','' @ quoted k @ '':'' @ quoted b @ ''}''"
    using assms(1,2) by (simp add: webhook_ServeHTTP_def json_reply_def p_def quoted_def)
  moreover have "f st (x @ y) = f (f st x) y" for st x y by (simp add: f_def)
  moreover have "f (MValue, []) p = (MValue, [FObj [] ''challenge''])" unfolding f_def p_def by code_simp
  moreover have "f (MNext, [FObj kvs []]) (CHR '','' # z) = f (MKey, [FObj kvs []]) z" "f (MColon, x) (CHR '':'' # z) = f (MValue, x) z"
    "f (MNext, [FObj kvs []]) ''}'' = (MDone (JObj kvs), [])" for kvs x z
    by (simp_all add: is_space_def f_def)
  moreover have "f (MValue, x) (quoted s) = complete_value (JStr s) x" "f (MKey, FObj kvs y # x) (quoted s) = (MColon, FObj kvs s # x)"
    if "plain s" for s x kvs y
    unfolding f_def quoted_def using that by (rule scan_plain_value, rule scan_plain_key)
  ultimately show ?thesis
    using assms(3-5) by (simp add: parse_json_def flip: f_def)
qed

theorem challenge_injects_member_witness:
  "\<exists>v. parse_json (rp_body (fst (webhook_ServeHTTP demo_webhook (demo_press v) (demo_store, [])))) =
     Some (JObj [(''challenge'', JStr ''a''), (''x'', JStr ''b'')])"
proof -
  let ?ch = "''a'' @ [CHR 34, CHR '','', CHR 34] @ ''x'' @ [CHR 34, CHR '':'', CHR 34] @ ''b''"
  let ?v = "JObj [(''type'', JStr ''url_verification''), (''challenge'', JStr ?ch)]"
  have "readable ?v" by (simp add: readable_def maxNestingDepth_def)
  then have "parse_json (wr_body (demo_press ?v)) = Some ?v"
    unfolding demo_press_def lark_request.simps by (rule parse_marshal)
  then have c: "challenge_of (parse_json (wr_body (demo_press ?v))) = Some ?ch"
    by (simp add: challenge_of_def unmarshal_struct_def decode_struct_def challenge_field_def key_eval decode_str_def)
  have "parse_json (rp_body (fst (webhook_ServeHTTP demo_webhook (demo_press ?v) (demo_store, [])))) =
      Some (JObj [(''challenge'', JStr ''a''), (''x'', JStr ''b'')])"
    by (rule challenge_injects_member [OF demo_press_simps(2) c]) (simp_all add: plain_def)
  then show ?thesis by (rule exI [where x = ?v])
qed

end
