(* ===== verification/Policy.thy ===== *)
theory Policy
  imports Mcp_Types
begin

text \<open>
  \<open>core/policy\<close>: the agent policy, its validation at load time and its evaluation on a tool
  call. An action is a string, as in the source. The \<open>when\<close> map of a rule and the
  \<open>operationClasses\<close> map are lists of pairs in the order Go iterates over them, which Go does
  not fix: a lemma about every list is about every order. The YAML decoder and the file system are
  arguments.
\<close>

named_theorems policy_simps \<open>evaluation and validation of policies\<close>

section \<open>Data\<close>

abbreviation ActionAllow :: string where "ActionAllow \<equiv> ''allow''"
abbreviation ActionDeny :: string where "ActionDeny \<equiv> ''deny''"
abbreviation ActionApprovalRequired :: string where
  "ActionApprovalRequired \<equiv> ''approvalRequired''"
abbreviation ActionRedact :: string where "ActionRedact \<equiv> ''redact''"

record policy_rule =
  rule_tool :: string
  rule_action :: string
  rule_redact :: "string list"
  rule_when :: "(string \<times> gval) list"

record agent_policy =
  pol_rules :: "policy_rule list"
  pol_max_calls :: int
  pol_default :: string
  pol_classes :: "(string \<times> string) list"

record policy_decision =
  dec_action :: string
  dec_redact :: "string list"

section \<open>Validation\<close>

definition isRuleAction :: "string \<Rightarrow> bool" where
  "isRuleAction a =
     (a = ActionAllow \<or> a = ActionDeny \<or> a = ActionApprovalRequired \<or> a = ActionRedact)"

definition isOperationClass :: "string \<Rightarrow> bool" where
  "isOperationClass c = (c = ''read'' \<or> c = ''write'')"

fun validate_rules :: "nat \<Rightarrow> policy_rule list \<Rightarrow> goerr option" where
  "validate_rules i [] = None"
| "validate_rules i (r # rs) =
     (if rule_tool r = [] then
        Some (EMsg (''rules['' @ show_nat i @ ''].tool must not be empty''))
      else if \<not> isRuleAction (rule_action r) then
        Some (EMsg (''rules['' @ show_nat i @ ''].action '' @ go_quote (rule_action r) @ '' is invalid''))
      else validate_rules (Suc i) rs)"

fun validate_classes :: "(string \<times> string) list \<Rightarrow> goerr option" where
  "validate_classes [] = None"
| "validate_classes ((operation, c) # cs) =
     (if \<not> isOperationClass c then
        Some (EMsg (''operationClasses['' @ go_quote operation @ ''] '' @ go_quote c @ '' is invalid''))
      else validate_classes cs)"

definition validatePolicy :: "agent_policy \<Rightarrow> goerr option" where
  "validatePolicy p =
     (if \<not> isRuleAction (pol_default p) \<or> pol_default p = ActionApprovalRequired
         \<or> pol_default p = ActionRedact then
        Some (EMsg (''defaultAction '' @ go_quote (pol_default p) @ '' must be allow or deny''))
      else (case validate_rules 0 (pol_rules p) of
              Some e \<Rightarrow> Some e
            | None \<Rightarrow> validate_classes (pol_classes p)))"

definition LoadPolicy ::
  "(string \<Rightarrow> goerr option) \<Rightarrow> (string \<Rightarrow> agent_policy go) \<Rightarrow> string \<Rightarrow> agent_policy go" where
  "LoadPolicy os_open yaml_decode path =
     (case os_open path of
        Some e \<Rightarrow> Fail (EWrap (''open policy '' @ go_quote path) e)
      | None \<Rightarrow>
          (case yaml_decode path of
             Panic m \<Rightarrow> Panic m
           | Fail e \<Rightarrow> Fail (EWrap (''decode policy '' @ go_quote path) e)
           | Ret p \<Rightarrow>
               (case validatePolicy p of
                  Some e \<Rightarrow> Fail (EWrap (''validate policy '' @ go_quote path) e)
                | None \<Rightarrow> Ret p)))"

section \<open>Evaluation\<close>

text \<open>\<open>args\<close> is a nil map when the arguments are absent, null or no object; a read of it misses
  every key.\<close>

definition args_map :: "raw \<Rightarrow> (string \<times> gval) list" where
  "args_map args =
     (case args of None \<Rightarrow> [] | Some _ \<Rightarrow> the_default [] (fst (unmarshal_map_any args)))"

fun matchWhen :: "(string \<times> gval) list \<Rightarrow> (string \<times> gval) list \<Rightarrow> bool go" where
  "matchWhen [] args = Ret True"
| "matchWhen ((k, want) # ws) args =
     (case map_of args k of
        None \<Rightarrow> Ret False
      | Some got \<Rightarrow>
          (case iface_eq got want of
             Panic m \<Rightarrow> Panic m
           | Fail e \<Rightarrow> Fail e
           | Ret False \<Rightarrow> Ret False
           | Ret True \<Rightarrow> matchWhen ws args))"

definition rule_applies :: "policy_rule \<Rightarrow> string \<Rightarrow> (string \<times> gval) list \<Rightarrow> bool go" where
  "rule_applies r tool args =
     (if rule_tool r = tool then matchWhen (rule_when r) args else Ret False)"

fun evaluate_rules ::
  "policy_rule list \<Rightarrow> string \<Rightarrow> string \<Rightarrow> (string \<times> gval) list \<Rightarrow> policy_decision go" where
  "evaluate_rules [] dflt tool args = Ret \<lparr>dec_action = dflt, dec_redact = []\<rparr>"
| "evaluate_rules (r # rs) dflt tool args =
     (case rule_applies r tool args of
        Panic m \<Rightarrow> Panic m
      | Fail e \<Rightarrow> Fail e
      | Ret True \<Rightarrow> Ret \<lparr>dec_action = rule_action r, dec_redact = rule_redact r\<rparr>
      | Ret False \<Rightarrow> evaluate_rules rs dflt tool args)"

definition Evaluate :: "agent_policy \<Rightarrow> string \<Rightarrow> raw \<Rightarrow> policy_decision go" where
  "Evaluate p tool args = evaluate_rules (pol_rules p) (pol_default p) tool (args_map args)"

section \<open>Lemmas\<close>

lemma iface_eq_not_Fail [simp]: "iface_eq a b \<noteq> Fail e"
  by (cases a) (auto split: gval.splits)

lemma matchWhen_not_Fail [simp]: "matchWhen ws args \<noteq> Fail e"
  by (induction ws args rule: matchWhen.induct) (auto split: option.splits go.splits bool.splits)

lemma matchWhen_True_iff:
  "matchWhen ws args = Ret True \<longleftrightarrow>
     (\<forall>(k, want) \<in> set ws. \<exists>got. map_of args k = Some got \<and> iface_eq got want = Ret True)"
  by (induction ws args rule: matchWhen.induct) (auto split: option.splits go.splits bool.splits)

text \<open>A condition is comparable when comparing any argument with it cannot panic.\<close>

fun comparable :: "gval \<Rightarrow> bool" where
  "comparable (VArr _) = False"
| "comparable (VMap _) = False"
| "comparable _ = True"

lemma iface_eq_comparable: "comparable w \<Longrightarrow> \<exists>b. iface_eq g w = Ret b"
  by (cases g; cases w) auto

lemma matchWhen_comparable:
  assumes "\<forall>w \<in> snd ` set ws. comparable w"
  shows "\<exists>b. matchWhen ws args = Ret b"
  using assms
proof (induction ws)
  case (Cons c ws)
  obtain k want where c: "c = (k, want)" by (cases c)
  from Cons.prems c have w: "comparable want" by simp
  show ?case
  proof (cases "map_of args k")
    case (Some got)
    from iface_eq_comparable [OF w] obtain b where "iface_eq got want = Ret b" by blast
    with Some Cons c show ?thesis by (cases b) auto
  next
    case None
    with c have "matchWhen (c # ws) args = Ret False" by simp
    then show ?thesis ..
  qed
qed (auto intro: exI [of _ True])

lemma evaluate_rules_skip:
  "\<forall>q \<in> set pre. rule_applies q tool args = Ret False \<Longrightarrow>
   evaluate_rules (pre @ rs) dflt tool args = evaluate_rules rs dflt tool args"
  by (induction pre) auto

lemma evaluate_rules_RetD:
  assumes "evaluate_rules rs dflt tool args = Ret d"
  shows "(\<exists>pre r post. rs = pre @ r # post \<and> (\<forall>q \<in> set pre. rule_applies q tool args = Ret False) \<and>
        rule_applies r tool args = Ret True \<and>
        d = \<lparr>dec_action = rule_action r, dec_redact = rule_redact r\<rparr>) \<or>
     ((\<forall>q \<in> set rs. rule_applies q tool args = Ret False) \<and>
        d = \<lparr>dec_action = dflt, dec_redact = []\<rparr>)" (is "?hit rs \<or> ?miss rs")
  using assms
proof (induction rs)
  case (Cons q rs)
  then consider (hit) "rule_applies q tool args = Ret True"
      "d = \<lparr>dec_action = rule_action q, dec_redact = rule_redact q\<rparr>"
    | (skip) "rule_applies q tool args = Ret False" "evaluate_rules rs dflt tool args = Ret d"
    by (auto split: go.splits bool.splits)
  then show ?case
  proof cases
    case hit
    then have "?hit (q # rs)" by (intro exI [of _ "[]"] exI [of _ q] exI [of _ rs]) simp
    then show ?thesis ..
  next
    case skip
    from Cons.IH [OF skip(2)] show ?thesis
    proof
      assume "?hit rs"
      then obtain pre r post where h: "rs = pre @ r # post"
        "\<forall>q \<in> set pre. rule_applies q tool args = Ret False" "rule_applies r tool args = Ret True"
        "d = \<lparr>dec_action = rule_action r, dec_redact = rule_redact r\<rparr>" by blast
      with skip(1) have "?hit (q # rs)"
        by (intro exI [of _ "q # pre"] exI [of _ r] exI [of _ post]) simp
      then show ?thesis ..
    next
      assume "?miss rs"
      with skip(1) have "?miss (q # rs)" by simp
      then show ?thesis ..
    qed
  qed
qed simp

lemma evaluate_rules_Ret_iff:
  "evaluate_rules rs dflt tool args = Ret d \<longleftrightarrow>
     (\<exists>pre r post. rs = pre @ r # post \<and> (\<forall>q \<in> set pre. rule_applies q tool args = Ret False) \<and>
        rule_applies r tool args = Ret True \<and>
        d = \<lparr>dec_action = rule_action r, dec_redact = rule_redact r\<rparr>) \<or>
     ((\<forall>q \<in> set rs. rule_applies q tool args = Ret False) \<and>
        d = \<lparr>dec_action = dflt, dec_redact = []\<rparr>)"
proof
  assume r: "(\<exists>pre r post. rs = pre @ r # post \<and> (\<forall>q \<in> set pre. rule_applies q tool args = Ret False) \<and>
        rule_applies r tool args = Ret True \<and>
        d = \<lparr>dec_action = rule_action r, dec_redact = rule_redact r\<rparr>) \<or>
     ((\<forall>q \<in> set rs. rule_applies q tool args = Ret False) \<and>
        d = \<lparr>dec_action = dflt, dec_redact = []\<rparr>)"
  then show "evaluate_rules rs dflt tool args = Ret d"
    using evaluate_rules_skip [of rs tool args "[]" dflt] by (auto simp: evaluate_rules_skip)
qed (rule evaluate_rules_RetD)

lemma validate_rules_None:
  "validate_rules i rs = None \<longleftrightarrow> (\<forall>r \<in> set rs. rule_tool r \<noteq> [] \<and> isRuleAction (rule_action r))"
  by (induction i rs rule: validate_rules.induct) auto

lemma validate_classes_None:
  "validate_classes cs = None \<longleftrightarrow> (\<forall>c \<in> snd ` set cs. isOperationClass c)"
  by (induction cs rule: validate_classes.induct) auto

lemma validatePolicy_None [policy_simps]:
  "validatePolicy p = None \<longleftrightarrow>
     (pol_default p = ActionAllow \<or> pol_default p = ActionDeny) \<and>
     (\<forall>r \<in> set (pol_rules p). rule_tool r \<noteq> [] \<and> isRuleAction (rule_action r)) \<and>
     (\<forall>c \<in> snd ` set (pol_classes p). isOperationClass c)"
proof -
  have "validatePolicy p = None \<longleftrightarrow>
      (pol_default p = ActionAllow \<or> pol_default p = ActionDeny) \<and>
      validate_rules 0 (pol_rules p) = None \<and> validate_classes (pol_classes p) = None"
    by (auto simp: validatePolicy_def isRuleAction_def split: option.splits)
  then show ?thesis by (simp add: validate_rules_None validate_classes_None)
qed

lemma evaluate_rules_action:
  assumes "evaluate_rules rs dflt tool args = Ret d"
    and "\<forall>r \<in> set rs. isRuleAction (rule_action r)" and "isRuleAction dflt"
  shows "isRuleAction (dec_action d)"
  using assms by (auto simp: evaluate_rules_Ret_iff)

lemma iface_eq_int_yaml: "iface_eq (any_of v) (VInt i) = Ret False"
  using any_of_never_yaml [of v] by (cases "any_of v") auto

lemma args_map_any: "map_of (args_map args) k = Some g \<Longrightarrow> \<exists>v. g = any_of v"
  by (auto simp: args_map_def unmarshal_map_any_def map_of_any_fields split: option.splits json.splits)

section \<open>Properties\<close>

text \<open>
  C16. First match: a decision of \<open>Evaluate\<close> is the action and redaction list of the first rule
  for the tool whose conditions all hold, every earlier rule having been tried and not applied, and
  the default action with nothing to redact exactly when no rule applies.
\<close>

theorem Evaluate_first_match:
  "Evaluate p tool args = Ret d \<longleftrightarrow>
     (\<exists>pre r post. pol_rules p = pre @ r # post \<and>
        (\<forall>q \<in> set pre. rule_applies q tool (args_map args) = Ret False) \<and>
        rule_tool r = tool \<and>
        (\<forall>(k, want) \<in> set (rule_when r). \<exists>got. map_of (args_map args) k = Some got \<and>
             iface_eq got want = Ret True) \<and>
        d = \<lparr>dec_action = rule_action r, dec_redact = rule_redact r\<rparr>) \<or>
     ((\<forall>q \<in> set (pol_rules p). rule_applies q tool (args_map args) = Ret False) \<and>
        d = \<lparr>dec_action = pol_default p, dec_redact = []\<rparr>)"
proof -
  have "rule_applies r tool a = Ret True \<longleftrightarrow> rule_tool r = tool \<and>
      (\<forall>(k, want) \<in> set (rule_when r). \<exists>got. map_of a k = Some got \<and> iface_eq got want = Ret True)"
    for r a
    by (simp add: rule_applies_def matchWhen_True_iff)
  then show ?thesis by (simp add: Evaluate_def evaluate_rules_Ret_iff)
qed

definition demo_policy :: agent_policy where
  "demo_policy =
     \<lparr>pol_rules =
        [\<lparr>rule_tool = ''create_refund'', rule_action = ActionAllow, rule_redact = [],
          rule_when = [(''dry_run'', VBool True)]\<rparr>,
         \<lparr>rule_tool = ''create_refund'', rule_action = ActionApprovalRequired, rule_redact = [],
          rule_when = []\<rparr>,
         \<lparr>rule_tool = ''send_lark_message'', rule_action = ActionRedact,
          rule_redact = [''message''], rule_when = []\<rparr>],
      pol_max_calls = 5, pol_default = ActionDeny, pol_classes = []\<rparr>"

theorem Evaluate_first_match_witness:
  "Evaluate demo_policy ''create_refund'' (Some (JObj [(''dry_run'', JBool False)])) =
     Ret \<lparr>dec_action = ActionApprovalRequired, dec_redact = []\<rparr>"
  unfolding Evaluate_first_match
  by (rule disjI1, rule exI [of _ "[hd (pol_rules demo_policy)]"],
      rule exI [of _ "pol_rules demo_policy ! 1"], rule exI [of _ "[pol_rules demo_policy ! 2]"])
     (simp add: demo_policy_def rule_applies_def args_map_def unmarshal_map_any_def)

text \<open>
  A policy that passed \<open>validatePolicy\<close> never produces a decision outside the four actions,
  so the gate's branch for unsupported decisions cannot be reached with a loaded policy; a decision
  that comes from the default is \<open>allow\<close> or \<open>deny\<close>.
\<close>

theorem validated_policy_decisions:
  assumes "validatePolicy p = None" and "Evaluate p tool args = Ret d"
  shows "isRuleAction (dec_action d) \<and>
    ((\<forall>r \<in> set (pol_rules p). rule_tool r \<noteq> tool) \<longrightarrow>
      dec_action d = ActionAllow \<or> dec_action d = ActionDeny)"
proof
  from assms(1) have "\<forall>r \<in> set (pol_rules p). isRuleAction (rule_action r)"
    and d: "pol_default p = ActionAllow \<or> pol_default p = ActionDeny"
    by (auto simp: policy_simps)
  moreover from d have "isRuleAction (pol_default p)" by (auto simp: isRuleAction_def)
  ultimately show "isRuleAction (dec_action d)"
    using assms(2) evaluate_rules_action unfolding Evaluate_def by blast
  show "(\<forall>r \<in> set (pol_rules p). rule_tool r \<noteq> tool) \<longrightarrow>
      dec_action d = ActionAllow \<or> dec_action d = ActionDeny"
    using assms(2) d by (auto simp: Evaluate_def evaluate_rules_Ret_iff rule_applies_def)
qed

theorem validated_policy_decisions_witness:
  "isRuleAction (dec_action \<lparr>dec_action = ActionDeny, dec_redact = []\<rparr>)"
proof -
  have v: "validatePolicy demo_policy = None"
    by (simp add: policy_simps demo_policy_def isRuleAction_def)
  have e: "Evaluate demo_policy ''delete_customer'' None = Ret \<lparr>dec_action = ActionDeny, dec_redact = []\<rparr>"
    by (simp add: Evaluate_def demo_policy_def rule_applies_def args_map_def)
  from validated_policy_decisions [OF v e] show ?thesis by blast
qed

text \<open>
  A rule with an integer in its \<open>when\<close> map applies to no call at all: the YAML decoder
  makes the condition an \<open>int\<close>, the JSON decoder makes every number of the arguments a
  \<open>float64\<close>, and \<open>!=\<close> on interface values of different types is true.
\<close>

theorem integer_condition_never_applies:
  assumes "(k, VInt i) \<in> set (rule_when r)"
  shows "rule_applies r tool (args_map args) \<noteq> Ret True"
proof
  assume "rule_applies r tool (args_map args) = Ret True"
  then have "matchWhen (rule_when r) (args_map args) = Ret True"
    by (simp add: rule_applies_def split: if_splits)
  with assms obtain got where g: "map_of (args_map args) k = Some got" "iface_eq got (VInt i) = Ret True"
    by (auto simp: matchWhen_True_iff)
  from args_map_any [OF g(1)] obtain v where "got = any_of v" ..
  with g(2) iface_eq_int_yaml show False by simp
qed

theorem integer_condition_never_applies_witness:
  "rule_applies \<lparr>rule_tool = ''refund'', rule_action = ActionDeny, rule_redact = [],
      rule_when = [(''amount'', VInt 100)]\<rparr> ''refund''
     (args_map (Some (JObj [(''amount'', JNum (Lit ''100''))]))) \<noteq> Ret True"
  by (rule integer_condition_never_applies [of "''amount''" 100]) simp

text \<open>
  The order in which Go iterates over a \<open>when\<close> map does not change whether the rule
  applies, when none of its values is a list or a map.
\<close>

theorem matchWhen_order_irrelevant:
  assumes "\<forall>w \<in> snd ` set ws. comparable w" and "set ws' = set ws"
  shows "matchWhen ws args = matchWhen ws' args"
proof -
  from assms have "\<forall>w \<in> snd ` set ws'. comparable w" by simp
  from matchWhen_comparable [OF assms(1)] matchWhen_comparable [OF this]
  obtain b b' where b: "matchWhen ws args = Ret b" "matchWhen ws' args = Ret b'" by blast
  moreover have "matchWhen ws args = Ret True \<longleftrightarrow> matchWhen ws' args = Ret True"
    by (simp add: matchWhen_True_iff assms(2))
  ultimately show ?thesis by auto
qed

theorem matchWhen_order_irrelevant_witness:
  "matchWhen [(''a'', VBool True), (''b'', VStr ''x'')] [(''b'', VStr ''x'')] =
   matchWhen [(''b'', VStr ''x''), (''a'', VBool True)] [(''b'', VStr ''x'')]"
  by (rule matchWhen_order_irrelevant) auto

text \<open>
  A list-valued condition makes the gate panic on a call that has a list for that argument; which
  of several conditions is compared first depends on the map's iteration order.
\<close>

lemma list_condition_panics:
  "matchWhen [(''tags'', VArr [])] [(''tags'', VArr [VStr ''x''])] =
     Panic ''runtime error: comparing uncomparable type []interface {}''"
  by simp

lemma list_condition_order_matters:
  "matchWhen [(''a'', VBool True), (''tags'', VArr [])] [(''tags'', VArr [])] = Ret False \<and>
   is_panic (matchWhen [(''tags'', VArr []), (''a'', VBool True)] [(''tags'', VArr [])])"
  by simp

end
