(* ===== verification/Budget.thy ===== *)
theory Budget
  imports Prelude
begin

text \<open>
  \<open>BudgetTracker\<close> of \<open>cmd/gateway/policy_gate.go\<close>: the number of tool calls of each turn. The
  contract of the interface \<open>budgetCounter\<close> is the locale \<open>budget_counter\<close>; the tracker keeps
  it for session ids without a colon, which all ids of \<open>newSessionID\<close> are.
\<close>

type_synonym budget = "(string \<times> int) list"

definition NewBudgetTracker :: budget where
  "NewBudgetTracker = []"

definition budget_key :: "string \<Rightarrow> string \<Rightarrow> string" where
  "budget_key sid tid = sid @ '':'' @ tid"

definition IncrementAndGet :: "string \<Rightarrow> string \<Rightarrow> budget \<Rightarrow> int \<times> budget" where
  "IncrementAndGet sid tid b =
     (let k = budget_key sid tid; n = the_default 0 (map_of b k) + 1 in (n, map_put k n b))"

definition budget_count :: "budget \<Rightarrow> string \<Rightarrow> string \<Rightarrow> int" where
  "budget_count b sid tid = the_default 0 (map_of b (budget_key sid tid))"

section \<open>The contract of a budget counter\<close>

locale budget_counter =
  fixes incr :: "string \<Rightarrow> string \<Rightarrow> 'w \<Rightarrow> int \<times> 'w"
    and cnt :: "'w \<Rightarrow> string \<Rightarrow> string \<Rightarrow> int"
    and okid :: "string \<Rightarrow> bool"
  assumes incr_result: "fst (incr s t w) = cnt w s t + 1"
    and incr_own: "cnt (snd (incr s t w)) s t = cnt w s t + 1"
    and incr_other: "okid s \<Longrightarrow> okid s' \<Longrightarrow> (s', t') \<noteq> (s, t) \<Longrightarrow> cnt (snd (incr s t w)) s' t' = cnt w s' t'"
begin

text \<open>The results of a sequence of increments.\<close>

fun incr_all :: "(string \<times> string) list \<Rightarrow> 'w \<Rightarrow> int list" where
  "incr_all [] w = []"
| "incr_all ((s, t) # xs) w = fst (incr s t w) # incr_all xs (snd (incr s t w))"

lemma length_incr_all [simp]: "length (incr_all xs w) = length xs"
  by (induction xs w rule: incr_all.induct) auto

lemma incr_all_counts:
  assumes "\<forall>(s, t) \<in> set xs. okid s" "i < length xs" "xs ! i = (s, t)"
  shows "incr_all xs w ! i = cnt w s t + int (count_list (take (Suc i) xs) (s, t))"
  using assms
proof (induction xs w arbitrary: i rule: incr_all.induct)
  case (2 s' t' xs w)
  show ?case
  proof (cases i)
    case 0
    with 2 show ?thesis by (simp add: incr_result)
  next
    case (Suc j)
    with 2 have j: "j < length xs" "xs ! j = (s, t)" "okid s'" by auto
    then have "(s, t) \<in> set xs" by (metis nth_mem)
    with 2 have "okid s" by auto
    note j = j this
    with 2 have "incr_all xs (snd (incr s' t' w)) ! j =
        cnt (snd (incr s' t' w)) s t + int (count_list (take (Suc j) xs) (s, t))" by auto
    moreover have "cnt (snd (incr s' t' w)) s t = cnt w s t + (if (s', t') = (s, t) then 1 else 0)"
      using j incr_own [of s' t' w] incr_other [of s' s t t' w] by auto
    ultimately show ?thesis using Suc by auto
  qed
qed simp

end

definition colon_free :: "string \<Rightarrow> bool" where
  "colon_free s = (CHR '':'' \<notin> set s)"

lemma budget_key_inj:
  "colon_free s \<Longrightarrow> colon_free s' \<Longrightarrow> budget_key s t = budget_key s' t' \<longleftrightarrow> s = s' \<and> t = t'"
proof (induction s arbitrary: s')
  case Nil
  then show ?case by (cases s') (auto simp: budget_key_def colon_free_def)
next
  case (Cons a s)
  then show ?case by (cases s') (auto simp: budget_key_def colon_free_def)
qed

interpretation budget: budget_counter IncrementAndGet budget_count colon_free
  by unfold_locales
     (auto simp: IncrementAndGet_def budget_count_def Let_def budget_key_inj)

section \<open>Properties\<close>

fun increments :: "(string \<times> string) list \<Rightarrow> budget \<Rightarrow> int list" where
  "increments [] b = []"
| "increments ((s, t) # xs) b =
     (let (n, b') = IncrementAndGet s t b in n # increments xs b')"

lemma increments_incr_all: "increments xs b = budget.incr_all xs b"
proof (induction xs arbitrary: b)
  case (Cons p xs)
  then show ?case by (cases p) (simp add: case_prod_beta)
qed simp

text \<open>
  In any interleaving of the calls of several turns, the counter a call sees is the number of
  calls of its own turn of its own session so far, itself included: no other turn's call counts,
  so exactly the calls after the first \<open>m\<close> of a turn exceed a budget of \<open>m\<close>.
\<close>

theorem budget_counts_own_turn:
  assumes "\<forall>(s, t) \<in> set xs. colon_free s" and "i < length xs" and "xs ! i = (s, t)"
  shows "increments xs NewBudgetTracker ! i = int (count_list (take (Suc i) xs) (s, t))"
  using budget.incr_all_counts [OF assms, of NewBudgetTracker]
  by (simp add: increments_incr_all NewBudgetTracker_def budget_count_def)

theorem budget_counts_own_turn_witness:
  "increments [(''s1'', ''t1''), (''s2'', ''t1''), (''s1'', ''t1'')] NewBudgetTracker ! 2 = 2"
proof -
  have "\<forall>(s, t) \<in> set [(''s1'', ''t1''), (''s2'', ''t1''), (''s1'', ''t1'')]. colon_free s"
    by (simp add: colon_free_def)
  from budget_counts_own_turn [OF this, of 2 "''s1''" "''t1''"] show ?thesis by (simp add: numeral_eq_Suc)
qed

text \<open>Ids with a colon may share a counter.\<close>

lemma budget_collision: "budget_key ''a:b'' ''c'' = budget_key ''a'' ''b:c''"
  by (simp add: budget_key_def)

end
