(* ===== verification/Policy_Gate.thy ===== *)
theory Policy_Gate
  imports Policy Tool_Call Tickets Budget
begin

text \<open>
  \<open>PolicyGateHandler\<close> of \<open>cmd/gateway/policy_gate.go\<close>. Its collaborators are the fields of
  \<open>gate_env\<close>, as in the struct: the budget counter, the audit recorder, the ticket inserter, the
  evaluator, the approval bridge, the notifier, the log and the clock, each a function on the state
  \<open>'w\<close>. The goroutine that sends the approval message is \<open>ge_notify\<close>: it starts before the
  wait. The facts about the gate that need the audit log are proved in the locale
  \<open>gate_world\<close>, which says what its collaborators do to it.
\<close>

named_theorems gate_simps \<open>unfolding of the gate\<close>

record approval_decision =
  ad_approved :: bool
  ad_ticket :: string

record 'w gate_env =
  ge_incr :: "string \<Rightarrow> string \<Rightarrow> 'w \<Rightarrow> int \<times> 'w"
  ge_audit :: "audit_record \<Rightarrow> 'w \<Rightarrow> 'w"
  ge_insert :: "ticket_record \<Rightarrow> 'w \<Rightarrow> string go \<times> 'w"
  ge_eval :: "agent_policy \<Rightarrow> string \<Rightarrow> raw \<Rightarrow> policy_decision go"
  ge_wait :: "ctx \<Rightarrow> string \<Rightarrow> string \<Rightarrow> string \<Rightarrow> 'w \<Rightarrow> approval_decision go \<times> 'w"
  ge_notify :: "string \<Rightarrow> ticket_record \<Rightarrow> 'w \<Rightarrow> 'w"
  ge_log :: "log_entry \<Rightarrow> 'w \<Rightarrow> 'w"
  ge_now :: "'w \<Rightarrow> int"

text \<open>\<open>newPolicyGateHandler\<close> and \<open>NewPolicyGateHandler\<close>: a missing logger or clock is replaced by the default
  one, \<open>slog.Default()\<close> and \<open>time.Now\<close>, which are the last two arguments.\<close>

definition defaultPolicyEvaluator :: "agent_policy \<Rightarrow> string \<Rightarrow> raw \<Rightarrow> policy_decision go" where
  "defaultPolicyEvaluator = Evaluate"

definition newPolicyGateHandler ::
  "(string \<Rightarrow> string \<Rightarrow> 'w \<Rightarrow> int \<times> 'w) \<Rightarrow> (audit_record \<Rightarrow> 'w \<Rightarrow> 'w) \<Rightarrow> (ticket_record \<Rightarrow> 'w \<Rightarrow> string go \<times> 'w) \<Rightarrow>
   (agent_policy \<Rightarrow> string \<Rightarrow> raw \<Rightarrow> policy_decision go) \<Rightarrow>
   (ctx \<Rightarrow> string \<Rightarrow> string \<Rightarrow> string \<Rightarrow> 'w \<Rightarrow> approval_decision go \<times> 'w) \<Rightarrow> (string \<Rightarrow> ticket_record \<Rightarrow> 'w \<Rightarrow> 'w) \<Rightarrow>
   (log_entry \<Rightarrow> 'w \<Rightarrow> 'w) option \<Rightarrow> ('w \<Rightarrow> int) option \<Rightarrow> (log_entry \<Rightarrow> 'w \<Rightarrow> 'w) \<Rightarrow> ('w \<Rightarrow> int) \<Rightarrow> 'w gate_env" where
  "newPolicyGateHandler budget audit tickets evaluator bridge notifier lg clock default_log time_now =
     \<lparr>ge_incr = budget, ge_audit = audit, ge_insert = tickets, ge_eval = evaluator, ge_wait = bridge,
      ge_notify = notifier, ge_log = the_default default_log lg, ge_now = the_default time_now clock\<rparr>"

definition NewPolicyGateHandler ::
  "(string \<Rightarrow> string \<Rightarrow> 'w \<Rightarrow> int \<times> 'w) \<Rightarrow> (audit_record \<Rightarrow> 'w \<Rightarrow> 'w) \<Rightarrow> (ticket_record \<Rightarrow> 'w \<Rightarrow> string go \<times> 'w) \<Rightarrow>
   (ctx \<Rightarrow> string \<Rightarrow> string \<Rightarrow> string \<Rightarrow> 'w \<Rightarrow> approval_decision go \<times> 'w) \<Rightarrow> (string \<Rightarrow> ticket_record \<Rightarrow> 'w \<Rightarrow> 'w) \<Rightarrow>
   (log_entry \<Rightarrow> 'w \<Rightarrow> 'w) option \<Rightarrow> (log_entry \<Rightarrow> 'w \<Rightarrow> 'w) \<Rightarrow> ('w \<Rightarrow> int) \<Rightarrow> 'w gate_env" where
  "NewPolicyGateHandler budget audit tickets bridge notifier lg default_log time_now =
     newPolicyGateHandler budget audit tickets defaultPolicyEvaluator bridge notifier lg (Some time_now) default_log time_now"

section \<open>The gate\<close>

definition policyGateParamsError :: "goerr \<Rightarrow> goerr" where
  "policyGateParamsError e =
     ECoded CodeInternalError ''internal error: policy gate params parse failed'' (Some e)"

definition approvalErrorResponse :: "raw \<Rightarrow> string \<Rightarrow> rpc_response" where
  "approvalErrorResponse i msg =
     \<lparr>resp_jsonrpc = ''2.0'', resp_id = i, resp_result = None,
      resp_error = Some \<lparr>err_code = CodePolicyDenied, err_message = msg, err_data = VNil\<rparr>\<rparr>"

definition gate_record :: "ctx \<Rightarrow> string \<Rightarrow> raw \<Rightarrow> string \<Rightarrow> string \<Rightarrow> audit_record" where
  "gate_record c tool args dec reason =
     \<lparr>au_session = SessionIDFromContext c, au_turn = TurnIDFromContext c, au_tool = tool,
      au_args = args, au_decision = dec, au_reason = reason\<rparr>"

definition logDecision :: "'w gate_env \<Rightarrow> ctx \<Rightarrow> string \<Rightarrow> string \<Rightarrow> 'w \<Rightarrow> 'w" where
  "logDecision G c dec tool =
     ge_log G (LevelInfo, ''policy gate decision'',
       [(''decision'', LStr dec), (''toolName'', LStr tool),
        (''sessionId'', LStr (SessionIDFromContext c)), (''turnId'', LStr (TurnIDFromContext c))])"

definition approval_window :: int where "approval_window = 5 * 60 * 1000000000"

text \<open>The branch of \<open>approvalRequired\<close>. An insert that fails leaves an empty ticket id and the wait
  goes on.\<close>

definition gate_ticket :: "'w gate_env \<Rightarrow> ctx \<Rightarrow> string \<Rightarrow> raw \<Rightarrow> 'w \<Rightarrow> string go \<times> 'w" where
  "gate_ticket G c tool args w =
     (case ge_insert G \<lparr>tr_session = SessionIDFromContext c, tr_turn = TurnIDFromContext c,
                        tr_tool = tool, tr_args = args,
                        tr_expires = ge_now G w + approval_window\<rparr> w of
        (Ret i, w1) \<Rightarrow> (Ret i, w1)
      | (Fail e, w1) \<Rightarrow>
          (Ret [], ge_log G (LevelWarn, ''ticket insert failed'',
             [(''sessionId'', LStr (SessionIDFromContext c)), (''turnId'', LStr (TurnIDFromContext c)),
              (''toolName'', LStr tool), (''error'', LStr (err_text e))]) w1)
      | (Panic m, w1) \<Rightarrow> (Panic m, w1))"

definition gate_approval :: "'w gate_env \<Rightarrow> string \<Rightarrow> raw \<Rightarrow> 'w handler" where
  "gate_approval G tool args c r w =
     (let sid = SessionIDFromContext c; tid = TurnIDFromContext c in
      case gate_ticket G c tool args w of
        (Panic m, w1) \<Rightarrow> (Panic m, r, w1)
      | (Fail e, w1) \<Rightarrow> (Fail e, r, w1)
      | (Ret ticket, w1) \<Rightarrow>
          (let w2 = ge_notify G ticket \<lparr>tr_session = sid, tr_turn = tid, tr_tool = tool,
                      tr_args = args, tr_expires = 0\<rparr> w1 in
           case ge_wait G c ticket sid tid w2 of
             (Panic m, w3) \<Rightarrow> (Panic m, r, w3)
           | (Fail e, w3) \<Rightarrow>
               if err_is EApprovalTimeout e then
                 (Ret (Some (approvalErrorResponse (req_id r) ''approval timeout'')), r,
                  ge_audit G (gate_record c tool args ''expired'' ''approval timeout'')
                    (ge_log G (LevelError, ''approval timed out'',
                       [(''ticketID'', LStr ticket), (''sessionID'', LStr sid), (''turnID'', LStr tid)]) w3))
               else
                 (Ret (Some (approvalErrorResponse (req_id r) ''approval denied'')), r,
                  ge_log G (LevelInfo, ''approval denied'',
                    [(''ticketID'', LStr ticket), (''sessionID'', LStr sid)]) w3)
           | (Ret d, w3) \<Rightarrow>
               if \<not> ad_approved d then
                 (Ret (Some (approvalErrorResponse (req_id r) ''approval denied'')), r,
                  ge_log G (LevelInfo, ''approval denied'',
                    [(''ticketID'', LStr ticket), (''sessionID'', LStr sid)]) w3)
               else (Ret None, r, w3)))"

definition gate_redact :: "'w gate_env \<Rightarrow> string \<Rightarrow> raw \<Rightarrow> string list \<Rightarrow> 'w handler" where
  "gate_redact G tool args fs c r w =
     (let red = redactArguments args fs;
          w1 = logDecision G c ''allow'' tool (ge_audit G (gate_record c tool red ''allow'' []) w)
      in (Ret None, r\<lparr>req_params := Some (encode_tool_params tool red)\<rparr>, w1))"

definition gate_decide :: "'w gate_env \<Rightarrow> string \<Rightarrow> raw \<Rightarrow> policy_decision \<Rightarrow> 'w handler" where
  "gate_decide G tool args d c r w =
     (let a = dec_action d;
          w1 = (if a \<noteq> ActionRedact
                then logDecision G c a tool (ge_audit G (gate_record c tool args a []) w) else w)
      in if a = ActionAllow then (Ret None, r, w1)
         else if a = ActionDeny then
           (Ret (Some (NewErrorResponse (req_id r) CodePolicyDenied ''denied by policy'')), r, w1)
         else if a = ActionApprovalRequired then gate_approval G tool args c r w1
         else if a = ActionRedact then gate_redact G tool args (dec_redact d) c r w1
         else (Fail (policyGateParamsError (EMsg (''unsupported policy decision '' @ go_quote a))), r, w1))"

definition gate_call :: "'w gate_env \<Rightarrow> agent_policy \<Rightarrow> string \<Rightarrow> raw \<Rightarrow> 'w handler" where
  "gate_call G p tool args c r w =
     (let (n, w1) = ge_incr G (SessionIDFromContext c) (TurnIDFromContext c) w
      in if n > pol_max_calls p then
           (Ret (Some (NewErrorResponse (req_id r) CodePolicyDenied ''tool-call budget exceeded'')), r,
            logDecision G c ''budgetExceeded'' tool
              (ge_audit G (gate_record c tool args ''budgetExceeded'' ''maxToolCallsPerTurn exceeded'') w1))
         else
           (case ge_eval G p tool args of
              Panic m \<Rightarrow> (Panic m, r, w1)
            | Fail e \<Rightarrow> (Fail e, r, w1)
            | Ret d \<Rightarrow> gate_decide G tool args d c r w1))"

definition gate_handle :: "'w gate_env \<Rightarrow> agent_policy \<Rightarrow> 'w handler" where
  "gate_handle G p c r w =
     (if req_method r \<noteq> ''tools/call'' then (Ret None, r, w)
      else
        (case parseToolCallParams (req_params r) of
           Fail e \<Rightarrow> (Fail (policyGateParamsError e), r, w)
         | Panic m \<Rightarrow> (Panic m, r, w)
         | Ret (tool, args) \<Rightarrow> gate_call G p tool args c r w))"

section \<open>What the gate decides\<close>

lemmas gate_defs = gate_handle_def gate_call_def gate_decide_def gate_redact_def

lemma gate_approval_Ret_None:
  assumes "gate_approval G tool args c r w = (Ret None, r', w')"
  shows "r' = r \<and> (\<exists>ticket w1 d.
    ge_wait G c ticket (SessionIDFromContext c) (TurnIDFromContext c) w1 = (Ret d, w') \<and> ad_approved d)"
  using assms
  by (auto simp: gate_approval_def Let_def split: prod.splits go.splits if_splits)

lemma gate_approval_Ret_Some:
  assumes "gate_approval G tool args c r w = (Ret (Some a), r', w')"
  shows "r' = r \<and> (\<exists>m \<in> {''approval timeout'', ''approval denied''}. a = approvalErrorResponse (req_id r) m)"
  using assms
  by (auto simp: gate_approval_def Let_def split: prod.splits go.splits if_splits)

lemma gate_ticket_not_Fail: "gate_ticket G c tool args w \<noteq> (Fail e, w1)"
  by (simp add: gate_ticket_def split: prod.splits go.splits)

lemma gate_approval_not_Fail: "gate_approval G tool args c r w \<noteq> (Fail e, r', w')"
  using gate_ticket_not_Fail [of G c tool args w]
  by (simp add: gate_approval_def Let_def split: prod.splits go.splits)

lemma gate_call_cases:
  assumes "gate_call G p tool args c r w = (out, r', w')"
    and "ge_incr G (SessionIDFromContext c) (TurnIDFromContext c) w = (n, w1)"
  obtains (budget) "n > pol_max_calls p"
      "out = Ret (Some (NewErrorResponse (req_id r) CodePolicyDenied ''tool-call budget exceeded''))"
      "r' = r"
      "w' = logDecision G c ''budgetExceeded'' tool (ge_audit G (gate_record c tool args
              ''budgetExceeded'' ''maxToolCallsPerTurn exceeded'') w1)"
  | (panic) m where "n \<le> pol_max_calls p" "ge_eval G p tool args = Panic m" "out = Panic m"
      "r' = r" "w' = w1"
  | (fail) e where "n \<le> pol_max_calls p" "ge_eval G p tool args = Fail e" "out = Fail e"
      "r' = r" "w' = w1"
  | (decide) d where "n \<le> pol_max_calls p" "ge_eval G p tool args = Ret d"
      "gate_decide G tool args d c r w1 = (out, r', w')"
proof (cases "n > pol_max_calls p")
  case True
  with assms(1) [symmetric] assms(2) show thesis by (intro budget) (simp_all add: gate_call_def)
next
  case False
  then have n: "n \<le> pol_max_calls p" by simp
  show thesis
  proof (cases "ge_eval G p tool args")
    case (Ret d)
    with assms(1) [symmetric] assms(2) n show thesis by (intro decide) (simp_all add: gate_call_def)
  next
    case (Fail e)
    with assms(1) [symmetric] assms(2) n show thesis by (intro fail) (simp_all add: gate_call_def)
  next
    case (Panic m)
    with assms(1) [symmetric] assms(2) n show thesis by (intro panic) (simp_all add: gate_call_def)
  qed
qed

lemma gate_decide_cases:
  assumes "gate_decide G tool args d c r w = (out, r', w')"
  defines "w1 \<equiv> logDecision G c (dec_action d) tool (ge_audit G (gate_record c tool args (dec_action d) []) w)"
  obtains (allow) "dec_action d = ActionAllow" "out = Ret None" "r' = r" "w' = w1"
  | (deny) "dec_action d = ActionDeny" "r' = r" "w' = w1"
      "out = Ret (Some (NewErrorResponse (req_id r) CodePolicyDenied ''denied by policy''))"
  | (approval) "dec_action d = ActionApprovalRequired" "gate_approval G tool args c r w1 = (out, r', w')"
  | (redact) "dec_action d = ActionRedact" "out = Ret None"
      "r' = r\<lparr>req_params := Some (encode_tool_params tool (redactArguments args (dec_redact d)))\<rparr>"
      "w' = logDecision G c ''allow'' tool
              (ge_audit G (gate_record c tool (redactArguments args (dec_redact d)) ''allow'' []) w)"
  | (other) e where "\<not> isRuleAction (dec_action d)" "out = Fail (policyGateParamsError e)" "r' = r"
      "w' = w1"
proof (cases "isRuleAction (dec_action d)")
  case False
  with assms(1) [symmetric] show thesis by (intro other [of "EMsg (''unsupported policy decision '' @ go_quote (dec_action d))"]) (simp_all add: gate_decide_def w1_def isRuleAction_def Let_def)
next
  case True
  then consider "dec_action d = ActionAllow" | "dec_action d = ActionDeny"
    | "dec_action d = ActionApprovalRequired" | "dec_action d = ActionRedact"
    by (auto simp: isRuleAction_def)
  then show thesis
  proof cases
    case 1
    with assms(1) [symmetric] show thesis by (intro allow) (simp_all add: gate_decide_def w1_def Let_def)
  next
    case 2
    with assms(1) [symmetric] show thesis by (intro deny) (simp_all add: gate_decide_def w1_def Let_def)
  next
    case 3
    with assms(1) [symmetric] show thesis by (intro approval) (simp_all add: gate_decide_def w1_def Let_def)
  next
    case 4
    with assms(1) [symmetric] show thesis by (intro redact) (simp_all add: gate_decide_def w1_def gate_redact_def Let_def)
  qed
qed

lemma gate_handle_call:
  assumes "gate_handle G p c r w = (out, r', w')" and "req_method r = ''tools/call''"
  obtains (malformed) e where "parseToolCallParams (req_params r) = Fail e"
      "out = Fail (policyGateParamsError e)" "r' = r" "w' = w"
  | (call) tool args where "parseToolCallParams (req_params r) = Ret (tool, args)"
      "gate_call G p tool args c r w = (out, r', w')"
  using assms by (auto simp: gate_handle_def split: go.splits)

section \<open>The audit log\<close>

text \<open>What the collaborators of the gate do to the log of audit records.\<close>

locale gate_world =
  fixes G :: "'w gate_env" and audits :: "'w \<Rightarrow> audit_record list"
  assumes audit_appends: "audits (ge_audit G x w) = audits w @ [x]"
    and incr_audits [simp]: "audits (snd (ge_incr G s t w)) = audits w"
    and insert_audits [simp]: "audits (snd (ge_insert G tr w)) = audits w"
    and wait_audits [simp]: "audits (snd (ge_wait G c i s t w)) = audits w"
    and notify_audits [simp]: "audits (ge_notify G i tr w) = audits w"
    and log_audits [simp]: "audits (ge_log G l w) = audits w"
begin

lemma logDecision_audits [simp]: "audits (logDecision G c a tool w) = audits w"
  by (simp add: logDecision_def)

lemma ticket_audits: "gate_ticket G c tool args w = (out, w1) \<Longrightarrow> audits w1 = audits w"
proof -
  assume t: "gate_ticket G c tool args w = (out, w1)"
  obtain o1 w2 where i: "ge_insert G \<lparr>tr_session = SessionIDFromContext c, tr_turn = TurnIDFromContext c,
      tr_tool = tool, tr_args = args, tr_expires = ge_now G w + approval_window\<rparr> w = (o1, w2)"
    by (cases "ge_insert G \<lparr>tr_session = SessionIDFromContext c, tr_turn = TurnIDFromContext c,
      tr_tool = tool, tr_args = args, tr_expires = ge_now G w + approval_window\<rparr> w")
  then have "audits w2 = audits w" using insert_audits by (metis snd_conv)
  with t i show ?thesis by (cases o1) (auto simp: gate_ticket_def)
qed

lemma approval_audits:
  assumes "gate_approval G tool args c r w = (out, r', w')"
  shows "audits w' = audits w @
    (if out = Ret (Some (approvalErrorResponse (req_id r) ''approval timeout''))
     then [gate_record c tool args ''expired'' ''approval timeout''] else [])"
proof -
  obtain o1 w1 where t: "gate_ticket G c tool args w = (o1, w1)" by (cases "gate_ticket G c tool args w")
  then have a1: "audits w1 = audits w" by (rule ticket_audits)
  show ?thesis
  proof (cases o1)
    case (Ret i)
    let ?w2 = "ge_notify G i \<lparr>tr_session = SessionIDFromContext c, tr_turn = TurnIDFromContext c,
                 tr_tool = tool, tr_args = args, tr_expires = 0\<rparr> w1"
    obtain o2 w3 where w: "ge_wait G c i (SessionIDFromContext c) (TurnIDFromContext c) ?w2 = (o2, w3)"
      by (cases "ge_wait G c i (SessionIDFromContext c) (TurnIDFromContext c) ?w2")
    then have "audits w3 = audits ?w2" using wait_audits by (metis snd_conv)
    with a1 have a3: "audits w3 = audits w" by simp
    show ?thesis
      using assms t Ret w a3
      by (cases o2) (auto simp: gate_approval_def Let_def audit_appends approvalErrorResponse_def split: if_splits)
  qed (use assms t a1 in \<open>auto simp: gate_approval_def Let_def\<close>)
qed

lemma decide_audits:
  assumes "gate_decide G tool args d c r w = (out, r', w')" "isRuleAction (dec_action d)"
  shows "audits w' = audits w @
    (if dec_action d = ActionRedact
     then [gate_record c tool (redactArguments args (dec_redact d)) ''allow'' []]
     else gate_record c tool args (dec_action d) [] #
       (if dec_action d = ActionApprovalRequired \<and>
           out = Ret (Some (approvalErrorResponse (req_id r) ''approval timeout''))
        then [gate_record c tool args ''expired'' ''approval timeout''] else []))"
  using assms(1)
proof (cases rule: gate_decide_cases)
  case approval
  from approval_audits [OF approval(2)] approval(1) show ?thesis by (simp add: audit_appends)
qed (use assms(2) in \<open>simp_all add: audit_appends\<close>)

lemma handle_audits:
  assumes "gate_handle G p c r w = (out, r', w')" "req_method r = ''tools/call''"
    "parseToolCallParams (req_params r) = Ret (tool, args)"
    "ge_incr G (SessionIDFromContext c) (TurnIDFromContext c) w = (n, w1)"
    "ge_eval G p tool args = Ret d" "isRuleAction (dec_action d)"
  shows "audits w' = audits w @
    (if n > pol_max_calls p
     then [gate_record c tool args ''budgetExceeded'' ''maxToolCallsPerTurn exceeded'']
     else if dec_action d = ActionRedact
     then [gate_record c tool (redactArguments args (dec_redact d)) ''allow'' []]
     else gate_record c tool args (dec_action d) [] #
       (if dec_action d = ActionApprovalRequired \<and>
           out = Ret (Some (approvalErrorResponse (req_id r) ''approval timeout''))
        then [gate_record c tool args ''expired'' ''approval timeout''] else []))"
proof -
  have a1: "audits w1 = audits w" using incr_audits assms(4) by (metis snd_conv)
  from assms(1-3) have "gate_call G p tool args c r w = (out, r', w')"
    by (simp add: gate_handle_def)
  then show ?thesis
    using assms(4)
  proof (cases rule: gate_call_cases)
    case (decide d')
    with assms(5) have d: "d' = d" by simp
    from decide_audits [OF decide(3)] decide(1) assms(6) a1 show ?thesis by (simp add: d)
  qed (use assms(5) a1 in \<open>simp_all add: audit_appends\<close>)
qed

end

text \<open>What every collaborator keeps, the gate keeps.\<close>

locale gate_frame =
  fixes G :: "'w gate_env" and Q :: "'w \<Rightarrow> bool"
  assumes incr_frame: "Q w \<Longrightarrow> ge_incr G s t w = (n, w1) \<Longrightarrow> Q w1"
    and audit_frame: "Q w \<Longrightarrow> Q (ge_audit G x w)"
    and insert_frame: "Q w \<Longrightarrow> ge_insert G tr w = (tid, w1) \<Longrightarrow> Q w1"
    and wait_frame: "Q w \<Longrightarrow> ge_wait G c i s t w = (out, w1) \<Longrightarrow> Q w1"
    and notify_frame: "Q w \<Longrightarrow> Q (ge_notify G i tr w)"
    and log_frame: "Q w \<Longrightarrow> Q (ge_log G l w)"
begin

lemma logDecision_frame: "Q w \<Longrightarrow> Q (logDecision G c a tool w)"
  by (simp add: logDecision_def log_frame)

lemma ticket_frame: "Q w \<Longrightarrow> gate_ticket G c tool args w = (out, w1) \<Longrightarrow> Q w1"
  by (auto simp: gate_ticket_def intro: log_frame insert_frame split: prod.splits go.splits)

lemma approval_frame:
  assumes "Q w" "gate_approval G tool args c r w = (out, r', w')"
  shows "Q w'"
proof -
  obtain t w1 where t: "gate_ticket G c tool args w = (t, w1)" by (cases "gate_ticket G c tool args w")
  then have w1: "Q w1" by (rule ticket_frame [OF assms(1)])
  show ?thesis
  proof (cases t)
    case (Ret ticket)
    obtain d w3 where d: "ge_wait G c ticket (SessionIDFromContext c) (TurnIDFromContext c)
        (ge_notify G ticket \<lparr>tr_session = SessionIDFromContext c, tr_turn = TurnIDFromContext c,
           tr_tool = tool, tr_args = args, tr_expires = 0\<rparr> w1) = (d, w3)"
      by (meson surj_pair)
    then have "Q w3" by (rule wait_frame [OF notify_frame [OF w1]])
    with assms(2) t d Ret show ?thesis
      by (cases d) (auto simp: gate_approval_def Let_def audit_frame log_frame split: if_splits)
  qed (use assms(2) t w1 in \<open>simp_all add: gate_approval_def Let_def\<close>)
qed

lemma decide_frame:
  assumes "Q w" "gate_decide G tool args d c r w = (out, r', w')"
  shows "Q w'"
  using assms(2)
proof (cases rule: gate_decide_cases)
  case approval
  with assms(1) approval_frame audit_frame logDecision_frame show ?thesis by blast
qed (use assms(1) in \<open>simp_all add: audit_frame logDecision_frame\<close>)

lemma handle_frame:
  assumes "Q w" "gate_handle G p c r w = (out, r', w')"
  shows "Q w'"
proof (cases "req_method r = ''tools/call''")
  case True
  from assms(2) True show ?thesis
  proof (cases rule: gate_handle_call)
    case (call tool args)
    obtain n w1 where i: "ge_incr G (SessionIDFromContext c) (TurnIDFromContext c) w = (n, w1)"
      by (cases "ge_incr G (SessionIDFromContext c) (TurnIDFromContext c) w")
    then have w1: "Q w1" by (rule incr_frame [OF assms(1)])
    from call(2) i show ?thesis
    proof (cases rule: gate_call_cases)
      case (decide d)
      with w1 show ?thesis by (blast intro: decide_frame)
    qed (use w1 in \<open>simp_all add: audit_frame logDecision_frame\<close>)
  qed (use assms(1) in simp_all)
next
  case False
  with assms show ?thesis by (simp add: gate_handle_def)
qed

end

section \<open>Properties\<close>

text \<open>
  C9. Complete mediation: when the gate lets a \<open>tools/call\<close> through, the parameters were well
  formed, the turn's budget was not exceeded, and the policy's decision was \<open>allow\<close> (the request
  is unchanged), \<open>redact\<close> (the parameters are the tool's name and the redacted arguments) or
  \<open>approvalRequired\<close> with an approval that the bridge returned for this session and turn.
\<close>

theorem gate_passes_only_permitted:
  assumes "gate_handle G p c r w = (Ret None, r', w')" and "req_method r = ''tools/call''"
  shows "\<exists>tool args d. parseToolCallParams (req_params r) = Ret (tool, args) \<and>
    fst (ge_incr G (SessionIDFromContext c) (TurnIDFromContext c) w) \<le> pol_max_calls p \<and>
    ge_eval G p tool args = Ret d \<and>
    (dec_action d = ActionAllow \<and> r' = r \<or>
     dec_action d = ActionRedact \<and>
       r' = r\<lparr>req_params := Some (encode_tool_params tool (redactArguments args (dec_redact d)))\<rparr> \<or>
     dec_action d = ActionApprovalRequired \<and> r' = r \<and>
       (\<exists>ticket w1 a. ge_wait G c ticket (SessionIDFromContext c) (TurnIDFromContext c) w1 = (Ret a, w') \<and>
          ad_approved a))"
  using assms
proof (cases rule: gate_handle_call)
  case (call tool args)
  obtain n w1 where i: "ge_incr G (SessionIDFromContext c) (TurnIDFromContext c) w = (n, w1)"
    by (cases "ge_incr G (SessionIDFromContext c) (TurnIDFromContext c) w")
  from call(2) i show ?thesis
  proof (cases rule: gate_call_cases)
    case (decide d)
    from decide(3) show ?thesis
    proof (cases rule: gate_decide_cases)
      case approval
      with gate_approval_Ret_None [OF approval(2)] decide call i show ?thesis by auto
    qed (use decide call i in auto)
  qed auto
qed auto

text \<open>
  Every answer the gate gives is a refusal: an error response with the id of the request, code
  -32001 and one of the four messages; the request is left as it was.
\<close>

theorem gate_answers_are_refusals:
  assumes "gate_handle G p c r w = (Ret (Some a), r', w')"
  shows "r' = r \<and> (\<exists>m \<in> {''tool-call budget exceeded'', ''denied by policy'', ''approval timeout'',
      ''approval denied''}. a = NewErrorResponse (req_id r) CodePolicyDenied m)"
proof -
  from assms have t: "req_method r = ''tools/call''" by (auto simp: gate_handle_def split: if_splits)
  have eq: "approvalErrorResponse i m = NewErrorResponse i CodePolicyDenied m" for i m
    by (simp add: approvalErrorResponse_def NewErrorResponse_def)
  from assms t show ?thesis
  proof (cases rule: gate_handle_call)
    case (call tool args)
    obtain n w1 where i: "ge_incr G (SessionIDFromContext c) (TurnIDFromContext c) w = (n, w1)"
      by (cases "ge_incr G (SessionIDFromContext c) (TurnIDFromContext c) w")
    from call(2) i show ?thesis
    proof (cases rule: gate_call_cases)
      case (decide d)
      from decide(3) show ?thesis
      proof (cases rule: gate_decide_cases)
        case approval
        with gate_approval_Ret_Some [OF approval(2)] show ?thesis by (auto simp: eq)
      qed auto
    qed auto
  qed auto
qed

text \<open>Collaborators for the examples: a budget, the list of audit records, and a bridge with a fixed
  outcome.\<close>

definition demo_gate :: "approval_decision go \<Rightarrow> (budget \<times> audit_record list) gate_env" where
  "demo_gate out =
     \<lparr>ge_incr = (\<lambda>s t (b, a). case IncrementAndGet s t b of (n, b') \<Rightarrow> (n, (b', a))),
      ge_audit = (\<lambda>x (b, a). (b, a @ [x])),
      ge_insert = (\<lambda>r w. (Ret ''a1'', w)),
      ge_eval = Evaluate,
      ge_wait = (\<lambda>c i s t w. (out, w)),
      ge_notify = (\<lambda>i r w. w),
      ge_log = (\<lambda>l w. w),
      ge_now = (\<lambda>w. 0)\<rparr>"

definition demo_request :: "string \<Rightarrow> rpc_request" where
  "demo_request tool = \<lparr>req_jsonrpc = ''2.0'', req_id = Some (JStr ''7''), req_method = ''tools/call'',
     req_params = Some (encode_tool_params tool (Some (JObj [])))\<rparr>"

lemma demo_gate_simps [simp]:
  "ge_incr (demo_gate out) s t (b, a) = (let (n, b') = IncrementAndGet s t b in (n, (b', a)))"
  "ge_audit (demo_gate out) x (b, a) = (b, a @ [x])" "ge_insert (demo_gate out) r w = (Ret ''a1'', w)"
  "ge_eval (demo_gate out) = Evaluate" "ge_wait (demo_gate out) c i s t w = (out, w)"
  "ge_notify (demo_gate out) i r w = w" "ge_log (demo_gate out) l w = w" "ge_now (demo_gate out) w = 0"
  by (simp_all add: demo_gate_def)

lemma demo_refund:
  "Evaluate demo_policy ''create_refund'' (Some (JObj [])) =
     Ret \<lparr>dec_action = ActionApprovalRequired, dec_redact = []\<rparr>"
  by (simp add: Evaluate_def demo_policy_def rule_applies_def args_map_def unmarshal_map_any_def)

lemma demo_gate_run:
  "gate_handle (demo_gate out) demo_policy background (demo_request ''create_refund'') ([], []) =
     (case out of
        Ret d \<Rightarrow>
          (if ad_approved d then Ret None
           else Ret (Some (NewErrorResponse (Some (JStr ''7'')) CodePolicyDenied ''approval denied'')),
           demo_request ''create_refund'',
           ([('':'', 1)], [gate_record background ''create_refund'' (Some (JObj [])) ''approvalRequired'' []]))
      | r \<Rightarrow> gate_handle (demo_gate out) demo_policy background (demo_request ''create_refund'') ([], []))"
proof (cases out)
  case (Ret d)
  have i: "IncrementAndGet [] [] [] = (1, [('':'', 1)])"
    by (simp add: IncrementAndGet_def budget_key_def)
  have m: "pol_max_calls demo_policy = 5" by (simp add: demo_policy_def)
  have p: "parseToolCallParams (Some (encode_tool_params ''create_refund'' (Some (JObj [])))) =
      Ret (''create_refund'', Some (JObj []))" by (simp add: call_simps)
  have b: "SessionIDFromContext background = []" "TurnIDFromContext background = []"
    by (simp_all add: background_def SessionIDFromContext_def TurnIDFromContext_def)
  from Ret show ?thesis
    by (simp add: gate_handle_def gate_call_def gate_decide_def gate_approval_def gate_ticket_def
        demo_request_def p b i demo_refund m logDecision_def approvalErrorResponse_def
        NewErrorResponse_def)
qed simp_all

theorem gate_passes_only_permitted_witness:
  "\<exists>d. Evaluate demo_policy ''create_refund'' (Some (JObj [])) = Ret d \<and>
     dec_action d = ActionApprovalRequired"
proof -
  let ?G = "demo_gate (Ret \<lparr>ad_approved = True, ad_ticket = ''a1''\<rparr>)"
  have r: "gate_handle ?G demo_policy background (demo_request ''create_refund'') ([], []) =
      (Ret None, demo_request ''create_refund'',
       ([('':'', 1)], [gate_record background ''create_refund'' (Some (JObj [])) ''approvalRequired'' []]))"
    by (simp add: demo_gate_run)
  have "req_method (demo_request ''create_refund'') = ''tools/call''" by (simp add: demo_request_def)
  from gate_passes_only_permitted [OF r this] obtain tool args d where
    "parseToolCallParams (req_params (demo_request ''create_refund'')) = Ret (tool, args)"
    "Evaluate demo_policy tool args = Ret d"
    by auto
  with demo_refund show ?thesis by (auto simp: demo_request_def call_simps)
qed

theorem gate_answers_are_refusals_witness:
  "\<exists>a. fst (gate_handle (demo_gate (Ret \<lparr>ad_approved = False, ad_ticket = ''a1''\<rparr>)) demo_policy background
       (demo_request ''create_refund'') ([], [])) = Ret (Some a) \<and> resp_id a = Some (JStr ''7'')"
proof -
  let ?G = "demo_gate (Ret \<lparr>ad_approved = False, ad_ticket = ''a1''\<rparr>)"
  have r: "gate_handle ?G demo_policy background (demo_request ''create_refund'') ([], []) =
      (Ret (Some (NewErrorResponse (Some (JStr ''7'')) CodePolicyDenied ''approval denied'')),
       demo_request ''create_refund'',
       ([('':'', 1)], [gate_record background ''create_refund'' (Some (JObj [])) ''approvalRequired'' []]))"
    by (simp add: demo_gate_run)
  from gate_answers_are_refusals [OF r] r show ?thesis
    by (auto simp: NewErrorResponse_def demo_request_def)
qed

end
