(* ===== verification/Redis_Api.thy ===== *)
theory Redis_Api
  imports Mcp_Types
begin

text \<open>
  Redis and its Go client, which are not part of the repository. The commands the Lua scripts of
  \<open>session_locker.go\<close> and \<open>turn_rwlock.go\<close> call, the round trip of \<open>Client.Eval\<close>, the clock and
  the sleep of the poll loops are the fields of \<open>redis\<close>, functions on a state \<open>'k\<close>. The locale
  \<open>redis_api\<close> states the documented behaviour of the commands over a view of the keyspace: the
  value of a key with its remaining time to live in milliseconds (\<open>None\<close> for a key without one).
  Other clients act between the scripts, never inside one: Redis runs a script atomically.
\<close>

named_theorems redis_simps \<open>what the commands do to the view of the keyspace\<close>

type_synonym keyspace = "string \<Rightarrow> (string \<times> int option) option"

record 'k redis =
  rd_get :: "string \<Rightarrow> 'k \<Rightarrow> string option"
  rd_exists :: "string \<Rightarrow> 'k \<Rightarrow> bool"
  rd_set :: "string \<Rightarrow> string \<Rightarrow> int \<Rightarrow> 'k \<Rightarrow> bool \<times> 'k"
  rd_setnx :: "string \<Rightarrow> string \<Rightarrow> int \<Rightarrow> 'k \<Rightarrow> bool option \<times> 'k"
  rd_incr :: "string \<Rightarrow> 'k \<Rightarrow> int option \<times> 'k"
  rd_decr :: "string \<Rightarrow> 'k \<Rightarrow> int option \<times> 'k"
  rd_pexpire :: "string \<Rightarrow> int \<Rightarrow> 'k \<Rightarrow> 'k"
  rd_del :: "string list \<Rightarrow> 'k \<Rightarrow> int \<times> 'k"
  rd_link :: "ctx \<Rightarrow> 'k \<Rightarrow> (goerr option \<times> bool) \<times> 'k"
  rd_now :: "'k \<Rightarrow> int"
  rd_sleep :: "ctx \<Rightarrow> int \<Rightarrow> 'k \<Rightarrow> goerr option \<times> 'k"
  rd_tick :: "int \<Rightarrow> 'k \<Rightarrow> 'k"

section \<open>Scripts and their evaluation\<close>

text \<open>A command that replies with an error ends the script with that error; what it wrote before
  stays.\<close>

type_synonym 'k script = "'k \<Rightarrow> int go \<times> 'k"

definition lua_error :: "'a go" where
  "lua_error = Fail (EMsg ''ERR script'')"

text \<open>\<open>Client.Eval(\<dots>).Int()\<close>: the round trip may fail before or after the server has run the
  script (\<open>rd_link\<close>, an error and whether the script ran).\<close>

definition redis_eval :: "'k redis \<Rightarrow> ctx \<Rightarrow> 'k script \<Rightarrow> 'k \<Rightarrow> int go \<times> 'k" where
  "redis_eval R c script k =
     (case rd_link R c k of
        ((None, _), k1) \<Rightarrow> script k1
      | ((Some e, reached), k1) \<Rightarrow> (Fail e, if reached then snd (script k1) else k1))"

section \<open>The poll loop\<close>

text \<open>
  The loop that \<open>SessionLocker.Acquire\<close>, \<open>TurnRWLock.ReadLock\<close> and \<open>TurnRWLock.WriteLock\<close>
  share: try; on an error return it, wrapped; when acquired return; when there is no time left
  return the timeout error; otherwise sleep for the poll interval or the time left, whichever is
  shorter, unless the context is done first. Fuel \<open>n\<close> bounds the number of tries.
\<close>

definition poll_interval :: int where "poll_interval = 50000000"

fun poll_loop :: "nat \<Rightarrow> 'k redis \<Rightarrow> ctx \<Rightarrow> ('k \<Rightarrow> bool go \<times> 'k) \<Rightarrow> (goerr \<Rightarrow> goerr) \<Rightarrow> goerr \<Rightarrow>
    int \<Rightarrow> int \<Rightarrow> 'k \<Rightarrow> (unit go \<times> 'k) option" where
  "poll_loop 0 R c attempt wrap busy timeout deadline k = None"
| "poll_loop (Suc n) R c attempt wrap busy timeout deadline k =
     (case attempt k of
        (Fail e, k1) \<Rightarrow> Some (Fail (wrap e), k1)
      | (Panic m, k1) \<Rightarrow> Some (Panic m, k1)
      | (Ret True, k1) \<Rightarrow> Some (Ret (), k1)
      | (Ret False, k1) \<Rightarrow>
          if timeout \<le> 0 \<or> \<not> rd_now R k1 < deadline then Some (Fail busy, k1)
          else
            (case rd_sleep R c (min poll_interval (deadline - rd_now R k1)) k1 of
               (Some e, k2) \<Rightarrow> Some (Fail e, k2)
             | (None, k2) \<Rightarrow> poll_loop n R c attempt wrap busy timeout deadline k2))"

text \<open>The tries that fit into a timeout: one at the start, one for each started interval.\<close>

definition poll_fuel :: "int \<Rightarrow> nat" where
  "poll_fuel timeout = nat (timeout div poll_interval) + 3"

section \<open>The documented behaviour\<close>

definition expire :: "int \<Rightarrow> (string \<times> int option) option \<Rightarrow> (string \<times> int option) option" where
  "expire d e =
     (case e of
        Some (v, Some t) \<Rightarrow> if t \<le> d then None else Some (v, Some (t - d))
      | _ \<Rightarrow> e)"

text \<open>\<open>count_of e\<close> is the number an \<open>INCR\<close> or \<open>DECR\<close> starts from, if the entry has one.\<close>

definition counts :: "(string \<times> int option) option \<Rightarrow> int \<Rightarrow> bool" where
  "counts e n = (case e of None \<Rightarrow> n = 0 | Some (v, t) \<Rightarrow> v = itoa n)"

definition entry_ttl :: "(string \<times> int option) option \<Rightarrow> int option" where
  "entry_ttl e = (case e of None \<Rightarrow> None | Some (v, t) \<Rightarrow> t)"

definition int64 :: "int \<Rightarrow> bool" where
  "int64 n = (int64_min \<le> n \<and> n \<le> int64_max)"

locale redis_api =
  fixes R :: "'k redis" and view :: "'k \<Rightarrow> keyspace"
  assumes get_view [redis_simps]: "rd_get R key k = map_option fst (view k key)"
    and exists_view [redis_simps]: "rd_exists R key k = (view k key \<noteq> None)"
    and set_view: "0 < ttl \<Longrightarrow> \<exists>k'. rd_set R key v ttl k = (True, k') \<and>
        view k' = (view k)(key \<mapsto> (v, Some ttl))"
    and setnx_new: "0 < ttl \<Longrightarrow> view k key = None \<Longrightarrow> \<exists>k'. rd_setnx R key v ttl k = (Some True, k') \<and>
        view k' = (view k)(key \<mapsto> (v, Some ttl))"
    and setnx_old: "0 < ttl \<Longrightarrow> view k key \<noteq> None \<Longrightarrow> \<exists>k'. rd_setnx R key v ttl k = (Some False, k') \<and>
        view k' = view k"
    and incr_view: "counts (view k key) n \<Longrightarrow> int64 n \<Longrightarrow> int64 (n + 1) \<Longrightarrow>
        \<exists>k'. rd_incr R key k = (Some (n + 1), k') \<and>
          view k' = (view k)(key \<mapsto> (itoa (n + 1), entry_ttl (view k key)))"
    and decr_view: "counts (view k key) n \<Longrightarrow> int64 n \<Longrightarrow> int64 (n - 1) \<Longrightarrow>
        \<exists>k'. rd_decr R key k = (Some (n - 1), k') \<and>
          view k' = (view k)(key \<mapsto> (itoa (n - 1), entry_ttl (view k key)))"
    and pexpire_view [redis_simps]: "0 < ttl \<Longrightarrow> view (rd_pexpire R key ttl k) =
        (case view k key of None \<Rightarrow> view k | Some (v, t) \<Rightarrow> (view k)(key \<mapsto> (v, Some ttl)))"
    and del_view [redis_simps]: "view (snd (rd_del R ks k)) = (\<lambda>x. if x \<in> set ks then None else view k x)"
    and link_view [redis_simps]: "view (snd (rd_link R c k)) = view k"
    and tick_view [redis_simps]: "0 \<le> d \<Longrightarrow> view (rd_tick R d k) key = expire d (view k key)"

text \<open>A client whose context is done does not reach the server.\<close>

locale redis_client = redis_api +
  assumes done_link: "ctx_err c = Some e \<Longrightarrow> rd_link R c k = ((Some e, False), k)"
begin

lemma eval_done: "ctx_err c = Some e \<Longrightarrow> redis_eval R c script k = (Fail e, k)"
  by (simp add: redis_eval_def done_link)

end

text \<open>The clock of the poll loops: no command turns it back, and a sleep that ends without an error
  lasted its time.\<close>

locale poll_clock =
  fixes R :: "'k redis"
  assumes link_now: "rd_now R k \<le> rd_now R (snd (rd_link R c k))"
    and set_now: "rd_now R k \<le> rd_now R (snd (rd_set R key v t k))"
    and setnx_now: "rd_now R k \<le> rd_now R (snd (rd_setnx R key v t k))"
    and incr_now: "rd_now R k \<le> rd_now R (snd (rd_incr R key k))"
    and pexpire_now: "rd_now R k \<le> rd_now R (rd_pexpire R key t k)"
    and sleep_now: "rd_sleep R c d k = (None, k') \<Longrightarrow> rd_now R k + d \<le> rd_now R k'"
begin

lemma poll_loop_returns:
  assumes "\<And>k. rd_now R k \<le> rd_now R (snd (attempt k))"
    and "deadline - rd_now R k \<le> int n * poll_interval"
  shows "\<exists>y. poll_loop (n + 2) R c attempt wrap busy timeout deadline k = Some y"
  using assms(2)
proof (induction n arbitrary: k)
  case (0 k)
  obtain out k1 where a: "attempt k = (out, k1)" by (cases "attempt k")
  with 0 assms(1) [of k] have "\<not> rd_now R k1 < deadline" by simp
  with a show ?case by (simp add: numeral_2_eq_2 split: go.splits bool.splits)
next
  case (Suc n k)
  obtain out k1 where a: "attempt k = (out, k1)" by (cases "attempt k")
  with assms(1) [of k] have k1: "rd_now R k \<le> rd_now R k1" by simp
  let ?d = "min poll_interval (deadline - rd_now R k1)"
  obtain e k2 where s: "rd_sleep R c ?d k1 = (e, k2)" by (cases "rd_sleep R c ?d k1")
  have "\<exists>y. poll_loop (n + 2) R c attempt wrap busy timeout deadline k2 = Some y" if "e = None"
  proof (rule Suc.IH)
    from s that have "rd_now R k1 + ?d \<le> rd_now R k2" by (intro sleep_now) simp
    with k1 Suc.prems show "deadline - rd_now R k2 \<le> int n * poll_interval"
      by (auto simp: min_def poll_interval_def split: if_splits)
  qed
  with a s show ?case by (cases e) (auto split: go.splits bool.splits)
qed

lemma poll_returns:
  assumes "\<And>k. rd_now R k \<le> rd_now R (snd (attempt k))"
  shows "\<exists>y. poll_loop (poll_fuel timeout) R c attempt wrap busy timeout (rd_now R k + timeout) k = Some y"
proof -
  let ?n = "nat (timeout div poll_interval) + 1"
  have "timeout \<le> int ?n * poll_interval"
  proof -
    have "timeout < (timeout div poll_interval + 1) * poll_interval"
      by (simp add: poll_interval_def)
    also have "\<dots> \<le> int ?n * poll_interval"
      by (intro mult_right_mono) (simp_all add: poll_interval_def)
    finally show ?thesis by simp
  qed
  then have "rd_now R k + timeout - rd_now R k \<le> int ?n * poll_interval" by simp
  from poll_loop_returns [OF assms this] show ?thesis
    unfolding poll_fuel_def by (simp only: numeral_3_eq_3 numeral_2_eq_2 add_Suc_right add_0_right One_nat_def)
qed

end

section \<open>A keyspace in memory\<close>

text \<open>The behaviour above is consistent: a map with its clock has it. The instance serves the
  examples; the lemmas about the locks hold for every instance.\<close>

record mem_state =
  mem_view :: keyspace
  mem_now :: int
  mem_faults :: "(goerr option \<times> bool) list"

definition mem_count :: "(string \<times> int option) option \<Rightarrow> int option" where
  "mem_count e = (case e of None \<Rightarrow> Some 0 | Some (v, t) \<Rightarrow> parse_int64 v)"

definition mem_add :: "int \<Rightarrow> string \<Rightarrow> mem_state \<Rightarrow> int option \<times> mem_state" where
  "mem_add d key k =
     (case mem_count (mem_view k key) of
        None \<Rightarrow> (None, k)
      | Some n \<Rightarrow>
          if int64 (n + d)
          then (Some (n + d), k\<lparr>mem_view := (mem_view k)(key \<mapsto> (itoa (n + d), entry_ttl (mem_view k key)))\<rparr>)
          else (None, k))"

definition mem_pass :: "int \<Rightarrow> mem_state \<Rightarrow> mem_state" where
  "mem_pass d k = k\<lparr>mem_view := (\<lambda>x. expire d (mem_view k x)), mem_now := mem_now k + d * 1000000\<rparr>"

definition mem_redis :: "mem_state redis" where
  "mem_redis =
     \<lparr>rd_get = (\<lambda>key k. map_option fst (mem_view k key)),
      rd_exists = (\<lambda>key k. mem_view k key \<noteq> None),
      rd_set = (\<lambda>key v ttl k. if ttl \<le> 0 then (False, k)
                  else (True, k\<lparr>mem_view := (mem_view k)(key \<mapsto> (v, Some ttl))\<rparr>)),
      rd_setnx = (\<lambda>key v ttl k. if ttl \<le> 0 then (None, k)
                  else if mem_view k key \<noteq> None then (Some False, k)
                  else (Some True, k\<lparr>mem_view := (mem_view k)(key \<mapsto> (v, Some ttl))\<rparr>)),
      rd_incr = mem_add 1,
      rd_decr = mem_add (- 1),
      rd_pexpire = (\<lambda>key ttl k.
                  case mem_view k key of
                    None \<Rightarrow> k
                  | Some (v, t) \<Rightarrow>
                      k\<lparr>mem_view := (mem_view k)(key := if ttl \<le> 0 then None else Some (v, Some ttl))\<rparr>),
      rd_del = (\<lambda>ks k. (int (length (filter (\<lambda>x. mem_view k x \<noteq> None) (remdups ks))),
                  k\<lparr>mem_view := (\<lambda>x. if x \<in> set ks then None else mem_view k x)\<rparr>)),
      rd_link = (\<lambda>c k.
                  case ctx_err c of
                    Some e \<Rightarrow> ((Some e, False), k)
                  | None \<Rightarrow>
                      (case mem_faults k of
                         [] \<Rightarrow> ((None, True), k)
                       | f # r \<Rightarrow> (f, k\<lparr>mem_faults := r\<rparr>))),
      rd_now = mem_now,
      rd_sleep = (\<lambda>c d k.
                  case ctx_err c of
                    Some e \<Rightarrow> (Some e, k)
                  | None \<Rightarrow> (None, (mem_pass (d div 1000000) k)\<lparr>mem_now := mem_now k + d\<rparr>)),
      rd_tick = mem_pass\<rparr>"

lemma mem_count_counts: "counts e n \<Longrightarrow> int64 n \<Longrightarrow> mem_count e = Some n"
  by (auto simp: counts_def mem_count_def int64_def parse_int64_itoa simp del: parse_int64.simps
      split: option.splits)

interpretation mem: redis_client mem_redis mem_view
proof unfold_locales
  show "\<exists>k'. rd_incr mem_redis key k = (Some (n + 1), k') \<and>
      mem_view k' = (mem_view k)(key \<mapsto> (itoa (n + 1), entry_ttl (mem_view k key)))"
    if "counts (mem_view k key) n" "int64 n" "int64 (n + 1)" for k key n
    using mem_count_counts [OF that(1,2)] that(3) by (simp add: mem_redis_def mem_add_def)
  show "\<exists>k'. rd_decr mem_redis key k = (Some (n - 1), k') \<and>
      mem_view k' = (mem_view k)(key \<mapsto> (itoa (n - 1), entry_ttl (mem_view k key)))"
    if "counts (mem_view k key) n" "int64 n" "int64 (n - 1)" for k key n
    using mem_count_counts [OF that(1,2)] that(3) by (simp add: mem_redis_def mem_add_def)
qed (auto simp: mem_redis_def mem_pass_def split: option.splits list.splits)

interpretation mem_clock: poll_clock mem_redis
  by unfold_locales (auto simp: mem_redis_def mem_pass_def mem_add_def split: option.splits list.splits)

end
