(* ===== verification/Session_Locker.thy ===== *)
theory Session_Locker
  imports Redis_Api
begin

text \<open>
  \<open>cmd/gateway/session_locker.go\<close>: the lock of a session, held by a turn, reentrant, with a time to
  live. The scripts are translated command by command. Their abstract specification is a partial
  map from sessions to leases (owner, count, time left); the locale \<open>lease_lock\<close> says what an
  implementation of it does, and every Redis (\<open>redis_api\<close>) gives one.
\<close>

section \<open>The scripts\<close>

definition sessionLockKey :: "string \<Rightarrow> string" where
  "sessionLockKey sid = ''session:'' @ sid @ '':lock''"

definition sessionLockRefCountKey :: "string \<Rightarrow> string" where
  "sessionLockRefCountKey sid = ''session:'' @ sid @ '':refcount''"

definition sessionLockAcquireScript :: "'k redis \<Rightarrow> string \<Rightarrow> string \<Rightarrow> string \<Rightarrow> int \<Rightarrow> 'k script" where
  "sessionLockAcquireScript R k1 k2 owner ttl k =
     (case rd_get R k1 k of
        None \<Rightarrow>
          (case rd_set R k1 owner ttl k of
             (False, ka) \<Rightarrow> (lua_error, ka)
           | (True, ka) \<Rightarrow>
               (case rd_set R k2 (itoa 1) ttl ka of
                  (False, kb) \<Rightarrow> (lua_error, kb)
                | (True, kb) \<Rightarrow> (Ret 1, kb)))
      | Some current \<Rightarrow>
          if current = owner then
            (case rd_incr R k2 k of
               (None, ka) \<Rightarrow> (lua_error, ka)
             | (Some _, ka) \<Rightarrow> (Ret 1, rd_pexpire R k2 ttl (rd_pexpire R k1 ttl ka)))
          else (Ret 0, k))"

definition sessionLockReleaseScript :: "'k redis \<Rightarrow> string \<Rightarrow> string \<Rightarrow> string \<Rightarrow> 'k script" where
  "sessionLockReleaseScript R k1 k2 owner k =
     (if rd_get R k1 k \<noteq> Some owner then (Ret (- 1), k)
      else (case rd_decr R k2 k of
              (None, ka) \<Rightarrow> (lua_error, ka)
            | (Some remaining, ka) \<Rightarrow>
                if remaining \<le> 0 then (Ret 0, snd (rd_del R [k1, k2] ka)) else (Ret remaining, ka)))"

definition sessionLockExtendScript :: "'k redis \<Rightarrow> string \<Rightarrow> string \<Rightarrow> string \<Rightarrow> int \<Rightarrow> 'k script" where
  "sessionLockExtendScript R k1 k2 owner ttl k =
     (if rd_get R k1 k \<noteq> Some owner then (Ret 0, k)
      else (Ret 1, rd_pexpire R k2 ttl (rd_pexpire R k1 ttl k)))"

section \<open>The locker\<close>

record session_locker =
  sl_ttl :: int
  sl_timeout :: int

definition NewSessionLocker :: "int \<Rightarrow> int \<Rightarrow> session_locker" where
  "NewSessionLocker ttl timeout = \<lparr>sl_ttl = ttl, sl_timeout = timeout\<rparr>"

text \<open>\<open>Duration.Milliseconds\<close> truncates toward zero.\<close>

definition milliseconds :: "int \<Rightarrow> int" where
  "milliseconds d = (if d < 0 then - ((- d) div 1000000) else d div 1000000)"

definition LockTimeoutError :: "string \<Rightarrow> goerr" where
  "LockTimeoutError m =
     ECoded CodeSessionBusy (if m = [] then ''session lock acquisition timed out'' else m) None"

definition evalBoolResult :: "'k redis \<Rightarrow> ctx \<Rightarrow> 'k script \<Rightarrow> 'k \<Rightarrow> bool go \<times> 'k" where
  "evalBoolResult R c script k =
     (case redis_eval R c script k of
        (Ret n, k1) \<Rightarrow> (Ret (n = 1), k1)
      | (Fail e, k1) \<Rightarrow> (Fail e, k1)
      | (Panic m, k1) \<Rightarrow> (Panic m, k1))"

definition session_turn :: "string \<Rightarrow> string \<Rightarrow> string \<Rightarrow> string" where
  "session_turn what sid tid = what @ '' for session '' @ go_quote sid @ '' turn '' @ go_quote tid"

definition sl_Acquire ::
  "'k redis \<Rightarrow> session_locker \<Rightarrow> ctx \<Rightarrow> string \<Rightarrow> string \<Rightarrow> 'k \<Rightarrow> (unit go \<times> 'k) option" where
  "sl_Acquire R l c sid tid k =
     poll_loop (poll_fuel (sl_timeout l)) R c
       (evalBoolResult R c
          (sessionLockAcquireScript R (sessionLockKey sid) (sessionLockRefCountKey sid) tid
             (milliseconds (sl_ttl l))))
       (EWrap (session_turn ''acquire session lock'' sid tid))
       (LockTimeoutError (''session '' @ go_quote sid @ '' is busy for turn '' @ go_quote tid))
       (sl_timeout l) (rd_now R k + sl_timeout l) k"

definition sl_Release :: "'k redis \<Rightarrow> ctx \<Rightarrow> string \<Rightarrow> string \<Rightarrow> 'k \<Rightarrow> goerr option \<times> 'k" where
  "sl_Release R c sid tid k =
     (case redis_eval R c
             (sessionLockReleaseScript R (sessionLockKey sid) (sessionLockRefCountKey sid) tid) k of
        (Fail e, k1) \<Rightarrow> (Some (EWrap (session_turn ''release session lock'' sid tid) e), k1)
      | (_, k1) \<Rightarrow> (None, k1))"

definition sl_Extend ::
  "'k redis \<Rightarrow> session_locker \<Rightarrow> ctx \<Rightarrow> string \<Rightarrow> string \<Rightarrow> 'k \<Rightarrow> goerr option \<times> 'k" where
  "sl_Extend R l c sid tid k =
     (case evalBoolResult R c
             (sessionLockExtendScript R (sessionLockKey sid) (sessionLockRefCountKey sid) tid
                (milliseconds (sl_ttl l))) k of
        (Fail e, k1) \<Rightarrow> (Some (EWrap (session_turn ''extend session lock'' sid tid) e), k1)
      | (Panic m, k1) \<Rightarrow> (Some (EMsg m), k1)
      | (Ret True, k1) \<Rightarrow> (None, k1)
      | (Ret False, k1) \<Rightarrow> (Some (EMsg ''session lock is not held by this turn''), k1))"

section \<open>Specification: leases\<close>

record lease =
  ls_owner :: string
  ls_count :: int
  ls_left :: int

type_synonym leases = "string \<Rightarrow> lease option"

definition lease_acquire :: "int \<Rightarrow> string \<Rightarrow> string \<Rightarrow> leases \<Rightarrow> int \<times> leases" where
  "lease_acquire ttl s t m =
     (case m s of
        None \<Rightarrow> (1, m(s \<mapsto> \<lparr>ls_owner = t, ls_count = 1, ls_left = ttl\<rparr>))
      | Some l \<Rightarrow>
          if ls_owner l = t then (1, m(s \<mapsto> l\<lparr>ls_count := ls_count l + 1, ls_left := ttl\<rparr>))
          else (0, m))"

definition lease_release :: "string \<Rightarrow> string \<Rightarrow> leases \<Rightarrow> int \<times> leases" where
  "lease_release s t m =
     (case m s of
        None \<Rightarrow> (- 1, m)
      | Some l \<Rightarrow>
          if ls_owner l \<noteq> t then (- 1, m)
          else if ls_count l \<le> 1 then (0, m(s := None))
          else (ls_count l - 1, m(s \<mapsto> l\<lparr>ls_count := ls_count l - 1\<rparr>)))"

definition lease_extend :: "int \<Rightarrow> string \<Rightarrow> string \<Rightarrow> leases \<Rightarrow> int \<times> leases" where
  "lease_extend ttl s t m =
     (case m s of
        None \<Rightarrow> (0, m)
      | Some l \<Rightarrow> if ls_owner l \<noteq> t then (0, m) else (1, m(s \<mapsto> l\<lparr>ls_left := ttl\<rparr>)))"

definition lease_tick :: "int \<Rightarrow> leases \<Rightarrow> leases" where
  "lease_tick d m =
     (\<lambda>s. case m s of
            None \<Rightarrow> None
          | Some l \<Rightarrow> if ls_left l \<le> d then None else Some (l\<lparr>ls_left := ls_left l - d\<rparr>))"

text \<open>What happens to the locks: a script of some turn runs, or \<open>d\<close> milliseconds pass.\<close>

datatype lock_event =
    LkAcquire string string
  | LkRelease string string
  | LkExtend string string
  | LkTick int

fun lease_step :: "int \<Rightarrow> leases \<Rightarrow> lock_event \<Rightarrow> int \<times> leases" where
  "lease_step ttl m (LkAcquire s t) = lease_acquire ttl s t m"
| "lease_step ttl m (LkRelease s t) = lease_release s t m"
| "lease_step ttl m (LkExtend s t) = lease_extend ttl s t m"
| "lease_step ttl m (LkTick d) = (0, lease_tick d m)"

fun lease_run :: "int \<Rightarrow> leases \<Rightarrow> lock_event list \<Rightarrow> int list \<times> leases" where
  "lease_run ttl m [] = ([], m)"
| "lease_run ttl m (e # es) =
     (let (r, m1) = lease_step ttl m e; (rs, m2) = lease_run ttl m1 es in (r # rs, m2))"

fun event_time :: "lock_event \<Rightarrow> int" where
  "event_time (LkTick d) = d"
| "event_time _ = 0"

fun event_of :: "string \<Rightarrow> string \<Rightarrow> lock_event \<Rightarrow> bool" where
  "event_of s t (LkAcquire s' t') = (s' = s \<and> t' = t)"
| "event_of s t (LkRelease s' t') = (s' = s \<and> t' = t)"
| "event_of s t (LkExtend s' t') = (s' = s \<and> t' = t)"
| "event_of s t (LkTick d) = False"

lemma lease_step_other:
  assumes "m s = Some l" "\<not> event_of s (ls_owner l) e" "event_time e < ls_left l"
  shows "snd (lease_step ttl m e) s = Some (l\<lparr>ls_left := ls_left l - event_time e\<rparr>)"
  using assms
  by (cases e)
     (auto simp: lease_acquire_def lease_release_def lease_extend_def lease_tick_def split: option.splits)

lemma lease_run_append:
  "snd (lease_run ttl m (a @ b)) = snd (lease_run ttl (snd (lease_run ttl m a)) b)"
  by (induction a arbitrary: m) (simp_all add: case_prod_beta Let_def)

text \<open>A lease lasts its time against everything the other turns do.\<close>

lemma lease_run_holds:
  assumes "m s = Some l" "\<forall>e \<in> set es. \<not> event_of s (ls_owner l) e" "\<forall>e \<in> set es. 0 \<le> event_time e"
    "sum_list (map event_time es) < ls_left l"
  shows "snd (lease_run ttl m es) s = Some (l\<lparr>ls_left := ls_left l - sum_list (map event_time es)\<rparr>)"
  using assms
proof (induction es arbitrary: m l)
  case (Cons e es)
  have "0 \<le> sum_list (map event_time es)" using Cons.prems(3) by (intro sum_list_nonneg) auto
  with Cons.prems have "event_time e < ls_left l" by simp
  with Cons.prems have s: "snd (lease_step ttl m e) s = Some (l\<lparr>ls_left := ls_left l - event_time e\<rparr>)"
    by (intro lease_step_other) auto
  show ?case
    using Cons.IH [of "snd (lease_step ttl m e)" "l\<lparr>ls_left := ls_left l - event_time e\<rparr>", OF s] Cons.prems by (simp add: case_prod_beta Let_def algebra_simps)
qed simp

section \<open>Refinement\<close>

text \<open>The contract: every event has the result and the effect of its specification, as long as the
  counts (at most \<open>n\<close>) stay in the range of a Redis integer.\<close>

locale lease_lock =
  fixes step :: "'k \<Rightarrow> lock_event \<Rightarrow> int go \<times> 'k" and abs :: "'k \<Rightarrow> leases"
    and ok :: "int \<Rightarrow> 'k \<Rightarrow> bool" and ttl :: int
  assumes step_refines: "ok n k \<Longrightarrow> n < int64_max \<Longrightarrow> 0 \<le> event_time e \<Longrightarrow>
    \<exists>r k'. step k e = (Ret r, k') \<and> lease_step ttl (abs k) e = (r, abs k') \<and> ok (n + 1) k'"
begin

fun run :: "'k \<Rightarrow> lock_event list \<Rightarrow> int go list \<times> 'k" where
  "run k [] = ([], k)"
| "run k (e # es) = (let (r, k1) = step k e; (rs, k2) = run k1 es in (r # rs, k2))"

lemma run_refines:
  assumes "ok n k" "n + int (length es) \<le> int64_max" "\<forall>e \<in> set es. 0 \<le> event_time e"
  shows "\<exists>rs k'. run k es = (map Ret rs, k') \<and> lease_run ttl (abs k) es = (rs, abs k')"
  using assms
proof (induction es arbitrary: k n)
  case (Cons e es)
  from Cons.prems step_refines [of n k e] obtain r k1 where 1: "step k e = (Ret r, k1)"
    "lease_step ttl (abs k) e = (r, abs k1)" "ok (n + 1) k1" by auto
  with Cons.IH [OF 1(3)] Cons.prems obtain rs k2 where
    "run k1 es = (map Ret rs, k2)" "lease_run ttl (abs k1) es = (rs, abs k2)" by auto
  with 1 show ?case by simp
qed simp

end

fun sl_step :: "'k redis \<Rightarrow> int \<Rightarrow> 'k \<Rightarrow> lock_event \<Rightarrow> int go \<times> 'k" where
  "sl_step R ttl k (LkAcquire s t) =
     sessionLockAcquireScript R (sessionLockKey s) (sessionLockRefCountKey s) t ttl k"
| "sl_step R ttl k (LkRelease s t) =
     sessionLockReleaseScript R (sessionLockKey s) (sessionLockRefCountKey s) t k"
| "sl_step R ttl k (LkExtend s t) =
     sessionLockExtendScript R (sessionLockKey s) (sessionLockRefCountKey s) t ttl k"
| "sl_step R ttl k (LkTick d) = (Ret 0, rd_tick R d k)"

fun sl_run :: "'k redis \<Rightarrow> int \<Rightarrow> 'k \<Rightarrow> lock_event list \<Rightarrow> int go list \<times> 'k" where
  "sl_run R ttl k [] = ([], k)"
| "sl_run R ttl k (e # es) =
     (let (r, k1) = sl_step R ttl k e; (rs, k2) = sl_run R ttl k1 es in (r # rs, k2))"

text \<open>The leases that a keyspace holds, and the keyspaces the scripts produce: the two keys of a
  session come and go together, with the same time to live and a positive count.\<close>

type_synonym entry = "(string \<times> int option) option"

definition lease_at :: "entry \<Rightarrow> entry \<Rightarrow> lease option" where
  "lease_at a b =
     (case (a, b) of
        (Some (t, Some left), Some (c, _)) \<Rightarrow>
          map_option (\<lambda>n. \<lparr>ls_owner = t, ls_count = n, ls_left = left\<rparr>) (parse_int64 c)
      | _ \<Rightarrow> None)"

definition leases_of :: "keyspace \<Rightarrow> leases" where
  "leases_of v s = lease_at (v (sessionLockKey s)) (v (sessionLockRefCountKey s))"

definition entries_ok :: "int \<Rightarrow> entry \<Rightarrow> entry \<Rightarrow> bool" where
  "entries_ok n a b =
     (case a of
        None \<Rightarrow> b = None
      | Some (t, left) \<Rightarrow>
          (\<exists>c x. 1 \<le> c \<and> c \<le> n \<and> c \<le> int64_max \<and> left = Some x \<and> b = Some (itoa c, Some x)))"

definition coherent :: "int \<Rightarrow> keyspace \<Rightarrow> bool" where
  "coherent n v =
     (0 \<le> n \<and> (\<forall>s. entries_ok n (v (sessionLockKey s)) (v (sessionLockRefCountKey s))))"

lemma session_keys [simp]:
  "sessionLockKey s = sessionLockKey s' \<longleftrightarrow> s = s'"
  "sessionLockRefCountKey s = sessionLockRefCountKey s' \<longleftrightarrow> s = s'"
  by (simp_all add: sessionLockKey_def sessionLockRefCountKey_def)

lemma last_key [simp]: "sessionLockKey s \<noteq> sessionLockRefCountKey s'"
proof
  assume "sessionLockKey s = sessionLockRefCountKey s'"
  then have "last (sessionLockKey s) = last (sessionLockRefCountKey s')" by simp
  then show False by (simp add: sessionLockKey_def sessionLockRefCountKey_def)
qed

lemma last_key' [simp]: "sessionLockRefCountKey s' \<noteq> sessionLockKey s"
  by (rule not_sym) simp

lemma parse_count [simp]: "1 \<le> c \<Longrightarrow> c \<le> int64_max \<Longrightarrow> parse_int64 (itoa c) = Some c"
  by (rule parse_int64_itoa) (simp_all add: int64_min_def)

lemma entries_ok_cases:
  assumes "entries_ok n a b"
  obtains (free) "a = None" "b = None" "lease_at a b = None"
  | (held) t c x where "a = Some (t, Some x)" "b = Some (itoa c, Some x)" "1 \<le> c" "c \<le> n"
      "c \<le> int64_max" "lease_at a b = Some \<lparr>ls_owner = t, ls_count = c, ls_left = x\<rparr>"
proof (cases a)
  case None
  with assms show thesis by (intro free) (simp_all add: entries_ok_def lease_at_def)
next
  case (Some e)
  obtain t left where e: "e = (t, left)" by (cases e)
  from assms Some e obtain c x where "1 \<le> c" "c \<le> n" "c \<le> int64_max" "left = Some x"
    "b = Some (itoa c, Some x)" by (auto simp: entries_ok_def)
  with Some e show thesis by (intro held) (simp_all add: lease_at_def del: parse_int64.simps)
qed

lemma coherentD: "coherent n v \<Longrightarrow> entries_ok n (v (sessionLockKey s)) (v (sessionLockRefCountKey s))"
  by (simp add: coherent_def)

text \<open>Changing the two keys of one session to a lease, or removing them.\<close>

definition put_lease :: "string \<Rightarrow> lease \<Rightarrow> keyspace \<Rightarrow> keyspace" where
  "put_lease s l v = v(sessionLockKey s \<mapsto> (ls_owner l, Some (ls_left l)),
     sessionLockRefCountKey s \<mapsto> (itoa (ls_count l), Some (ls_left l)))"

definition drop_lease :: "string \<Rightarrow> keyspace \<Rightarrow> keyspace" where
  "drop_lease s v = (\<lambda>x. if x \<in> set [sessionLockKey s, sessionLockRefCountKey s] then None else v x)"

lemma put_lease_keys [simp]:
  "put_lease s l v (sessionLockKey s') =
     (if s' = s then Some (ls_owner l, Some (ls_left l)) else v (sessionLockKey s'))"
  "put_lease s l v (sessionLockRefCountKey s') =
     (if s' = s then Some (itoa (ls_count l), Some (ls_left l)) else v (sessionLockRefCountKey s'))"
  by (simp_all add: put_lease_def)

lemma drop_lease_keys [simp]:
  "drop_lease s v (sessionLockKey s') = (if s' = s then None else v (sessionLockKey s'))"
  "drop_lease s v (sessionLockRefCountKey s') = (if s' = s then None else v (sessionLockRefCountKey s'))"
  by (simp_all add: drop_lease_def)

text \<open>Nothing but the keys of the session changes.\<close>

definition same_else :: "string \<Rightarrow> keyspace \<Rightarrow> keyspace \<Rightarrow> bool" where
  "same_else s v v' =
     (\<forall>key. key \<noteq> sessionLockKey s \<and> key \<noteq> sessionLockRefCountKey s \<longrightarrow> v' key = v key)"

lemma same_else_simps [simp]:
  "same_else s v v" "same_else s v (put_lease s l v)" "same_else s v (drop_lease s v)"
  by (simp_all add: same_else_def put_lease_def drop_lease_def)

lemma leases_of_put_lease:
  "1 \<le> ls_count l \<Longrightarrow> ls_count l \<le> int64_max \<Longrightarrow> leases_of (put_lease s l v) = (leases_of v)(s \<mapsto> l)"
  by (rule ext) (simp add: leases_of_def lease_at_def del: parse_int64.simps)

lemma leases_of_drop_lease: "leases_of (drop_lease s v) = (leases_of v)(s := None)"
  by (rule ext) (simp add: leases_of_def lease_at_def)

lemma entries_ok_mono: "entries_ok n a b \<Longrightarrow> n \<le> m \<Longrightarrow> entries_ok m a b"
  unfolding entries_ok_def by (fastforce split: option.splits)

lemma coherent_mono: "coherent n v \<Longrightarrow> n \<le> m \<Longrightarrow> coherent m v"
  by (auto simp: coherent_def intro: entries_ok_mono)

lemma entries_ok_held:
  "1 \<le> c \<Longrightarrow> c \<le> n \<Longrightarrow> c \<le> int64_max \<Longrightarrow> entries_ok n (Some (t, Some x)) (Some (itoa c, Some x))"
  by (auto simp: entries_ok_def)

lemma coherent_put_lease:
  "coherent n v \<Longrightarrow> 1 \<le> ls_count l \<Longrightarrow> ls_count l \<le> int64_max \<Longrightarrow> ls_count l \<le> n \<Longrightarrow>
   coherent n (put_lease s l v)"
  using entries_ok_held by (simp add: coherent_def)

lemma coherent_drop_lease: "coherent n v \<Longrightarrow> coherent n (drop_lease s v)"
  by (simp add: coherent_def) (simp add: entries_ok_def)

lemma entries_tick:
  assumes "entries_ok n a b"
  shows "entries_ok n (expire d a) (expire d b)"
    "lease_at (expire d a) (expire d b) =
       (case lease_at a b of
          None \<Rightarrow> None
        | Some l \<Rightarrow> if ls_left l \<le> d then None else Some (l\<lparr>ls_left := ls_left l - d\<rparr>))"
  using assms
  by (cases rule: entries_ok_cases;
      simp add: entries_ok_def expire_def lease_at_def del: parse_int64.simps)+

lemma leases_of_tick: "coherent n v \<Longrightarrow> leases_of (\<lambda>x. expire d (v x)) = lease_tick d (leases_of v)"
  by (rule ext) (simp add: leases_of_def lease_tick_def entries_tick(2) [OF coherentD])

lemma coherent_tick: "coherent n v \<Longrightarrow> coherent n (\<lambda>x. expire d (v x))"
  by (simp add: coherent_def entries_tick(1))

text \<open>Every Redis implements the leases.\<close>

context redis_api
begin

lemma put_lease_entry:
  "(v(sessionLockKey s \<mapsto> (t, Some x)))(sessionLockRefCountKey s \<mapsto> (itoa c, Some x)) =
   put_lease s \<lparr>ls_owner = t, ls_count = c, ls_left = x\<rparr> v"
  by (simp add: put_lease_def)

lemma acquire_refines:
  assumes "coherent n (view k)" "n < int64_max" "0 < ttl"
  shows "\<exists>r k'. sl_step R ttl k (LkAcquire s t) = (Ret r, k') \<and>
    lease_acquire ttl s t (leases_of (view k)) = (r, leases_of (view k')) \<and> coherent (n + 1) (view k') \<and>
    same_else s (view k) (view k')"
  using coherentD [OF assms(1), of s]
proof (cases rule: entries_ok_cases)
  case free
  from set_view [OF assms(3), of "sessionLockKey s" t k] obtain ka where
    a: "rd_set R (sessionLockKey s) t ttl k = (True, ka)"
    "view ka = (view k)(sessionLockKey s \<mapsto> (t, Some ttl))" by blast
  from set_view [OF assms(3), of "sessionLockRefCountKey s" "itoa 1" ka] obtain kb where
    b: "rd_set R (sessionLockRefCountKey s) (itoa 1) ttl ka = (True, kb)"
    "view kb = (view ka)(sessionLockRefCountKey s \<mapsto> (itoa 1, Some ttl))" by blast
  have v: "view kb = put_lease s \<lparr>ls_owner = t, ls_count = 1, ls_left = ttl\<rparr> (view k)"
    by (simp only: b(2) a(2) put_lease_entry)
  from assms(1) have "coherent (n + 1) (view k)" "0 \<le> n" by (auto simp: coherent_def intro: entries_ok_mono)
  with v have "coherent (n + 1) (view kb)" by (simp add: coherent_put_lease int64_max_def)
  moreover have "leases_of (view k) s = None" using free by (simp add: leases_of_def)
  ultimately show ?thesis
    using free a(1) b(1) v
    by (simp add: sessionLockAcquireScript_def get_view lease_acquire_def leases_of_put_lease int64_max_def)
next
  case (held o' c x)
  have l: "leases_of (view k) s = Some \<lparr>ls_owner = o', ls_count = c, ls_left = x\<rparr>"
    using held by (simp add: leases_of_def)
  show ?thesis
  proof (cases "o' = t")
    case False
    with l held coherent_mono [OF assms(1)] show ?thesis
      by (simp add: sessionLockAcquireScript_def get_view lease_acquire_def)
  next
    case True
    have cnt: "counts (view k (sessionLockRefCountKey s)) c" "int64 c" "int64 (c + 1)"
      using held assms(2) by (auto simp: counts_def int64_def int64_min_def)
    from incr_view [OF cnt] obtain ka where
      a: "rd_incr R (sessionLockRefCountKey s) k = (Some (c + 1), ka)"
      "view ka = (view k)(sessionLockRefCountKey s \<mapsto> (itoa (c + 1), entry_ttl (view k (sessionLockRefCountKey s))))"
      by blast
    let ?k = "rd_pexpire R (sessionLockRefCountKey s) ttl (rd_pexpire R (sessionLockKey s) ttl ka)"
    have v: "view ?k = put_lease s \<lparr>ls_owner = t, ls_count = c + 1, ls_left = ttl\<rparr> (view k)"
      using held a(2) True by (auto simp: pexpire_view [OF assms(3)] put_lease_def fun_eq_iff)
    from assms(1) have "coherent (n + 1) (view k)" by (rule coherent_mono) simp
    with v held assms(2) have "coherent (n + 1) (view ?k)" by (simp add: coherent_put_lease)
    with l held a v True assms(2) show ?thesis
      by (simp add: sessionLockAcquireScript_def get_view lease_acquire_def leases_of_put_lease)
  qed
qed

lemma release_refines:
  assumes "coherent n (view k)"
  shows "\<exists>r k'. sl_step R ttl k (LkRelease s t) = (Ret r, k') \<and>
    lease_release s t (leases_of (view k)) = (r, leases_of (view k')) \<and> coherent n (view k') \<and>
    same_else s (view k) (view k')"
  using coherentD [OF assms(1), of s]
proof (cases rule: entries_ok_cases)
  case free
  then have "leases_of (view k) s = None" by (simp add: leases_of_def)
  with free assms show ?thesis
    by (simp add: sessionLockReleaseScript_def get_view lease_release_def)
next
  case (held o' c x)
  have l: "leases_of (view k) s = Some \<lparr>ls_owner = o', ls_count = c, ls_left = x\<rparr>"
    using held by (simp add: leases_of_def)
  show ?thesis
  proof (cases "o' = t")
    case False
    with l held assms show ?thesis
      by (simp add: sessionLockReleaseScript_def get_view lease_release_def)
  next
    case True
    have cnt: "counts (view k (sessionLockRefCountKey s)) c" "int64 c" "int64 (c - 1)"
      using held by (auto simp: counts_def int64_def int64_min_def)
    from decr_view [OF cnt] obtain ka where
      a: "rd_decr R (sessionLockRefCountKey s) k = (Some (c - 1), ka)"
      "view ka = (view k)(sessionLockRefCountKey s \<mapsto> (itoa (c - 1), entry_ttl (view k (sessionLockRefCountKey s))))"
      by blast
    show ?thesis
    proof (cases "c = 1")
      case c: True
      let ?k = "snd (rd_del R [sessionLockKey s, sessionLockRefCountKey s] ka)"
      have v: "view ?k = drop_lease s (view k)"
        by (auto simp: del_view a(2) drop_lease_def)
      with l held a(1) c True assms show ?thesis
        by (simp add: sessionLockReleaseScript_def get_view lease_release_def leases_of_drop_lease
            coherent_drop_lease)
    next
      case False
      have v: "view ka = put_lease s \<lparr>ls_owner = t, ls_count = c - 1, ls_left = x\<rparr> (view k)"
        using held True a(2) by (auto simp: put_lease_def entry_ttl_def fun_eq_iff)
      with l held a(1) False True assms show ?thesis
        by (simp add: sessionLockReleaseScript_def get_view lease_release_def leases_of_put_lease
            coherent_put_lease)
    qed
  qed
qed

lemma extend_refines:
  assumes "coherent n (view k)" "0 < ttl"
  shows "\<exists>r k'. sl_step R ttl k (LkExtend s t) = (Ret r, k') \<and>
    lease_extend ttl s t (leases_of (view k)) = (r, leases_of (view k')) \<and> coherent n (view k') \<and>
    same_else s (view k) (view k')"
  using coherentD [OF assms(1), of s]
proof (cases rule: entries_ok_cases)
  case free
  then have "leases_of (view k) s = None" by (simp add: leases_of_def)
  with free assms show ?thesis
    by (simp add: sessionLockExtendScript_def get_view lease_extend_def)
next
  case (held o' c x)
  have l: "leases_of (view k) s = Some \<lparr>ls_owner = o', ls_count = c, ls_left = x\<rparr>"
    using held by (simp add: leases_of_def)
  let ?k = "rd_pexpire R (sessionLockRefCountKey s) ttl (rd_pexpire R (sessionLockKey s) ttl k)"
  have v: "view ?k = put_lease s \<lparr>ls_owner = o', ls_count = c, ls_left = ttl\<rparr> (view k)"
    using held by (auto simp: pexpire_view [OF assms(2)] put_lease_def fun_eq_iff)
  with l held assms show ?thesis
    by (cases "o' = t")
       (simp_all add: sessionLockExtendScript_def get_view lease_extend_def leases_of_put_lease
          coherent_put_lease)
qed

lemma tick_refines:
  assumes "coherent n (view k)" "0 \<le> d"
  shows "lease_tick d (leases_of (view k)) = leases_of (view (rd_tick R d k)) \<and>
    coherent n (view (rd_tick R d k))"
proof -
  have "view (rd_tick R d k) = (\<lambda>x. expire d (view k x))"
    using tick_view [OF assms(2)] by blast
  with assms(1) show ?thesis by (simp add: leases_of_tick coherent_tick)
qed

end

locale redis_ttl = redis_api +
  fixes ttl :: int
  assumes ttl_pos: "0 < ttl"

sublocale redis_ttl \<subseteq> lease: lease_lock "sl_step R ttl" "\<lambda>k. leases_of (view k)" "\<lambda>n k. coherent n (view k)" ttl
proof unfold_locales
  fix n k e
  assume a: "coherent n (view k)" "n < int64_max" "0 \<le> event_time e"
  have m: "coherent n v \<Longrightarrow> coherent (n + 1) v" for v by (erule coherent_mono) simp
  show "\<exists>r k'. sl_step R ttl k e = (Ret r, k') \<and> lease_step ttl (leases_of (view k)) e = (r, leases_of (view k')) \<and>
      coherent (n + 1) (view k')"
  proof (cases e)
    case (LkAcquire s t)
    with acquire_refines [OF a(1,2) ttl_pos, of s t] show ?thesis by auto
  next
    case (LkRelease s t)
    with release_refines [OF a(1), of ttl s t] m show ?thesis by auto
  next
    case (LkExtend s t)
    with extend_refines [OF a(1) ttl_pos, of s t] m show ?thesis by auto
  next
    case (LkTick d)
    with tick_refines [OF a(1), of d] a(3) m show ?thesis by simp
  qed
qed

context redis_ttl
begin

lemma sl_run_lease: "sl_run R ttl k es = lease.run k es"
  by (induction es arbitrary: k) (simp_all add: case_prod_beta)

lemma sl_run_refines:
  assumes "coherent n (view k)" "n + int (length es) \<le> int64_max" "\<forall>e \<in> set es. 0 \<le> event_time e"
  shows "\<exists>rs k'. sl_run R ttl k es = (map Ret rs, k') \<and>
    lease_run ttl (leases_of (view k)) es = (rs, leases_of (view k'))"
  unfolding sl_run_lease by (rule lease.run_refines [OF assms])

text \<open>An acquisition that returns has made the turn the owner.\<close>

lemma attempt_owns:
  assumes "evalBoolResult R c (sessionLockAcquireScript R (sessionLockKey s) (sessionLockRefCountKey s) t ttl) k =
      (Ret True, k')" "coherent n (view k)" "n < int64_max"
  shows "\<exists>l. leases_of (view k') s = Some l \<and> ls_owner l = t \<and> ls_left l = ttl"
proof -
  obtain f b k1 where lk: "rd_link R c k = ((f, b), k1)" by (metis prod.exhaust)
  then have v: "view k1 = view k" using link_view [of c k] by simp
  from acquire_refines [of n k1 ttl s t] v assms(2,3) ttl_pos obtain r k2 where
    r: "sl_step R ttl k1 (LkAcquire s t) = (Ret r, k2)"
    "lease_acquire ttl s t (leases_of (view k1)) = (r, leases_of (view k2))" by auto
  with assms(1) lk have "r = 1" "k' = k2" "f = None"
    by (auto simp: evalBoolResult_def redis_eval_def split: option.splits)
  with r(2) [symmetric] show ?thesis by (auto simp: lease_acquire_def split: option.splits if_splits)
qed

end

interpretation mem_ttl: redis_ttl mem_redis mem_view 60000
  by unfold_locales simp

section \<open>Properties\<close>

text \<open>
  C4. Refinement: on any Redis that behaves as documented, every sequence of acquire, release and
  extend scripts of any turns on any sessions, interleaved with the passing of time, returns the
  results of the lease specification and ends in its state.
\<close>

theorem session_lock_refines_leases:
  assumes "redis_api R view" and "0 < ttl" and "coherent n (view k)"
    and "n + int (length es) \<le> int64_max" and "\<forall>e \<in> set es. 0 \<le> event_time e"
  shows "\<exists>rs k'. sl_run R ttl k es = (map Ret rs, k') \<and>
    lease_run ttl (leases_of (view k)) es = (rs, leases_of (view k'))"
proof -
  from assms(1,2) have "redis_ttl R view ttl" by (simp add: redis_ttl_def redis_ttl_axioms_def)
  then show ?thesis using assms(3-5) by (rule redis_ttl.sl_run_refines)
qed

definition mem_empty :: mem_state where
  "mem_empty = \<lparr>mem_view = (\<lambda>_. None), mem_now = 0, mem_faults = []\<rparr>"

lemma coherent_empty [simp]: "coherent 0 (mem_view mem_empty)"
  by (simp add: coherent_def mem_empty_def entries_ok_def)

theorem session_lock_refines_leases_witness:
  "\<exists>rs k'. sl_run mem_redis 60000 mem_empty
      [LkAcquire ''s'' ''t1'', LkAcquire ''s'' ''t2'', LkTick 60000, LkAcquire ''s'' ''t2''] = (map Ret rs, k') \<and>
     rs = [1, 0, 0, 1]"
proof -
  have "\<exists>rs k'. sl_run mem_redis 60000 mem_empty
      [LkAcquire ''s'' ''t1'', LkAcquire ''s'' ''t2'', LkTick 60000, LkAcquire ''s'' ''t2''] = (map Ret rs, k') \<and>
      lease_run 60000 (leases_of (mem_view mem_empty))
        [LkAcquire ''s'' ''t1'', LkAcquire ''s'' ''t2'', LkTick 60000, LkAcquire ''s'' ''t2''] =
      (rs, leases_of (mem_view k'))"
    by (rule session_lock_refines_leases [OF mem.redis_api_axioms, of _ 0])
       (simp_all add: int64_max_def)
  then show ?thesis
    by (auto simp: lease_acquire_def lease_tick_def leases_of_def lease_at_def mem_empty_def)
qed

text \<open>
  Mutual exclusion: while a turn holds a session, nothing that other turns or other sessions do
  takes the lock away or changes its count, until the time to live of the lease has passed.
\<close>

theorem session_lock_exclusive:
  assumes "redis_api R view" and "0 < ttl" and "coherent n (view k)"
    and "n + int (length es) \<le> int64_max" and "\<forall>e \<in> set es. 0 \<le> event_time e"
    and "leases_of (view k) s = Some l" and "\<forall>e \<in> set es. \<not> event_of s (ls_owner l) e"
    and "sum_list (map event_time es) < ls_left l"
  shows "leases_of (view (snd (sl_run R ttl k es))) s =
    Some (l\<lparr>ls_left := ls_left l - sum_list (map event_time es)\<rparr>)"
proof -
  from assms(1,2) have "redis_ttl R view ttl" by (simp add: redis_ttl_def redis_ttl_axioms_def)
  from redis_ttl.sl_run_refines [OF this assms(3-5)] obtain rs k' where
    "sl_run R ttl k es = (map Ret rs, k')" "lease_run ttl (leases_of (view k)) es = (rs, leases_of (view k'))"
    by blast
  with lease_run_holds [of "leases_of (view k)" s l, OF assms(6,7,5,8), of ttl] show ?thesis by simp
qed

definition mem_held :: mem_state where
  "mem_held = mem_empty\<lparr>mem_view :=
     put_lease ''s'' \<lparr>ls_owner = ''t1'', ls_count = 1, ls_left = 60000\<rparr> (\<lambda>_. None)\<rparr>"

theorem session_lock_exclusive_witness:
  "\<exists>l. leases_of (mem_view (snd (sl_run mem_redis 60000 mem_held
       [LkAcquire ''s'' ''t2'', LkRelease ''s'' ''t2'', LkTick 59999]))) ''s'' = Some l \<and>
     ls_owner l = ''t1''"
proof -
  let ?l = "\<lparr>ls_owner = ''t1'', ls_count = 1, ls_left = 60000\<rparr>"
  have "coherent 1 (\<lambda>_. None)" by (simp add: coherent_def entries_ok_def)
  then have c: "coherent 1 (mem_view mem_held)"
    by (simp add: mem_held_def coherent_put_lease int64_max_def)
  have l: "leases_of (mem_view mem_held) ''s'' = Some ?l"
    by (simp add: mem_held_def leases_of_put_lease int64_max_def)
  from session_lock_exclusive [OF mem.redis_api_axioms, of 60000 1 mem_held
      "[LkAcquire ''s'' ''t2'', LkRelease ''s'' ''t2'', LkTick 59999]" "''s''" ?l] c l
  show ?thesis by (simp add: int64_max_def)
qed

context poll_clock
begin

lemma acquire_script_now: "rd_now R k \<le> rd_now R (snd (sessionLockAcquireScript R k1 k2 t ttl k))"
proof -
  have p: "rd_now R a \<le> rd_now R (rd_pexpire R k2 ttl (rd_pexpire R k1 ttl a))" for a
    using pexpire_now order_trans by blast
  show ?thesis
    using set_now [of k k1 t ttl] set_now [of "snd (rd_set R k1 t ttl k)" k2 "itoa 1" ttl]
      incr_now [of k k2] p [of "snd (rd_incr R k2 k)"]
    by (auto simp: sessionLockAcquireScript_def lua_error_def split: option.splits prod.splits bool.splits)
qed

lemma eval_now:
  assumes "\<And>k. rd_now R k \<le> rd_now R (snd (script k))"
  shows "rd_now R k \<le> rd_now R (snd (redis_eval R c script k))"
  using link_now [of k c] assms [of "snd (rd_link R c k)"]
  by (auto simp: redis_eval_def split: prod.splits option.splits)

lemma evalBoolResult_now:
  assumes "\<And>k. rd_now R k \<le> rd_now R (snd (script k))"
  shows "rd_now R k \<le> rd_now R (snd (evalBoolResult R c script k))"
  using eval_now [OF assms, of k c]
  by (auto simp: evalBoolResult_def split: prod.splits go.splits)

lemma sl_Acquire_returns: "\<exists>y. sl_Acquire R l c sid tid k = Some y"
  unfolding sl_Acquire_def by (intro poll_returns evalBoolResult_now acquire_script_now)

end

text \<open>
  C31. \<open>Acquire\<close> returns: with a clock that does not run backwards, it ends after at most one try
  per poll interval of the acquire timeout and three more, whatever the other clients do.
\<close>

theorem session_acquire_returns:
  assumes "poll_clock R"
  shows "\<exists>y. sl_Acquire R l c sid tid k = Some y"
  using assms by (rule poll_clock.sl_Acquire_returns)

theorem session_acquire_returns_witness:
  "\<exists>y. sl_Acquire mem_redis (NewSessionLocker 60000000000 5000000000) background ''s'' ''t2'' mem_held = Some y"
  by (rule session_acquire_returns [OF mem_clock.poll_clock_axioms])

text \<open>
  A release under a context that is done, such as that of a call whose client has gone away,
  fails without reaching the server: the session stays locked against every other turn until the
  rest of the time to live has passed.
\<close>

theorem cancelled_release_keeps_lock:
  assumes "redis_client R view" and "0 < ttl" and "coherent n (view k)" and "n < int64_max"
    and "ctx_err c = Some e" and "leases_of (view k) s = Some l"
    and "t \<noteq> ls_owner l" and "0 \<le> d" and "d < ls_left l"
  shows "sl_Release R c s (ls_owner l) k =
      (Some (EWrap (session_turn ''release session lock'' s (ls_owner l)) e), k) \<and>
    fst (sl_step R ttl (rd_tick R d k) (LkAcquire s t)) = Ret 0"
proof
  have api: "redis_api R view" using assms(1) by (simp add: redis_client_def)
  then have R: "redis_ttl R view ttl" using assms(2) by (simp add: redis_ttl_def redis_ttl_axioms_def)
  show "sl_Release R c s (ls_owner l) k =
      (Some (EWrap (session_turn ''release session lock'' s (ls_owner l)) e), k)"
    using redis_client.eval_done [OF assms(1,5)] by (simp add: sl_Release_def)
  from redis_api.tick_refines [OF api assms(3,8)] have
    t: "leases_of (view (rd_tick R d k)) s = Some (l\<lparr>ls_left := ls_left l - d\<rparr>)"
    and c: "coherent n (view (rd_tick R d k))"
    using assms(6,9) by (auto simp: lease_tick_def fun_eq_iff dest: spec [of _ s])
  from redis_api.acquire_refines [OF api c assms(4,2), of s t] t assms(7)
  show "fst (sl_step R ttl (rd_tick R d k) (LkAcquire s t)) = Ret 0"
    by (auto simp: lease_acquire_def)
qed

theorem cancelled_release_keeps_lock_witness:
  "fst (sl_step mem_redis 60000 (rd_tick mem_redis 59999 mem_held) (LkAcquire ''s'' ''t2'')) = Ret 0"
proof -
  let ?l = "\<lparr>ls_owner = ''t1'', ls_count = 1, ls_left = 60000\<rparr>"
  have "coherent 1 (\<lambda>_. None)" by (simp add: coherent_def entries_ok_def)
  then have c: "coherent 1 (mem_view mem_held)"
    by (simp add: mem_held_def coherent_put_lease int64_max_def)
  have l: "leases_of (mem_view mem_held) ''s'' = Some ?l"
    by (simp add: mem_held_def leases_of_put_lease int64_max_def)
  from cancelled_release_keeps_lock [OF mem.redis_client_axioms _ c _ _ l,
      of 60000 "background\<lparr>ctx_err := Some (EMsg ''context canceled'')\<rparr>" "EMsg ''context canceled''" "''t2''" 59999]
  show ?thesis by (simp add: int64_max_def)
qed

text \<open>
  The lock of a turn that waits for an approval lasts as long as it is extended in time: after
  any number of extensions, each less than the time to live after the one before, the turn still
  holds the session with its count, whatever other turns and sessions did in between.
\<close>

theorem extended_lock_lasts:
  assumes "redis_api R view" and "0 < ttl" and "coherent n (view k)"
    and "leases_of (view k) s = Some l" and "ls_left l = ttl"
    and "es = concat (map (\<lambda>b. b @ [LkExtend s (ls_owner l)]) bs)"
    and "n + int (length es) \<le> int64_max"
    and "\<forall>b \<in> set bs. (\<forall>e \<in> set b. 0 \<le> event_time e \<and> \<not> event_of s (ls_owner l) e) \<and>
           sum_list (map event_time b) < ttl"
  shows "leases_of (view (snd (sl_run R ttl k es))) s = Some l"
proof -
  from assms(1,2) have R: "redis_ttl R view ttl" by (simp add: redis_ttl_def redis_ttl_axioms_def)
  have "\<forall>e \<in> set es. 0 \<le> event_time e" using assms(6,8) by auto
  from redis_ttl.sl_run_refines [OF R assms(3,7) this] obtain rs k' where
    "sl_run R ttl k es = (map Ret rs, k')" "lease_run ttl (leases_of (view k)) es = (rs, leases_of (view k'))"
    by blast
  moreover have "snd (lease_run ttl m (concat (map (\<lambda>b. b @ [LkExtend s (ls_owner l)]) bs))) s = Some l"
    if "m s = Some l" for m
    using assms(8) that
  proof (induction bs arbitrary: m)
    case (Cons b bs)
    have h: "snd (lease_run ttl m b) s = Some (l\<lparr>ls_left := ls_left l - sum_list (map event_time b)\<rparr>)"
      using Cons.prems assms(5) by (intro lease_run_holds) auto
    have "snd (lease_run ttl m (b @ [LkExtend s (ls_owner l)])) s = Some l"
      using h assms(5) by (simp add: lease_run_append lease_extend_def)
    from Cons.IH [of "snd (lease_run ttl m (b @ [LkExtend s (ls_owner l)]))", OF _ this] Cons.prems have "snd (lease_run ttl (snd (lease_run ttl m (b @ [LkExtend s (ls_owner l)])))
        (concat (map (\<lambda>b. b @ [LkExtend s (ls_owner l)]) bs))) s = Some l" by simp
    then show ?case
      by (simp only: list.map concat.simps lease_run_append [of ttl m "b @ [LkExtend s (ls_owner l)]"])
  qed simp
  ultimately show ?thesis using assms(4,6) by (metis snd_conv)
qed

theorem extended_lock_lasts_witness:
  "\<exists>l. leases_of (mem_view (snd (sl_run mem_redis 60000 mem_held
       [LkTick 30000, LkExtend ''s'' ''t1'', LkTick 59000, LkAcquire ''s'' ''t2'', LkExtend ''s'' ''t1'']))) ''s'' =
     Some l"
proof -
  let ?l = "\<lparr>ls_owner = ''t1'', ls_count = 1, ls_left = 60000\<rparr>"
  have "coherent 1 (\<lambda>_. None)" by (simp add: coherent_def entries_ok_def)
  then have c: "coherent 1 (mem_view mem_held)"
    by (simp add: mem_held_def coherent_put_lease int64_max_def)
  have l: "leases_of (mem_view mem_held) ''s'' = Some ?l"
    by (simp add: mem_held_def leases_of_put_lease int64_max_def)
  from extended_lock_lasts [OF mem.redis_api_axioms _ c l, of 60000
      "[LkTick 30000, LkExtend ''s'' ''t1'', LkTick 59000, LkAcquire ''s'' ''t2'', LkExtend ''s'' ''t1'']"
      "[[LkTick 30000], [LkTick 59000, LkAcquire ''s'' ''t2'']]"]
  show ?thesis by (simp add: int64_max_def)
qed

end
