(* ===== verification/Sessions.thy ===== *)
theory Sessions
  imports Budget
begin

text \<open>
  \<open>cmd/gateway/session.go\<close>: session ids, which are random UUIDs, and the registry of the sessions
  that \<open>initialize\<close> has created. The random bytes are an argument. The layout of the ids is also
  that of the tokens of \<open>turn_rwlock.go\<close>.
\<close>

section \<open>Ids\<close>

text \<open>The version and variant bits of a UUID (version 4) are put into sixteen random bytes, and the
  bytes are printed in five groups.\<close>

definition uuid_bits :: "8 word list \<Rightarrow> 8 word list" where
  "uuid_bits b = b[6 := (b ! 6 AND 0x0F) OR 0x40, 8 := (b ! 8 AND 0x3F) OR 0x80]"

definition uuid_text :: "8 word list \<Rightarrow> string" where
  "uuid_text b =
     join ''-'' [hex_bytes (take 4 b), hex_bytes (take 2 (drop 4 b)), hex_bytes (take 2 (drop 6 b)),
       hex_bytes (take 2 (drop 8 b)), hex_bytes (take 6 (drop 10 b))]"

definition newSessionID :: "8 word list go \<Rightarrow> string go" where
  "newSessionID rand =
     (case rand of
        Ret b \<Rightarrow> Ret (uuid_text (uuid_bits b))
      | Fail e \<Rightarrow> Panic (''generate session ID: '' @ err_text e)
      | Panic m \<Rightarrow> Panic m)"

lemma unat_high_nibble: "unat (w :: 8 word) div 16 = unat (drop_bit 4 w)"
  unfolding unat_drop_bit_eq by (simp add: drop_bit_eq_div)

lemma version_nibble: "unat (((b :: 8 word) AND 0x0F) OR 0x40) div 16 = 4"
proof -
  have "drop_bit 4 ((b AND 0x0F) OR 0x40) = (4 :: 8 word)"
    by (rule bit_word_eqI) (auto simp: bit_simps less_Suc_eq numeral_eq_Suc)
  then show ?thesis by (simp add: unat_high_nibble)
qed

lemma variant_bits: "unat (((b :: 8 word) AND 0x3F) OR 0x80) div 64 = 2"
proof -
  have "drop_bit 6 ((b AND 0x3F) OR 0x80) = (2 :: 8 word)"
    by (rule bit_word_eqI) (auto simp: bit_simps less_Suc_eq numeral_eq_Suc)
  then have "unat (drop_bit 6 (((b :: 8 word) AND 0x3F) OR 0x80)) = 2" by simp
  then show ?thesis unfolding unat_drop_bit_eq by (simp add: drop_bit_eq_div)
qed

lemma variant_nibble: "unat (((b :: 8 word) AND 0x3F) OR 0x80) div 16 \<in> {8, 9, 10, 11}"
proof -
  let ?u = "unat ((b AND 0x3F) OR 0x80)"
  have "?u div 16 div 4 = 2" using variant_bits [of b] by (simp add: div_mult2_eq [symmetric])
  then have "8 \<le> ?u div 16" "?u div 16 < 12" by arith+
  then show ?thesis by auto
qed

text \<open>Sixteen bytes by name.\<close>

lemma sixteen:
  assumes "length b = 16"
  obtains b0 b1 b2 b3 b4 b5 b6 b7 b8 b9 b10 b11 b12 b13 b14 b15 where
    "b = [b0, b1, b2, b3, b4, b5, b6, b7, b8, b9, b10, b11, b12, b13, b14, b15]"
  using assms by (auto simp: numeral_eq_Suc length_Suc_conv)

lemma length_uuid_bits [simp]: "length (uuid_bits b) = length b"
  by (simp add: uuid_bits_def)

lemma hex_digit_values:
  "hex_digit 4 = CHR ''4''" "hex_digit 8 = CHR ''8''" "hex_digit 9 = CHR ''9''"
  "hex_digit 10 = CHR ''a''" "hex_digit 11 = CHR ''b''"
  by code_simp+

lemma hex_digit_not [simp]:
  "d < 16 \<Longrightarrow> hex_digit d \<noteq> CHR '':''" "d < 16 \<Longrightarrow> hex_digit d \<noteq> CHR ''-''"
proof -
  have *: "of_char (hex_digit d) = (if d < 10 then 48 + d else 87 + d)" if "d < 16" for d :: nat
    using that by (auto simp: hex_digit_def)
  show "d < 16 \<Longrightarrow> hex_digit d \<noteq> CHR '':''" "d < 16 \<Longrightarrow> hex_digit d \<noteq> CHR ''-''"
    using * [of d] by (auto split: if_splits)
qed

lemma hex_byte_chars: "c \<in> set (hex_byte w) \<Longrightarrow> \<exists>d < 16. c = hex_digit d"
proof -
  have "unat w < 2 ^ LENGTH(8)" by (rule unsigned_less)
  then have "unat w div 16 < 16" by simp
  then show "c \<in> set (hex_byte w) \<Longrightarrow> \<exists>d < 16. c = hex_digit d"
    by (auto simp: hex_byte_def intro: exI [of _ "unat w mod 16"] exI [of _ "unat w div 16"])
qed

lemma hex_bytes_chars: "c \<in> set (hex_bytes ws) \<Longrightarrow> c \<noteq> CHR '':'' \<and> c \<noteq> CHR ''-''"
  by (auto simp: hex_bytes_def dest!: hex_byte_chars)

lemma colon_free_uuid: "colon_free (uuid_text b)"
  using hex_bytes_chars by (auto simp: colon_free_def uuid_text_def)

lemma five_groups:
  "length a = length a' \<Longrightarrow> length b = length b' \<Longrightarrow> length c = length c' \<Longrightarrow> length d = length d' \<Longrightarrow>
   join [x] [a, b, c, d, e] = join [x] [a', b', c', d', e'] \<longleftrightarrow>
     a = a' \<and> b = b' \<and> c = c' \<and> d = d' \<and> e = e'"
  by simp

lemma uuid_text_inj:
  assumes "length a = 16" "length b = 16"
  shows "uuid_text a = uuid_text b \<longleftrightarrow> a = b"
proof
  assume e: "uuid_text a = uuid_text b"
  have l: "length (hex_bytes (take 4 a)) = length (hex_bytes (take 4 b))"
    "length (hex_bytes (take 2 (drop 4 a))) = length (hex_bytes (take 2 (drop 4 b)))"
    "length (hex_bytes (take 2 (drop 6 a))) = length (hex_bytes (take 2 (drop 6 b)))"
    "length (hex_bytes (take 2 (drop 8 a))) = length (hex_bytes (take 2 (drop 8 b)))"
    using assms by simp_all
  note g = e [unfolded uuid_text_def five_groups [OF l]]
  have "take 4 a = take 4 b" "take 2 (drop 4 a) = take 2 (drop 4 b)"
    "take 2 (drop 6 a) = take 2 (drop 6 b)" "take 2 (drop 8 a) = take 2 (drop 8 b)"
    "take 6 (drop 10 a) = take 6 (drop 10 b)"
    using g assms by (auto dest!: inj_hex_bytes [THEN iffD1, rotated])
  moreover have "x = take 4 x @ take 2 (drop 4 x) @ take 2 (drop 6 x) @ take 2 (drop 8 x) @ take 6 (drop 10 x)"
    if "length x = 16" for x :: "8 word list"
    using append_take_drop_id [of 4 x] append_take_drop_id [of 2 "drop 4 x"]
      append_take_drop_id [of 2 "drop 6 x"] append_take_drop_id [of 2 "drop 8 x"] that by simp
  ultimately show "a = b" using assms by metis
qed simp

section \<open>The registry\<close>

record session =
  se_id :: string
  se_created :: int

type_synonym registry = "(string \<times> session) list"

definition sr_Create :: "8 word list go \<Rightarrow> int \<Rightarrow> registry \<Rightarrow> session go \<times> registry" where
  "sr_Create rand now r =
     (case newSessionID rand of
        Ret i \<Rightarrow> let s = \<lparr>se_id = i, se_created = now\<rparr> in (Ret s, map_put i s r)
      | Fail e \<Rightarrow> (Fail e, r)
      | Panic m \<Rightarrow> (Panic m, r))"

definition sr_Get :: "string \<Rightarrow> registry \<Rightarrow> session option" where
  "sr_Get i r = map_of r i"

definition sr_Delete :: "string \<Rightarrow> registry \<Rightarrow> registry" where
  "sr_Delete i r = filter (\<lambda>(k, _). k \<noteq> i) r"

lemma map_of_sr_Delete: "map_of (sr_Delete i r) = (map_of r)(i := None)"
  by (induction r) (auto simp: sr_Delete_def)

datatype registry_op = SrCreate "8 word list go" int | SrDelete string

fun sr_step :: "registry \<Rightarrow> registry_op \<Rightarrow> registry" where
  "sr_step r (SrCreate rand now) = snd (sr_Create rand now r)"
| "sr_step r (SrDelete i) = sr_Delete i r"

fun creates :: "string \<Rightarrow> registry_op \<Rightarrow> bool" where
  "creates i (SrCreate rand now) = (newSessionID rand = Ret i)"
| "creates i (SrDelete j) = False"

lemma sr_step_lookup:
  "map_of (sr_step r e) i \<noteq> None \<longleftrightarrow> creates i e \<or> (map_of r i \<noteq> None \<and> e \<noteq> SrDelete i)"
  by (cases e) (auto simp: sr_Create_def Let_def map_of_sr_Delete split: go.splits)

lemma sr_fold_lookup:
  "map_of (fold (\<lambda>e r. sr_step r e) es r) i \<noteq> None \<longleftrightarrow>
     (\<exists>pre e post. es = pre @ e # post \<and> creates i e \<and> SrDelete i \<notin> set post) \<or>
     (map_of r i \<noteq> None \<and> SrDelete i \<notin> set es)"
proof (induction es arbitrary: r)
  case (Cons x es)
  have "(\<exists>pre e post. x # es = pre @ e # post \<and> creates i e \<and> SrDelete i \<notin> set post) \<longleftrightarrow>
      (creates i x \<and> SrDelete i \<notin> set es) \<or>
      (\<exists>pre e post. es = pre @ e # post \<and> creates i e \<and> SrDelete i \<notin> set post)"
    by (auto simp: Cons_eq_append_conv)
  with Cons [of "sr_step r x"] sr_step_lookup [of r x i] show ?case by auto
qed simp

section \<open>Properties\<close>

text \<open>
  C35. A session id made from sixteen random bytes has the form of a version 4 UUID: 36 characters,
  a hyphen after 8, 12, 16 and 20 hexadecimal digits, version digit 4, variant digit 8, 9, a or b;
  it contains no colon, and two ids are equal only when all bits but the six fixed ones are.
\<close>

theorem session_id_is_uuid:
  assumes "length a = 16" and "length b = 16"
    and "newSessionID (Ret a) = Ret i" and "newSessionID (Ret b) = Ret j"
  shows "length i = 36 \<and> i ! 8 = CHR ''-'' \<and> i ! 13 = CHR ''-'' \<and> i ! 18 = CHR ''-'' \<and>
    i ! 23 = CHR ''-'' \<and> i ! 14 = CHR ''4'' \<and> i ! 19 \<in> set ''89ab'' \<and> colon_free i \<and>
    (i = j \<longleftrightarrow> uuid_bits a = uuid_bits b)"
proof -
  from assms have ij: "i = uuid_text (uuid_bits a)" "j = uuid_text (uuid_bits b)"
    by (simp_all add: newSessionID_def)
  from assms(1,2) have "i = j \<longleftrightarrow> uuid_bits a = uuid_bits b"
    by (simp add: ij uuid_text_inj)
  moreover have "colon_free i" by (simp add: ij colon_free_uuid)
  moreover obtain b0 b1 b2 b3 b4 b5 b6 b7 b8 b9 b10 b11 b12 b13 b14 b15 where
    a: "a = [b0, b1, b2, b3, b4, b5, b6, b7, b8, b9, b10, b11, b12, b13, b14, b15]"
    using sixteen [OF assms(1)] .
  have i: "i = hex_bytes [b0, b1, b2, b3] @ ''-'' @ hex_bytes [b4, b5] @ ''-'' @
      hex_bytes [(b6 AND 0x0F) OR 0x40, b7] @ ''-'' @ hex_bytes [(b8 AND 0x3F) OR 0x80, b9] @ ''-'' @
      hex_bytes [b10, b11, b12, b13, b14, b15]"
    by (simp add: ij a uuid_text_def uuid_bits_def)
  have "hex_digit (unat ((b8 AND 0x3F) OR 0x80) div 16) \<in> set ''89ab''"
    using variant_nibble [of b8] by (auto simp: hex_digit_values)
  then have "length i = 36 \<and> i ! 8 = CHR ''-'' \<and> i ! 13 = CHR ''-'' \<and> i ! 18 = CHR ''-'' \<and>
    i ! 23 = CHR ''-'' \<and> i ! 14 = CHR ''4'' \<and> i ! 19 \<in> set ''89ab''"
    by (simp add: i hex_bytes_def hex_byte_def version_nibble hex_digit_values)
  ultimately show ?thesis by blast
qed

theorem session_id_is_uuid_witness:
  "length (uuid_text (uuid_bits (replicate 16 0))) = 36"
  using session_id_is_uuid [of "replicate 16 0" "replicate 16 0"] by (simp add: newSessionID_def)

text \<open>
  The registry knows an id exactly when it was created and has not been deleted since, whatever
  else was created and deleted in between.
\<close>

theorem registry_knows_live_sessions:
  "sr_Get i (fold (\<lambda>e r. sr_step r e) es []) \<noteq> None \<longleftrightarrow>
     (\<exists>pre e post. es = pre @ e # post \<and> creates i e \<and> SrDelete i \<notin> set post)"
  using sr_fold_lookup [of es "[]" i] by (simp add: sr_Get_def)

end
