(* ===== verification/Turn_RWLock.thy ===== *)
theory Turn_RWLock
  imports Session_Locker Sessions
begin

text \<open>
  \<open>cmd/gateway/turn_rwlock.go\<close>: many readers or one writer among the calls of one turn. The keys
  are a count of readers and the token of the writer, each with a time to live that only the
  acquisition sets. The lemmas say what the scripts do on a keyspace of the documented Redis, that
  they keep readers and writers apart while the keys live, and what happens after they expire.
\<close>

section \<open>The scripts\<close>

definition turnReadersKey :: "string \<Rightarrow> string" where
  "turnReadersKey tid = ''turn:'' @ tid @ '':readers''"

definition turnWriteLockKey :: "string \<Rightarrow> string" where
  "turnWriteLockKey tid = ''turn:'' @ tid @ '':wlock''"

definition turnReadLockScript :: "'k redis \<Rightarrow> string \<Rightarrow> string \<Rightarrow> int \<Rightarrow> 'k script" where
  "turnReadLockScript R k1 k2 ttl k =
     (if rd_exists R k2 k then (Ret 0, k)
      else (case rd_incr R k1 k of
              (None, ka) \<Rightarrow> (lua_error, ka)
            | (Some readers, ka) \<Rightarrow> (Ret readers, rd_pexpire R k1 ttl ka)))"

definition turnReadUnlockScript :: "'k redis \<Rightarrow> string \<Rightarrow> 'k script" where
  "turnReadUnlockScript R k1 k =
     (case rd_decr R k1 k of (None, ka) \<Rightarrow> (lua_error, ka) | (Some n, ka) \<Rightarrow> (Ret n, ka))"

text \<open>\<open>tonumber\<close> of the count: the scripts only ever store decimal integers; any other text is not
  equal to zero.\<close>

definition turnWriteLockScript :: "'k redis \<Rightarrow> string \<Rightarrow> string \<Rightarrow> string \<Rightarrow> int \<Rightarrow> 'k script" where
  "turnWriteLockScript R k1 k2 token ttl k =
     (if parse_int64 (the_default ''0'' (rd_get R k1 k)) \<noteq> Some 0 then (Ret 0, k)
      else (case rd_setnx R k2 token ttl k of
              (None, ka) \<Rightarrow> (lua_error, ka)
            | (Some b, ka) \<Rightarrow> (Ret (if b then 1 else 0), ka)))"

definition turnWriteUnlockScript :: "'k redis \<Rightarrow> string \<Rightarrow> string \<Rightarrow> 'k script" where
  "turnWriteUnlockScript R k1 token k =
     (if rd_get R k1 k \<noteq> Some token then (Ret 0, k)
      else (case rd_del R [k1] k of (n, ka) \<Rightarrow> (Ret n, ka)))"

section \<open>Owner tokens\<close>

definition newTurnWriteOwnerToken :: "8 word list go \<Rightarrow> string go" where
  "newTurnWriteOwnerToken rand =
     (case rand of Fail e \<Rightarrow> Fail e | Panic m \<Rightarrow> Panic m | Ret b \<Rightarrow> Ret (uuid_text (uuid_bits b)))"

section \<open>The lock\<close>

record turn_rwlock =
  rw_ttl :: int
  rw_timeout :: int

definition NewTurnRWLock :: "int \<Rightarrow> int \<Rightarrow> turn_rwlock" where
  "NewTurnRWLock ttl timeout = \<lparr>rw_ttl = ttl, rw_timeout = timeout\<rparr>"

definition evalAcquireResult :: "'k redis \<Rightarrow> ctx \<Rightarrow> 'k script \<Rightarrow> 'k \<Rightarrow> bool go \<times> 'k" where
  "evalAcquireResult R c script k =
     (case redis_eval R c script k of
        (Ret n, k1) \<Rightarrow> (Ret (n \<noteq> 0), k1)
      | (Fail e, k1) \<Rightarrow> (Fail e, k1)
      | (Panic m, k1) \<Rightarrow> (Panic m, k1))"

definition for_turn :: "string \<Rightarrow> string \<Rightarrow> string" where
  "for_turn what tid = what @ '' lock for turn '' @ go_quote tid"

definition turn_timeout :: "string \<Rightarrow> string \<Rightarrow> goerr" where
  "turn_timeout what tid =
     LockTimeoutError (''turn '' @ go_quote tid @ '' '' @ what @ '' lock acquisition timed out'')"

definition rw_ReadLock :: "'k redis \<Rightarrow> turn_rwlock \<Rightarrow> ctx \<Rightarrow> string \<Rightarrow> 'k \<Rightarrow> (unit go \<times> 'k) option" where
  "rw_ReadLock R l c tid k =
     poll_loop (poll_fuel (rw_timeout l)) R c
       (evalAcquireResult R c
          (turnReadLockScript R (turnReadersKey tid) (turnWriteLockKey tid) (milliseconds (rw_ttl l))))
       (EWrap (for_turn ''acquire read'' tid)) (turn_timeout ''read'' tid)
       (rw_timeout l) (rd_now R k + rw_timeout l) k"

definition rw_ReadUnlock :: "'k redis \<Rightarrow> ctx \<Rightarrow> string \<Rightarrow> 'k \<Rightarrow> goerr option \<times> 'k" where
  "rw_ReadUnlock R c tid k =
     (case redis_eval R c (turnReadUnlockScript R (turnReadersKey tid)) k of
        (Fail e, k1) \<Rightarrow> (Some (EWrap (for_turn ''release read'' tid) e), k1)
      | (_, k1) \<Rightarrow> (None, k1))"

definition rw_WriteLock ::
  "'k redis \<Rightarrow> turn_rwlock \<Rightarrow> 8 word list go \<Rightarrow> ctx \<Rightarrow> string \<Rightarrow> 'k \<Rightarrow> (string go \<times> 'k) option" where
  "rw_WriteLock R l rand c tid k =
     (case newTurnWriteOwnerToken rand of
        Fail e \<Rightarrow> Some (Fail (EWrap ''generate write lock owner token'' e), k)
      | Panic m \<Rightarrow> Some (Panic m, k)
      | Ret token \<Rightarrow>
          map_option (\<lambda>(out, k1). (go_bind out (\<lambda>_. Ret token), k1))
            (poll_loop (poll_fuel (rw_timeout l)) R c
               (evalAcquireResult R c
                  (turnWriteLockScript R (turnReadersKey tid) (turnWriteLockKey tid) token
                     (milliseconds (rw_ttl l))))
               (EWrap (for_turn ''acquire write'' tid)) (turn_timeout ''write'' tid)
               (rw_timeout l) (rd_now R k + rw_timeout l) k))"

definition rw_WriteUnlock :: "'k redis \<Rightarrow> ctx \<Rightarrow> string \<Rightarrow> string \<Rightarrow> 'k \<Rightarrow> goerr option \<times> 'k" where
  "rw_WriteUnlock R c tid token k =
     (case redis_eval R c (turnWriteUnlockScript R (turnWriteLockKey tid) token) k of
        (Fail e, k1) \<Rightarrow> (Some (EWrap (for_turn ''release write'' tid) e), k1)
      | (_, k1) \<Rightarrow> (None, k1))"

section \<open>What the scripts do\<close>

text \<open>The state of one turn: the number of readers with its time to live, and the writer's token
  with its time to live.\<close>

lemma turn_keys [simp]:
  "turnReadersKey s = turnReadersKey t \<longleftrightarrow> s = t"
  "turnWriteLockKey s = turnWriteLockKey t \<longleftrightarrow> s = t"
  by (simp_all add: turnReadersKey_def turnWriteLockKey_def)

lemma turn_keys_differ [simp]: "turnReadersKey s \<noteq> turnWriteLockKey t"
proof
  assume "turnReadersKey s = turnWriteLockKey t"
  then have "last (turnReadersKey s) = last (turnWriteLockKey t)" by simp
  then show False by (simp add: turnReadersKey_def turnWriteLockKey_def)
qed

lemma turn_keys_differ' [simp]: "turnWriteLockKey t \<noteq> turnReadersKey s"
  by (rule not_sym) simp

lemma turn_session_keys [simp]:
  "turnReadersKey t \<noteq> sessionLockKey s" "turnReadersKey t \<noteq> sessionLockRefCountKey s"
  "turnWriteLockKey t \<noteq> sessionLockKey s" "turnWriteLockKey t \<noteq> sessionLockRefCountKey s"
  by (simp_all add: turnReadersKey_def turnWriteLockKey_def sessionLockKey_def sessionLockRefCountKey_def)

definition readers_of :: "keyspace \<Rightarrow> string \<Rightarrow> int \<Rightarrow> bool" where
  "readers_of v tid n = counts (v (turnReadersKey tid)) n"

context redis_ttl
begin

lemma read_lock_refused:
  "view k (turnWriteLockKey t) \<noteq> None \<Longrightarrow>
   turnReadLockScript R (turnReadersKey t) (turnWriteLockKey t) ttl k = (Ret 0, k)"
  by (simp add: turnReadLockScript_def exists_view)

lemma read_lock_granted:
  assumes "view k (turnWriteLockKey t) = None" "readers_of (view k) t n" "int64 n" "int64 (n + 1)"
  shows "\<exists>k'. turnReadLockScript R (turnReadersKey t) (turnWriteLockKey t) ttl k = (Ret (n + 1), k') \<and>
    view k' = (view k)(turnReadersKey t \<mapsto> (itoa (n + 1), Some ttl))"
proof -
  from assms(2) have "counts (view k (turnReadersKey t)) n" by (simp add: readers_of_def)
  from incr_view [OF this assms(3,4)] obtain ka where a: "rd_incr R (turnReadersKey t) k = (Some (n + 1), ka)"
    "view ka = (view k)(turnReadersKey t \<mapsto> (itoa (n + 1), entry_ttl (view k (turnReadersKey t))))" by blast
  with assms(1) show ?thesis
    by (simp add: turnReadLockScript_def exists_view pexpire_view [OF ttl_pos])
qed

lemma read_unlock_effect:
  assumes "readers_of (view k) t n" "int64 n" "int64 (n - 1)"
  shows "\<exists>k'. turnReadUnlockScript R (turnReadersKey t) k = (Ret (n - 1), k') \<and>
    view k' = (view k)(turnReadersKey t \<mapsto> (itoa (n - 1), entry_ttl (view k (turnReadersKey t))))"
proof -
  from assms(1) have "counts (view k (turnReadersKey t)) n" by (simp add: readers_of_def)
  from decr_view [OF this assms(2,3)] show ?thesis by (auto simp: turnReadUnlockScript_def)
qed

lemma write_lock_effect:
  assumes "readers_of (view k) t n" "int64 n"
  shows "\<exists>k'. turnWriteLockScript R (turnReadersKey t) (turnWriteLockKey t) token ttl k =
      (Ret (if n = 0 \<and> view k (turnWriteLockKey t) = None then 1 else 0), k') \<and>
    view k' = (if n = 0 \<and> view k (turnWriteLockKey t) = None
               then (view k)(turnWriteLockKey t \<mapsto> (token, Some ttl)) else view k)"
proof -
  have "parse_int64 (the_default ''0'' (rd_get R (turnReadersKey t) k)) = Some n"
  proof (cases "view k (turnReadersKey t)")
    case None
    moreover have "parse_int64 ''0'' = Some 0"
      by (simp add: parse_digits_def digit_val_def int64_min_def int64_max_def)
    ultimately show ?thesis using assms(1) by (simp add: get_view readers_of_def counts_def del: parse_int64.simps)
  next
    case (Some e)
    with assms show ?thesis
      by (cases e) (simp add: get_view readers_of_def counts_def int64_def parse_int64_itoa del: parse_int64.simps)
  qed
  then show ?thesis
    using setnx_new [OF ttl_pos, of k "turnWriteLockKey t" token] setnx_old [OF ttl_pos, of k "turnWriteLockKey t" token]
    by (auto simp: turnWriteLockScript_def)
qed

lemma write_unlock_effect:
  "\<exists>k' n. turnWriteUnlockScript R (turnWriteLockKey t) token k = (Ret n, k') \<and>
    view k' = (if map_option fst (view k (turnWriteLockKey t)) = Some token
               then (view k)(turnWriteLockKey t := None) else view k)"
  using del_view [of "[turnWriteLockKey t]" k]
  by (auto simp: turnWriteUnlockScript_def get_view fun_eq_iff split: prod.splits)

end

section \<open>Readers and writers of one turn\<close>

text \<open>
  The calls of a turn and everything around them as a transition system. A state is the keyspace,
  the number of calls that hold the read lock, the tokens of the calls that hold the write lock and
  the time since the start. A call releases only what it holds, and takes a fresh token; \<open>other\<close>
  stands for whatever other turns, sessions and clients do to keys that are not this turn's.
\<close>

type_synonym 'k rw_state = "'k \<times> nat \<times> string set \<times> int"

inductive rw_step :: "'k redis \<Rightarrow> ('k \<Rightarrow> keyspace) \<Rightarrow> int \<Rightarrow> string \<Rightarrow> 'k rw_state \<Rightarrow> 'k rw_state \<Rightarrow> bool"
  for R :: "'k redis" and view :: "'k \<Rightarrow> keyspace" and ttl :: int and t :: string where
  rlock: "turnReadLockScript R (turnReadersKey t) (turnWriteLockKey t) ttl k = (Ret n, k') \<Longrightarrow>
     int r < int64_max \<Longrightarrow>
     rw_step R view ttl t (k, r, ws, d) (k', if n \<noteq> 0 then r + 1 else r, ws, d)"
| runlock: "turnReadUnlockScript R (turnReadersKey t) k = (Ret n, k') \<Longrightarrow> 0 < r \<Longrightarrow>
     rw_step R view ttl t (k, r, ws, d) (k', r - 1, ws, d)"
| wlock: "turnWriteLockScript R (turnReadersKey t) (turnWriteLockKey t) tok ttl k = (Ret n, k') \<Longrightarrow>
     tok \<notin> ws \<Longrightarrow> rw_step R view ttl t (k, r, ws, d) (k', r, if n \<noteq> 0 then insert tok ws else ws, d)"
| wunlock: "turnWriteUnlockScript R (turnWriteLockKey t) tok k = (Ret n, k') \<Longrightarrow> tok \<in> ws \<Longrightarrow>
     rw_step R view ttl t (k, r, ws, d) (k', r, ws - {tok}, d)"
| passes: "0 \<le> x \<Longrightarrow> rw_step R view ttl t (k, r, ws, d) (rd_tick R x k, r, ws, d + x)"
| other: "view k' (turnReadersKey t) = view k (turnReadersKey t) \<Longrightarrow>
     view k' (turnWriteLockKey t) = view k (turnWriteLockKey t) \<Longrightarrow>
     rw_step R view ttl t (k, r, ws, d) (k', r, ws, d)"

text \<open>The invariant while the keys are younger than the time to live.\<close>

definition readers_ok :: "int \<Rightarrow> nat \<Rightarrow> (string \<times> int option) option \<Rightarrow> bool" where
  "readers_ok left r e =
     (int r \<le> int64_max \<and> (e = None \<and> r = 0 \<or> (\<exists>x \<ge> left. e = Some (itoa (int r), Some x))))"

definition writers_ok :: "int \<Rightarrow> string set \<Rightarrow> (string \<times> int option) option \<Rightarrow> bool" where
  "writers_ok left ws e = (e = None \<and> ws = {} \<or> (\<exists>tok. \<exists>x \<ge> left. ws = {tok} \<and> e = Some (tok, Some x)))"

definition rw_inv :: "('k \<Rightarrow> keyspace) \<Rightarrow> int \<Rightarrow> string \<Rightarrow> 'k rw_state \<Rightarrow> bool" where
  "rw_inv view ttl t s =
     (case s of (k, r, ws, d) \<Rightarrow>
        0 \<le> d \<and> (d < ttl \<longrightarrow>
          readers_ok (ttl - d) r (view k (turnReadersKey t)) \<and>
          writers_ok (ttl - d) ws (view k (turnWriteLockKey t)) \<and> (0 < r \<longrightarrow> ws = {})))"

lemma readers_ok_counts: "readers_ok left r e \<Longrightarrow> counts e (int r) \<and> int64 (int r)"
  by (auto simp: readers_ok_def counts_def int64_def int64_min_def)

lemma readers_ok_expire: "readers_ok left r e \<Longrightarrow> x < left \<Longrightarrow> readers_ok (left - x) r (expire x e)"
  by (auto simp: readers_ok_def expire_def)

lemma writers_ok_expire: "writers_ok left ws e \<Longrightarrow> x < left \<Longrightarrow> writers_ok (left - x) ws (expire x e)"
  by (auto simp: writers_ok_def expire_def)

context redis_ttl
begin

lemma rw_inv_step:
  assumes "rw_step R view ttl t s s'" "rw_inv view ttl t s"
  shows "rw_inv view ttl t s'"
  using assms
proof cases
  case (rlock k n k' r ws d)
  show ?thesis
  proof (cases "d < ttl \<and> view k (turnWriteLockKey t) = None")
    case True
    with assms(2) rlock(1) have i: "readers_ok (ttl - d) r (view k (turnReadersKey t))" "0 \<le> d" "ws = {}"
      by (auto simp: rw_inv_def writers_ok_def)
    from readers_ok_counts [OF i(1)] rlock(4) have "readers_of (view k) t (int r)" "int64 (int r)" "int64 (int r + 1)"
      by (auto simp: readers_of_def int64_def)
    from read_lock_granted [OF _ this] True rlock(3) have
      "n = int r + 1" "view k' = (view k)(turnReadersKey t \<mapsto> (itoa (int r + 1), Some ttl))" by auto
    with i True rlock(2,4) show ?thesis
      by (auto simp: rw_inv_def readers_ok_def writers_ok_def add.commute)
  next
    case False
    with read_lock_refused [of k t] rlock(3) assms(2) have "\<not> d < ttl \<or> n = 0 \<and> k' = k" by auto
    with assms(2) rlock(1,2) show ?thesis by (auto simp: rw_inv_def)
  qed
next
  case (runlock k n k' r ws d)
  show ?thesis
  proof (cases "d < ttl")
    case True
    with assms(2) runlock(1) have i: "readers_ok (ttl - d) r (view k (turnReadersKey t))" by (simp add: rw_inv_def)
    from readers_ok_counts [OF i] runlock(4) have "readers_of (view k) t (int r)" "int64 (int r)" "int64 (int r - 1)"
      by (auto simp: readers_of_def int64_def int64_min_def)
    from read_unlock_effect [OF this] runlock(3) have
      v: "view k' = (view k)(turnReadersKey t \<mapsto> (itoa (int r - 1), entry_ttl (view k (turnReadersKey t))))" by auto
    from i runlock(4) have "readers_ok (ttl - d) (r - 1) (view k' (turnReadersKey t))"
      by (auto simp: v readers_ok_def entry_ttl_def of_nat_diff)
    with assms(2) runlock(1,2,4) True v show ?thesis by (auto simp: rw_inv_def)
  qed (use assms(2) runlock(1,2) in \<open>simp add: rw_inv_def\<close>)
next
  case (wlock tok k n k' ws r d)
  show ?thesis
  proof (cases "d < ttl")
    case True
    with assms(2) wlock(1) have i: "readers_ok (ttl - d) r (view k (turnReadersKey t))"
      "writers_ok (ttl - d) ws (view k (turnWriteLockKey t))" "0 < r \<longrightarrow> ws = {}" "0 \<le> d"
      by (auto simp: rw_inv_def)
    from readers_ok_counts [OF i(1)] have "readers_of (view k) t (int r)" "int64 (int r)"
      by (auto simp: readers_of_def)
    from write_lock_effect [OF this, of tok] wlock(3) have
      "n = (if r = 0 \<and> view k (turnWriteLockKey t) = None then 1 else 0)"
      "view k' = (if r = 0 \<and> view k (turnWriteLockKey t) = None
               then (view k)(turnWriteLockKey t \<mapsto> (tok, Some ttl)) else view k)" by auto
    with i True wlock(2) show ?thesis by (auto simp: rw_inv_def writers_ok_def)
  qed (use assms(2) wlock(1,2) in \<open>simp add: rw_inv_def\<close>)
next
  case (wunlock tok k n k' ws r d)
  from write_unlock_effect [of t tok k] wunlock(3) have
    "view k' = (if map_option fst (view k (turnWriteLockKey t)) = Some tok
               then (view k)(turnWriteLockKey t := None) else view k)" by auto
  with assms(2) wunlock(1,2,4) show ?thesis by (auto simp: rw_inv_def writers_ok_def)
next
  case (passes x k r ws d)
  show ?thesis
  proof (cases "d + x < ttl")
    case True
    with assms(2) passes have "readers_ok (ttl - d) r (view k (turnReadersKey t))"
      "writers_ok (ttl - d) ws (view k (turnWriteLockKey t))" "0 < r \<longrightarrow> ws = {}" "0 \<le> d"
      by (auto simp: rw_inv_def)
    with readers_ok_expire [of "ttl - d" r _ x] writers_ok_expire [of "ttl - d" ws _ x] True passes show ?thesis
      by (auto simp: rw_inv_def tick_view diff_diff_eq)
  qed (use assms(2) passes in \<open>simp add: rw_inv_def\<close>)
next
  case (other k' k r ws d)
  with assms(2) show ?thesis by (auto simp: rw_inv_def)
qed

lemma rw_inv_reach:
  assumes "(rw_step R view ttl t)\<^sup>*\<^sup>* s s'" "rw_inv view ttl t s"
  shows "rw_inv view ttl t s'"
  using assms by induction (auto intro: rw_inv_step)

end

section \<open>Properties\<close>

text \<open>
  Readers and writers of a turn exclude each other: as long as less time has passed than the
  time to live, no state that any interleaving of the calls of the turn reaches has a reader and a
  writer at once, nor two writers, whatever happens to other keys.
\<close>

theorem turn_lock_exclusion:
  assumes "redis_api R view" and "0 < ttl"
    and "view k0 (turnReadersKey t) = None" and "view k0 (turnWriteLockKey t) = None"
    and "(rw_step R view ttl t)\<^sup>*\<^sup>* (k0, 0, {}, 0) (k, r, ws, d)" and "d < ttl"
  shows "(0 < r \<longrightarrow> ws = {}) \<and> card ws \<le> 1"
proof -
  from assms(1,2) have r: "redis_ttl R view ttl" by (simp add: redis_ttl_def redis_ttl_axioms_def)
  from assms(2-4) have "rw_inv view ttl t (k0, 0, {}, 0)"
    by (simp add: rw_inv_def readers_ok_def writers_ok_def int64_max_def)
  from redis_ttl.rw_inv_reach [OF r assms(5) this] assms(6) show ?thesis
    by (auto simp: rw_inv_def writers_ok_def)
qed

theorem turn_lock_exclusion_witness:
  "\<exists>k r ws. (rw_step mem_redis mem_view 60000 ''t'')\<^sup>*\<^sup>* (mem_empty, 0, {}, 0) (k, r, ws, 0) \<and>
     r = 1 \<and> ws = {}"
proof -
  have e: "mem_view mem_empty x = None" for x by (simp add: mem_empty_def)
  from mem_ttl.read_lock_granted [of mem_empty "''t''" 0] obtain k where
    k: "turnReadLockScript mem_redis (turnReadersKey ''t'') (turnWriteLockKey ''t'') 60000 mem_empty = (Ret 1, k)"
    by (auto simp: e readers_of_def counts_def int64_def int64_min_def int64_max_def)
  from rw_step.rlock [OF k, of 0 mem_view "{}" 0]
  have s: "(rw_step mem_redis mem_view 60000 ''t'')\<^sup>*\<^sup>* (mem_empty, 0, {}, 0) (k, 1, {}, 0)"
    by (simp add: int64_max_def r_into_rtranclp)
  from turn_lock_exclusion [OF mem.redis_api_axioms _ e e s] have "{} = ({} :: string set)" by simp
  with s show ?thesis by blast
qed

text \<open>
  C38. A reader that releases after the time to live has passed leaves a negative count that never
  expires: from then on, however much time passes, no writer of the turn gets the lock, and the
  next attempt to read takes the lock's count up but is told that it failed.
\<close>

theorem late_read_unlock_blocks_writers:
  assumes "redis_api R view" and "0 < ttl"
    and "view k (turnReadersKey t) = None" and "view k (turnWriteLockKey t) = None"
  shows "\<exists>k1. turnReadUnlockScript R (turnReadersKey t) k = (Ret (- 1), k1) \<and>
    view k1 (turnReadersKey t) = Some (itoa (- 1), None) \<and>
    (\<forall>d \<ge> 0. \<forall>tok. \<exists>k2. turnWriteLockScript R (turnReadersKey t) (turnWriteLockKey t) tok ttl (rd_tick R d k1) = (Ret 0, k2)) \<and>
    (\<forall>d \<ge> 0. \<exists>k2. turnReadLockScript R (turnReadersKey t) (turnWriteLockKey t) ttl (rd_tick R d k1) = (Ret 0, k2) \<and>
       view k2 (turnReadersKey t) = Some (itoa 0, Some ttl))"
proof -
  from assms(1,2) have R: "redis_ttl R view ttl" by (simp add: redis_ttl_def redis_ttl_axioms_def)
  have i: "int64 0" "int64 (- 1)" "int64 (0 - 1)" "int64 (- 1 + 1)"
    by (simp_all add: int64_def int64_min_def int64_max_def)
  from redis_ttl.read_unlock_effect [OF R _ i(1,3), of k t] assms(3) obtain k1 where
    k1: "turnReadUnlockScript R (turnReadersKey t) k = (Ret (- 1), k1)"
    "view k1 = (view k)(turnReadersKey t \<mapsto> (itoa (- 1), None))"
    by (auto simp: readers_of_def counts_def entry_ttl_def)
  have tk: "view (rd_tick R d k1) (turnReadersKey t) = Some (itoa (- 1), None)"
    "view (rd_tick R d k1) (turnWriteLockKey t) = None" if "0 \<le> d" for d
    using redis_api.tick_view [OF assms(1) that, of k1] k1(2) assms(4) by (simp_all add: expire_def)
  have rd: "readers_of (view (rd_tick R d k1)) t (- 1)" if "0 \<le> d" for d
    using tk [OF that] by (simp add: readers_of_def counts_def)
  have "\<exists>k2. turnWriteLockScript R (turnReadersKey t) (turnWriteLockKey t) tok ttl (rd_tick R d k1) = (Ret 0, k2)"
    if "0 \<le> d" for d tok
    using redis_ttl.write_lock_effect [OF R rd [OF that] i(2), of tok] by auto
  moreover have "\<exists>k2. turnReadLockScript R (turnReadersKey t) (turnWriteLockKey t) ttl (rd_tick R d k1) = (Ret 0, k2) \<and>
       view k2 (turnReadersKey t) = Some (itoa 0, Some ttl)" if "0 \<le> d" for d
    using redis_ttl.read_lock_granted [OF R tk(2) [OF that] rd [OF that] i(2,4)] by auto
  ultimately show ?thesis using k1 by auto
qed

theorem late_read_unlock_blocks_writers_witness:
  "\<exists>k1. turnReadUnlockScript mem_redis (turnReadersKey ''t'') mem_empty = (Ret (- 1), k1) \<and>
     mem_view k1 (turnReadersKey ''t'') = Some (itoa (- 1), None)"
  using late_read_unlock_blocks_writers [OF mem.redis_api_axioms, of 60000 mem_empty "''t''"]
  by (auto simp: mem_empty_def)

end
