(* ===== verification/Approval_Bridge.thy ===== *)
theory Approval_Bridge
  imports Policy_Gate Turn_RWLock
begin

text \<open>
  \<open>cmd/gateway/approval_bridge.go\<close>: the wait of a held call for the decision on its ticket. What
  the \<open>select\<close> of the loop receives, in the order in which it receives it, is a list of events; the
  channel carries what \<open>pump\<close> makes of the messages of the Redis subscription. A wait that is not
  over when the list ends is \<open>None\<close>.
\<close>

section \<open>The subscription\<close>

datatype bridge_event =
    BrMessage string
  | BrNil
  | BrTick
  | BrTimeout
  | BrDone

text \<open>\<open>pump\<close>: a nil message ends it, as does the end of the subscription's channel; both are
  reported as a nil message.\<close>

fun pump :: "string option list \<Rightarrow> bridge_event list" where
  "pump [] = [BrNil]"
| "pump (None # ms) = [BrNil]"
| "pump (Some p # ms) = BrMessage p # pump ms"

definition approval_channel :: "string \<Rightarrow> string" where
  "approval_channel ticket = ''approvals:'' @ ticket"

section \<open>The bridge\<close>

record 'w bridge_env =
  be_timeout :: int
  be_interval :: int
  be_update :: "string \<Rightarrow> string \<Rightarrow> string \<Rightarrow> 'w \<Rightarrow> goerr option \<times> 'w"
  be_extend :: "ctx \<Rightarrow> string \<Rightarrow> string \<Rightarrow> 'w \<Rightarrow> goerr option \<times> 'w"
  be_log :: "log_entry \<Rightarrow> 'w \<Rightarrow> 'w"

definition default_approval_timeout :: int where
  "default_approval_timeout = 5 * 60 * 1000000000"

text \<open>Division of durations truncates toward zero.\<close>

definition half :: "int \<Rightarrow> int" where
  "half d = (if d < 0 then - ((- d) div 2) else d div 2)"

definition NewRedisApprovalBridge ::
  "(string \<Rightarrow> string \<Rightarrow> string \<Rightarrow> 'w \<Rightarrow> goerr option \<times> 'w) \<Rightarrow>
   (ctx \<Rightarrow> string \<Rightarrow> string \<Rightarrow> 'w \<Rightarrow> goerr option \<times> 'w) \<Rightarrow> (log_entry \<Rightarrow> 'w \<Rightarrow> 'w) \<Rightarrow>
   int \<Rightarrow> int \<Rightarrow> 'w bridge_env" where
  "NewRedisApprovalBridge upd ext lg lock_ttl timeout =
     \<lparr>be_timeout = (if timeout \<le> 0 then default_approval_timeout else timeout),
      be_interval = half lock_ttl, be_update = upd, be_extend = ext, be_log = lg\<rparr>"

definition wait_ids :: "string \<Rightarrow> string \<Rightarrow> string \<Rightarrow> (string \<times> log_value) list" where
  "wait_ids ticket sid tid =
     [(''ticketID'', LStr ticket), (''sessionID'', LStr sid), (''turnID'', LStr tid)]"

definition handleTimeout ::
  "'w bridge_env \<Rightarrow> string \<Rightarrow> string \<Rightarrow> string \<Rightarrow> 'w \<Rightarrow> approval_decision go \<times> 'w" where
  "handleTimeout B ticket sid tid w =
     (case be_update B ticket ''expired'' [] w of
        (None, w1) \<Rightarrow> (Fail EApprovalTimeout, w1)
      | (Some e, w1) \<Rightarrow>
          (Fail EApprovalTimeout,
           be_log B (LevelError, ''failed to update ticket status to expired'',
             wait_ids ticket sid tid @ [(''error'', LStr (err_text e))]) w1))"

fun wait_loop :: "'w bridge_env \<Rightarrow> ctx \<Rightarrow> string \<Rightarrow> string \<Rightarrow> string \<Rightarrow> bridge_event list \<Rightarrow> 'w \<Rightarrow>
    (approval_decision go \<times> 'w) option" where
  "wait_loop B c ticket sid tid [] w = None"
| "wait_loop B c ticket sid tid (BrNil # evs) w =
     Some (handleTimeout B ticket sid tid
       (be_log B (LevelError, ''approval pub/sub channel closed; treating as timeout'',
          wait_ids ticket sid tid) w))"
| "wait_loop B c ticket sid tid (BrMessage p # evs) w =
     (if p = ''approved'' then Some (Ret \<lparr>ad_approved = True, ad_ticket = ticket\<rparr>, w)
      else if p = ''denied'' then Some (Ret \<lparr>ad_approved = False, ad_ticket = ticket\<rparr>, w)
      else wait_loop B c ticket sid tid evs
             (be_log B (LevelError, ''unknown approval signal; ignoring'',
                [(''payload'', LStr p), (''ticketID'', LStr ticket), (''sessionID'', LStr sid)]) w))"
| "wait_loop B c ticket sid tid (BrTick # evs) w =
     (case be_extend B c sid tid w of
        (None, w1) \<Rightarrow> wait_loop B c ticket sid tid evs w1
      | (Some e, w1) \<Rightarrow>
          wait_loop B c ticket sid tid evs
            (be_log B (LevelError, ''session lock extend failed during approval wait'',
               wait_ids ticket sid tid @ [(''error'', LStr (err_text e))]) w1))"
| "wait_loop B c ticket sid tid (BrTimeout # evs) w =
     Some (handleTimeout B ticket sid tid
       (be_log B (LevelError, ''approval wait timed out'', wait_ids ticket sid tid) w))"
| "wait_loop B c ticket sid tid (BrDone # evs) w =
     (let e = the_default (EMsg ''context canceled'') (ctx_err c)
      in Some (Fail e, be_log B (LevelError, ''approval wait context cancelled'',
                 wait_ids ticket sid tid @ [(''error'', LStr (err_text e))]) w))"

text \<open>\<open>time.NewTicker\<close> panics on an interval that is not positive.\<close>

definition WaitForDecision :: "'w bridge_env \<Rightarrow> ctx \<Rightarrow> string \<Rightarrow> string \<Rightarrow> string \<Rightarrow> bridge_event list \<Rightarrow> 'w \<Rightarrow>
    (approval_decision go \<times> 'w) option" where
  "WaitForDecision B c ticket sid tid evs w =
     (if be_interval B \<le> 0 then Some (Panic ''non-positive interval for NewTicker'', w)
      else wait_loop B c ticket sid tid evs w)"

section \<open>What ends a wait\<close>

fun passing :: "bridge_event \<Rightarrow> bool" where
  "passing (BrMessage p) = (p \<noteq> ''approved'' \<and> p \<noteq> ''denied'')"
| "passing BrTick = True"
| "passing _ = False"

fun verdict :: "ctx \<Rightarrow> string \<Rightarrow> bridge_event \<Rightarrow> approval_decision go" where
  "verdict c ticket (BrMessage p) = Ret \<lparr>ad_approved = (p = ''approved''), ad_ticket = ticket\<rparr>"
| "verdict c ticket BrDone = Fail (the_default (EMsg ''context canceled'') (ctx_err c))"
| "verdict c ticket _ = Fail EApprovalTimeout"

lemma handleTimeout_result [simp]: "fst (handleTimeout B ticket sid tid w) = Fail EApprovalTimeout"
  by (simp add: handleTimeout_def split: prod.splits option.splits)

lemma wait_loop_passing:
  assumes "passing ev"
  shows "\<exists>w'. \<forall>evs. wait_loop B c ticket sid tid (ev # evs) w = wait_loop B c ticket sid tid evs w'"
proof (cases ev)
  case BrTick
  obtain e w1 where "be_extend B c sid tid w = (e, w1)" by (cases "be_extend B c sid tid w")
  with BrTick show ?thesis by (cases e) auto
qed (use assms in auto)

lemma wait_loop_ends:
  assumes "\<not> passing ev"
  shows "map_option fst (wait_loop B c ticket sid tid (ev # evs) w) = Some (verdict c ticket ev)"
  using assms by (cases ev) (auto simp: Let_def)

lemma wait_loop_result:
  "map_option fst (wait_loop B c ticket sid tid evs w) =
     map_option (verdict c ticket) (find (\<lambda>ev. \<not> passing ev) evs)"
proof (induction evs arbitrary: w)
  case (Cons ev evs)
  show ?case
  proof (cases "passing ev")
    case True
    from wait_loop_passing [OF this, of B c ticket sid tid w] obtain w' where
      "wait_loop B c ticket sid tid (ev # evs) w = wait_loop B c ticket sid tid evs w'" by blast
    with True Cons show ?thesis by simp
  next
    case False
    with wait_loop_ends [OF False, of B c ticket sid tid evs w] show ?thesis by simp
  qed
qed simp

section \<open>What a wait leaves alone\<close>

text \<open>A wait acts on the state only through the ticket store, the session lock and the log: what
  these leave alone it leaves alone.\<close>

locale bridge_frame =
  fixes B :: "'w bridge_env" and Q :: "'w \<Rightarrow> bool"
  assumes update_frame: "Q w \<Longrightarrow> Q (snd (be_update B i ''expired'' [] w))"
    and extend_frame: "Q w \<Longrightarrow> Q (snd (be_extend B c s t w))"
    and log_frame: "Q w \<Longrightarrow> Q (be_log B x w)"
begin

lemma handleTimeout_frame: "Q w \<Longrightarrow> Q (snd (handleTimeout B i s t w))"
  using update_frame [of w i] log_frame
  by (auto simp: handleTimeout_def split: prod.splits option.splits)

lemma handleTimeout_step: "handleTimeout B i s t w = (out, w') \<Longrightarrow> Q w \<Longrightarrow> Q w'"
  using handleTimeout_frame [of w i s t] by simp

lemma tick_frame: "be_extend B c s t w = (e, w1) \<Longrightarrow> Q w \<Longrightarrow> Q w1"
  using extend_frame [of w c s t] by simp

lemma wait_loop_frame: "wait_loop B c i s t evs w = Some (out, w') \<Longrightarrow> Q w \<Longrightarrow> Q w'"
proof (induction evs arbitrary: w)
  case (Cons ev evs)
  show ?case
  proof (cases ev)
    case BrNil
    with Cons.prems show ?thesis by (auto elim!: handleTimeout_step intro: log_frame)
  next
    case (BrMessage p)
    with Cons log_frame show ?thesis by (auto split: if_splits)
  next
    case BrTick
    obtain e w1 where x: "be_extend B c s t w = (e, w1)" by (cases "be_extend B c s t w")
    with tick_frame [OF x Cons.prems(2)] Cons log_frame BrTick show ?thesis
      by (cases e) auto
  next
    case BrTimeout
    with Cons.prems show ?thesis by (auto elim!: handleTimeout_step intro: log_frame)
  next
    case BrDone
    with Cons.prems log_frame show ?thesis by (auto simp: Let_def)
  qed
qed simp

lemma WaitForDecision_frame:
  "WaitForDecision B c i s t evs w = Some (out, w') \<Longrightarrow> Q w \<Longrightarrow> Q w'"
  by (auto simp: WaitForDecision_def wait_loop_frame split: if_splits)

end

section \<open>The keys of a turn during a wait\<close>

text \<open>An entry that will be gone in at most \<open>x\<close> milliseconds, if nobody extends it.\<close>

definition gone_in :: "int \<Rightarrow> (string \<times> int option) option \<Rightarrow> bool" where
  "gone_in x e = (case e of None \<Rightarrow> True | Some (v, t) \<Rightarrow> \<exists>y. t = Some y \<and> 0 < y \<and> y \<le> x)"

lemma gone_in_expire: "gone_in x e \<Longrightarrow> gone_in (x - d) (expire d e)"
  by (auto simp: gone_in_def expire_def split: option.splits)

lemma gone_now: "gone_in x e \<Longrightarrow> x \<le> 0 \<Longrightarrow> e = None"
  by (auto simp: gone_in_def split: option.splits)

definition turn_key :: "string \<Rightarrow> bool" where
  "turn_key key = (\<exists>t. key = turnReadersKey t \<or> key = turnWriteLockKey t)"

lemma turn_key_else: "turn_key key \<Longrightarrow> same_else s v v' \<Longrightarrow> v' key = v key"
  by (auto simp: turn_key_def same_else_def)

context redis_ttl
begin

text \<open>The scripts of the session lock leave the keys of the turns alone.\<close>

lemma sl_step_turn_key:
  assumes "coherent n (view k)" "n < int64_max" "0 \<le> event_time e" "turn_key key" "gone_in x (view k key)"
  shows "gone_in (x - event_time e) (view (snd (sl_step R ttl k e)) key)"
proof (cases e)
  case (LkAcquire s t)
  from acquire_refines [OF assms(1,2) ttl_pos, of s t] obtain r k' where
    "sl_step R ttl k (LkAcquire s t) = (Ret r, k')" "same_else s (view k) (view k')" by blast
  with LkAcquire turn_key_else [OF assms(4), of s "view k" "view k'"] assms(5) show ?thesis by simp
next
  case (LkRelease s t)
  from release_refines [OF assms(1), of ttl s t] obtain r k' where
    "sl_step R ttl k (LkRelease s t) = (Ret r, k')" "same_else s (view k) (view k')" by blast
  with LkRelease turn_key_else [OF assms(4), of s "view k" "view k'"] assms(5) show ?thesis by simp
next
  case (LkExtend s t)
  from extend_refines [OF assms(1) ttl_pos, of s t] obtain r k' where
    "sl_step R ttl k (LkExtend s t) = (Ret r, k')" "same_else s (view k) (view k')" by blast
  with LkExtend turn_key_else [OF assms(4), of s "view k" "view k'"] assms(5) show ?thesis by simp
next
  case (LkTick d)
  with assms(3,5) show ?thesis by (simp add: tick_view gone_in_expire)
qed

lemma sl_run_turn_key:
  assumes "coherent n (view k)" "n + int (length es) \<le> int64_max" "\<forall>e \<in> set es. 0 \<le> event_time e"
    "turn_key key" "gone_in x (view k key)"
  shows "gone_in (x - sum_list (map event_time es)) (view (snd (sl_run R ttl k es)) key)"
  using assms(1-3,5)
proof (induction es arbitrary: k n x)
  case (Cons e es)
  from Cons.prems lease.step_refines [of n k e] obtain r k1 where
    s: "sl_step R ttl k e = (Ret r, k1)" "coherent (n + 1) (view k1)" by auto
  from sl_step_turn_key [of n k e key x] s(1) Cons.prems assms(4) have
    "gone_in (x - event_time e) (view k1 key)" by simp
  from Cons.IH [OF s(2) _ _ this] Cons.prems s(1) show ?case
    by (simp add: case_prod_beta diff_diff_eq)
qed simp

end

section \<open>The bridge of the gateway\<close>

text \<open>The bridge over the ticket store and a Redis.\<close>

type_synonym 'k bridge_world = "ticket_store \<times> 'k \<times> log_entry list"

definition gateway_bridge :: "'k redis \<Rightarrow> session_locker \<Rightarrow> int \<Rightarrow> 'k bridge_world bridge_env" where
  "gateway_bridge R l timeout =
     NewRedisApprovalBridge
       (\<lambda>i st b (s, k, lg). case ts_update_status i st b s of (e, s1) \<Rightarrow> (e, (s1, k, lg)))
       (\<lambda>c sid tid (s, k, lg). case sl_Extend R l c sid tid k of (e, k1) \<Rightarrow> (e, (s, k1, lg)))
       (\<lambda>x (s, k, lg). (s, k, lg @ [x])) (sl_ttl l) timeout"

definition world_status :: "'k bridge_world \<Rightarrow> string \<Rightarrow> string option" where
  "world_status w = ticket_status (fst w)"

interpretation bridge_tickets: ticket_updater "be_update (gateway_bridge R l timeout)" world_status
  by unfold_locales
     (auto simp: gateway_bridge_def NewRedisApprovalBridge_def world_status_def split: prod.splits
       dest: ts_update_status_ok ts_update_status_err)

lemma gateway_extend_tickets [simp]:
  "fst (snd (be_extend (gateway_bridge R l timeout) c sid tid w)) = fst w"
  by (simp add: gateway_bridge_def NewRedisApprovalBridge_def split: prod.splits)

lemma gateway_log_tickets [simp]: "fst (be_log (gateway_bridge R l timeout) x w) = fst w"
  by (simp add: gateway_bridge_def NewRedisApprovalBridge_def split: prod.splits)

lemma gateway_log_status [simp]: "world_status (be_log (gateway_bridge R l timeout) x w) = world_status w"
  by (simp add: world_status_def)

text \<open>What may happen to the statuses during the wait for \<open>ticket\<close> that ends with \<open>out\<close>.\<close>

definition may_expire ::
  "string \<Rightarrow> approval_decision go \<Rightarrow> (string \<Rightarrow> string option) \<Rightarrow> (string \<Rightarrow> string option) \<Rightarrow> bool" where
  "may_expire ticket out st st' =
     (st' = st \<or> out = Fail EApprovalTimeout \<and> st ticket = Some ''pending'' \<and> st' = st(ticket \<mapsto> ''expired''))"

lemma handleTimeout_status:
  assumes "handleTimeout (gateway_bridge R l timeout) ticket sid tid w = (out, w')"
  shows "may_expire ticket out (world_status w) (world_status w')"
proof -
  obtain e w1 where u: "be_update (gateway_bridge R l timeout) ticket ''expired'' [] w = (e, w1)"
    by (cases "be_update (gateway_bridge R l timeout) ticket ''expired'' [] w")
  have out: "out = Fail EApprovalTimeout" using assms by (metis fst_conv handleTimeout_result)
  show ?thesis
  proof (cases e)
    case None
    with assms u have "w' = w1" by (simp add: handleTimeout_def)
    with bridge_tickets.upd_ok [OF u [unfolded None]] out show ?thesis by (simp add: may_expire_def)
  next
    case (Some x)
    with assms u have "world_status w' = world_status w1" by (auto simp: handleTimeout_def)
    with bridge_tickets.upd_err [OF u [unfolded Some]] show ?thesis by (simp add: may_expire_def)
  qed
qed

lemma wait_loop_status:
  "wait_loop (gateway_bridge R l timeout) c ticket sid tid evs w = Some (out, w') \<Longrightarrow>
   may_expire ticket out (world_status w) (world_status w')"
proof (induction "gateway_bridge R l timeout" c ticket sid tid evs w rule: wait_loop.induct)
  case (4 c ticket sid tid evs w)
  obtain e w1 where x: "be_extend (gateway_bridge R l timeout) c sid tid w = (e, w1)"
    by (cases "be_extend (gateway_bridge R l timeout) c sid tid w")
  then have "fst w1 = fst w" using gateway_extend_tickets [of R l timeout c sid tid w] by simp
  then have w1: "world_status w1 = world_status w" by (simp add: world_status_def)
  show ?case
  proof (cases e)
    case None
    with 4 x w1 show ?thesis by simp
  next
    case (Some er)
    from 4(2) [OF x [symmetric] Some] 4(3) x Some w1 show ?thesis by simp
  qed
next
  case (2 c ticket sid tid evs w)
  then show ?case using handleTimeout_status [of R l timeout ticket sid tid _ out w'] by fastforce
next
  case (5 c ticket sid tid evs w)
  then show ?case using handleTimeout_status [of R l timeout ticket sid tid _ out w'] by fastforce
qed (auto simp: may_expire_def Let_def split: if_splits)

section \<open>Properties\<close>

text \<open>
  C13. The outcome of a wait is that of the first event that is neither a tick nor an unknown
  message: an approval or denial of this ticket, the timeout error for a timeout or a lost
  connection, the context's error when it is done; without such an event the call goes on waiting.
\<close>

theorem wait_outcome:
  assumes "0 < be_interval B"
  shows "map_option fst (WaitForDecision B c ticket sid tid evs w) =
    map_option (verdict c ticket) (find (\<lambda>ev. \<not> passing ev) evs)"
  using assms by (simp add: WaitForDecision_def wait_loop_result)

theorem wait_outcome_witness:
  "map_option fst (WaitForDecision (gateway_bridge mem_redis (NewSessionLocker 60000000000 0) 0) background
      ''a1'' ''s'' ''t'' [BrTick, BrMessage ''maybe'', BrMessage ''denied'', BrMessage ''approved'']
      (demo_store, mem_held, [])) = Some (Ret \<lparr>ad_approved = False, ad_ticket = ''a1''\<rparr>)"
  by (subst wait_outcome)
     (simp_all add: gateway_bridge_def NewRedisApprovalBridge_def NewSessionLocker_def half_def)

text \<open>
  A wait changes the status of no ticket but its own, and of that one only from \<open>pending\<close> to
  \<open>expired\<close> and only when it ends with the timeout error.
\<close>

theorem wait_only_expires_pending:
  assumes "WaitForDecision (gateway_bridge R l timeout) c ticket sid tid evs w = Some (out, w')"
    and "ticket_status (fst w') i \<noteq> ticket_status (fst w) i"
  shows "i = ticket \<and> out = Fail EApprovalTimeout \<and> ticket_status (fst w) i = Some ''pending'' \<and>
    ticket_status (fst w') i = Some ''expired''"
proof -
  from assms have "wait_loop (gateway_bridge R l timeout) c ticket sid tid evs w = Some (out, w')"
    by (auto simp: WaitForDecision_def split: if_splits)
  from wait_loop_status [OF this] assms(2) show ?thesis
    by (auto simp: may_expire_def world_status_def split: if_splits)
qed

definition pending_store :: ticket_store where
  "pending_store = \<lparr>ts_rows = [(''a1'', \<lparr>row_rec = demo_ticket, row_status = ''pending'', row_by = None\<rparr>)],
     ts_faults = [], ts_ids = []\<rparr>"

theorem wait_only_expires_pending_witness:
  "\<exists>w'. WaitForDecision (gateway_bridge mem_redis (NewSessionLocker 60000000000 0) 0) background
      ''a1'' ''s'' ''t'' [BrTimeout] (pending_store, mem_held, []) = Some (Fail EApprovalTimeout, w') \<and>
     ticket_status (fst w') ''a1'' = Some ''expired''"
proof -
  obtain w' where w: "WaitForDecision (gateway_bridge mem_redis (NewSessionLocker 60000000000 0) 0) background
      ''a1'' ''s'' ''t'' [BrTimeout] (pending_store, mem_held, []) = Some (Fail EApprovalTimeout, w')"
    "ticket_status (fst w') ''a1'' \<noteq> ticket_status (fst (pending_store, mem_held, [] :: log_entry list)) ''a1''"
    by (simp add: WaitForDecision_def gateway_bridge_def NewRedisApprovalBridge_def NewSessionLocker_def
        half_def handleTimeout_def ts_update_status_def pending_store_def next_fault_def ticket_status_def
        ticket_statuses_def)
  from wait_only_expires_pending [OF w] w(1) show ?thesis by blast
qed

text \<open>
  A positive lock time to live below two nanoseconds makes every wait panic instead of waiting.
\<close>

theorem tiny_ttl_panics:
  assumes "sl_ttl l < 2"
  shows "is_panic (fst (the (WaitForDecision (gateway_bridge R l timeout) c ticket sid tid evs w)))"
proof -
  have "half (sl_ttl l) \<le> 0" using assms by (auto simp: half_def)
  then show ?thesis by (simp add: WaitForDecision_def gateway_bridge_def NewRedisApprovalBridge_def)
qed

theorem tiny_ttl_panics_witness:
  "is_panic (fst (the (WaitForDecision (gateway_bridge mem_redis (NewSessionLocker 1 0) 0) background
     ''a1'' ''s'' ''t'' [] (pending_store, mem_held, []))))"
  by (rule tiny_ttl_panics) (simp add: NewSessionLocker_def)


definition mem_waiting :: mem_state where
  "mem_waiting = mem_held\<lparr>mem_view :=
     (mem_view mem_held)(turnWriteLockKey ''t1'' \<mapsto> (''k1'', Some 60000))\<rparr>"

lemma coherent_waiting: "coherent 1 (mem_view mem_waiting)"
proof -
  have "coherent 1 (\<lambda>_. None)" by (simp add: coherent_def entries_ok_def)
  then have "coherent 1 (mem_view mem_held)"
    by (simp add: mem_held_def coherent_put_lease int64_max_def)
  then show ?thesis
    by (simp add: coherent_def mem_waiting_def turn_session_keys [THEN not_sym])
qed


end
