(* ===== verification/Approval_Flow.thy ===== *)
theory Approval_Flow
  imports Lark_Notifier Approval_Bridge
begin

text \<open>
  The approval of a held call across components: the webhook records a decision in the ticket store
  and signals it over Redis, the bridge of the held call turns the signal into the decision. The
  locale \<open>webhook_world\<close> says what the webhook needs of the world it runs in; the gateway's store
  gives it.
\<close>

locale webhook_world = ticket_updater "wh_update H" status
  for H :: "'w webhook_env" and status :: "'w \<Rightarrow> string \<Rightarrow> string option" +
  assumes publish_status [simp]: "status (snd (wh_publish H ch m w)) = status w"
    and log_status [simp]: "status (wh_log H x w) = status w"
begin

lemma record_decision_status:
  "status (snd (record_decision H ticket st user w)) = status (snd (wh_update H ticket st user w))"
proof -
  obtain e w1 where u: "wh_update H ticket st user w = (e, w1)" by (cases "wh_update H ticket st user w")
  obtain e2 w2 where p: "wh_publish H (''approvals:'' @ ticket) st w1 = (e2, w2)"
    by (cases "wh_publish H (''approvals:'' @ ticket) st w1")
  then have "status w2 = status w1" using publish_status by (metis snd_conv)
  with u p show ?thesis
    by (cases e; cases e2) (simp_all add: record_decision_def Let_def)
qed

lemma serve_decided:
  assumes "status w i = Some x" "x \<noteq> ''pending''"
  shows "status (snd (webhook_ServeHTTP H q w)) i = Some x"
  using assms decided_stays [OF assms]
  by (auto simp: webhook_ServeHTTP_def lark_callback_def route_action_def Let_def record_decision_status
      split: option.splits prod.splits)

text \<open>A request that changes the status of a ticket is authentic and decides that ticket, which was pending.\<close>

lemma update_change:
  assumes "status (snd (wh_update H t st u w)) i \<noteq> status w i"
  shows "t = i \<and> status w i = Some ''pending'' \<and> status (snd (wh_update H t st u w)) i = Some st"
proof -
  obtain e w1 where u: "wh_update H t st u w = (e, w1)" by (cases "wh_update H t st u w")
  with assms upd_err [of t st u w _ w1] have "e = None" by (cases e) auto
  with upd_ok [of t st u w w1] u assms show ?thesis by (auto split: if_splits)
qed

lemma serve_changes:
  assumes "status (snd (webhook_ServeHTTP H q w)) i \<noteq> status w i"
  shows "\<exists>e token user act st. decode_envelope (parse_json (wr_body q)) = Some e \<and> normalise e = (token, user, act) \<and>
    authentic H q token w \<and> av_ticket (ca_value act) = i \<and> status_of_action (av_action (ca_value act)) = Some st \<and>
    status w i = Some ''pending'' \<and> status (snd (webhook_ServeHTTP H q w)) i = Some st"
proof -
  from assms obtain e token user act where e: "decode_envelope (parse_json (wr_body q)) = Some e" "normalise e = (token, user, act)"
      "lark_refusal H q token w = None" "webhook_ServeHTTP H q w = route_action H act user w"
    by (auto simp: webhook_ServeHTTP_def lark_callback_def split: option.splits prod.splits)
  with assms obtain st where st: "status_of_action (av_action (ca_value act)) = Some st"
      "webhook_ServeHTTP H q w = record_decision H (av_ticket (ca_value act)) st user w"
    by (auto simp: route_action_def Let_def split: if_splits option.splits)
  with assms update_change [of "av_ticket (ca_value act)" st user w i] e(1-3) show ?thesis
    by (auto simp: record_decision_status lark_refusal_None)
qed

end

text \<open>The webhook of the gateway: publications act on the Redis client's state \<open>'k\<close>.\<close>

definition gateway_webhook ::
  "string \<Rightarrow> (string \<Rightarrow> 8 word list) \<Rightarrow> ('k \<Rightarrow> int) \<Rightarrow>
   (string \<Rightarrow> string \<Rightarrow> 'k \<Rightarrow> goerr option \<times> 'k) \<Rightarrow> 'k bridge_world webhook_env" where
  "gateway_webhook token sha now pub =
     NewLarkWebhookHandler token sha (\<lambda>(s, k, lg). now k)
       (\<lambda>i st u (s, k, lg). case ts_update_status i st u s of (e, s1) \<Rightarrow> (e, (s1, k, lg)))
       (\<lambda>ch m (s, k, lg). case pub ch m k of (e, k1) \<Rightarrow> (e, (s, k1, lg)))
       (\<lambda>x (s, k, lg). (s, k, lg @ [x]))"

interpretation gateway_hook: webhook_world "gateway_webhook token sha now pub" world_status
  by unfold_locales
     (auto simp: gateway_webhook_def NewLarkWebhookHandler_def world_status_def split: prod.splits
       dest: ts_update_status_ok ts_update_status_err)

lemma gateway_update_succeeds:
  assumes "ts_faults s = []" "ticket_status s i = Some x" "x \<noteq> ''pending''"
  shows "wh_update (gateway_webhook token sha now pub) i st u (s, k, lg) = (None, (s, k, lg))"
  using assms
  by (auto simp: gateway_webhook_def NewLarkWebhookHandler_def ts_update_status_def next_fault_def
      ticket_status_def Let_def)

section \<open>Properties\<close>

text \<open>
  A decided ticket keeps its status through every request that the webhook receives, and through
  every sequence of them.
\<close>

theorem webhook_keeps_decisions:
  assumes "ticket_status (fst w) i = Some x" and "x \<noteq> ''pending''"
  shows "ticket_status (fst (fold (\<lambda>q w. snd (webhook_ServeHTTP (gateway_webhook token sha now pub) q w)) qs w)) i
    = Some x"
  using assms(1)
proof (induction qs arbitrary: w)
  case (Cons q qs)
  then have "world_status (snd (webhook_ServeHTTP (gateway_webhook token sha now pub) q w)) i = Some x"
    using assms(2) by (intro gateway_hook.serve_decided) (simp_all add: world_status_def)
  with Cons.IH [of "snd (webhook_ServeHTTP (gateway_webhook token sha now pub) q w)"] show ?case
    by (simp add: world_status_def)
qed simp

theorem webhook_keeps_decisions_witness:
  "ticket_status (fst (fold (\<lambda>q w. snd (webhook_ServeHTTP (gateway_webhook ''tok'' (\<lambda>s. []) (\<lambda>k. 0) (\<lambda>ch m k. (None, k))) q w))
     (map demo_press [flat_callback ''tok'' ''eve'' (button_value ''a1'' ''approve''),
        nested_callback ''tok'' ''eve'' (button_value ''a1'' ''approve'')]) (demo_store, (), []))) ''a1'' = Some ''denied''"
  by (rule webhook_keeps_decisions) (simp_all add: demo_store_def ticket_status_def)

text \<open>
  The signal may contradict the record: pressing the other button of a card whose ticket is
  already decided leaves the ticket as it is, is answered with 200, and still publishes the new
  decision. A call that is still held, because the first signal did not reach it, is then decided
  by the second press against what the ticket says.
\<close>

theorem late_press_overrides_held_call:
  assumes "(act, status) \<in> {(''approve'', ''approved''), (''deny'', ''denied'')}" and "ticket \<noteq> []"
    and "parse_json (wr_body q) = Some (flat_callback token user (button_value ticket act))"
    and "wr_timestamp q = []" and "wr_read_err q = None"
    and "ts_faults s = []" and "ticket_status s ticket = Some x" and "x \<noteq> ''pending''" and "0 < be_interval B"
  shows "\<exists>rep k' lg'. webhook_ServeHTTP (watched (gateway_webhook token sha now pub)) q ([], (s, k, lg)) =
      (rep, ([WhUpdate ticket status user True, WhPublish (approval_channel ticket) status], (s, k', lg'))) \<and>
    rp_status rep = 200 \<and>
    map_option fst (WaitForDecision B c ticket sid tid (BrMessage status # evs) v) =
      Some (Ret \<lparr>ad_approved = (act = ''approve''), ad_ticket = ticket\<rparr>)"
proof -
  let ?H = "gateway_webhook token sha now pub"
  have H: "parse_json (wr_body q) = Some (flat_callback (wh_token (watched ?H)) user (button_value ticket act))"
    using assms(3) by (simp add: gateway_webhook_def NewLarkWebhookHandler_def)
  have "webhook_ServeHTTP (watched ?H) q ([], (s, k, lg)) = record_decision (watched ?H) ticket status user ([], (s, k, lg))"
    by (rule button_recorded [where cb = flat_callback, OF assms(1,2) _ H assms(4,5)]) simp
  moreover have u: "wh_update (watched ?H) ticket status user ([], (s, k, lg)) =
      (None, ([WhUpdate ticket status user True], (s, k, lg)))"
    by (simp add: watched_def gateway_update_succeeds [OF assms(6-8)])
  moreover obtain e k1 where p: "wh_publish (watched ?H) (''approvals:'' @ ticket) status
      ([WhUpdate ticket status user True], (s, k, lg)) =
      (e, ([WhUpdate ticket status user True, WhPublish (''approvals:'' @ ticket) status], (s, k1, lg)))"
    by (cases "pub (''approvals:'' @ ticket) status k")
       (simp add: watched_def gateway_webhook_def NewLarkWebhookHandler_def)
  moreover have lg: "wh_log (watched ?H) y (l, (s, k2, lg2)) = (l, (s, k2, lg2 @ [y]))" for y l k2 lg2
    by (simp add: watched_def gateway_webhook_def NewLarkWebhookHandler_def)
  ultimately have "\<exists>rep k' lg'. webhook_ServeHTTP (watched ?H) q ([], (s, k, lg)) =
      (rep, ([WhUpdate ticket status user True, WhPublish (approval_channel ticket) status], (s, k', lg'))) \<and>
      rp_status rep = 200"
    by (cases e) (simp_all add: record_decision_def json_reply_def approval_channel_def Let_def)
  moreover have "map_option fst (WaitForDecision B c ticket sid tid (BrMessage status # evs) v) =
      Some (Ret \<lparr>ad_approved = (act = ''approve''), ad_ticket = ticket\<rparr>)"
    using assms(1,9) by (auto simp: WaitForDecision_def)
  ultimately show ?thesis by blast
qed

theorem late_press_overrides_held_call_witness:
  "\<exists>rep k' lg'. webhook_ServeHTTP (watched (gateway_webhook ''tok'' (\<lambda>s. []) (\<lambda>k. 0) (\<lambda>ch m k. (None, k))))
       (demo_press (flat_callback ''tok'' ''eve'' (button_value ''a1'' ''approve''))) ([], (demo_store, (), [])) =
     (rep, ([WhUpdate ''a1'' ''approved'' ''eve'' True, WhPublish (approval_channel ''a1'') ''approved''], (demo_store, k', lg'))) \<and>
     ticket_status demo_store ''a1'' = Some ''denied''"
proof -
  have s: "ts_faults demo_store = []" "ticket_status demo_store ''a1'' = Some ''denied''"
    by (simp_all add: demo_store_def ticket_status_def)
  have b: "0 < be_interval (gateway_bridge mem_redis (NewSessionLocker 60000000000 0) 0)"
    by (simp add: gateway_bridge_def NewRedisApprovalBridge_def NewSessionLocker_def half_def)
  show ?thesis
    using late_press_overrides_held_call [where act = "''approve''" and status = "''approved''"
        and ticket = "''a1''" and q = "demo_press (flat_callback ''tok'' ''eve'' (button_value ''a1'' ''approve''))" and token = "''tok''" and user = "''eve''" and s = demo_store
        and k = "()" and lg = "[]" and sha = "\<lambda>s. []" and now = "\<lambda>k. 0" and pub = "\<lambda>ch m k. (None, k)",
        OF _ _ _ _ _ s _ b] s
    by (fastforce simp: demo_press_simps demo_press_read)
qed

end
