(* ===== verification/Capability_Cache.thy ===== *)
theory Capability_Cache
  imports Mcp_Types
begin

text \<open>
  \<open>cmd/gateway/capability_cache.go\<close>: the last successful answers to \<open>initialize\<close> and
  \<open>tools/list\<close>, kept as JSON and given out with another id while the upstream is down. Its mutex
  makes every operation one step.
\<close>

record capability_cache =
  cc_init :: raw
  cc_tools :: raw

definition empty_cache :: capability_cache where
  "empty_cache = \<lparr>cc_init = None, cc_tools = None\<rparr>"

definition setInit :: "rpc_response option \<Rightarrow> capability_cache \<Rightarrow> capability_cache" where
  "setInit resp c = (case resp of None \<Rightarrow> c | Some r \<Rightarrow> c\<lparr>cc_init := Some (encode_response r)\<rparr>)"

definition setToolList :: "rpc_response option \<Rightarrow> capability_cache \<Rightarrow> capability_cache" where
  "setToolList resp c = (case resp of None \<Rightarrow> c | Some r \<Rightarrow> c\<lparr>cc_tools := Some (encode_response r)\<rparr>)"

definition unmarshalWithID :: "raw \<Rightarrow> raw \<Rightarrow> rpc_response option" where
  "unmarshalWithID b i =
     (case b of
        None \<Rightarrow> None
      | Some _ \<Rightarrow> map_option (\<lambda>r. r\<lparr>resp_id := i\<rparr>) (decode_response b))"

definition getInit :: "raw \<Rightarrow> capability_cache \<Rightarrow> rpc_response option" where
  "getInit i c = unmarshalWithID (cc_init c) i"

definition getToolList :: "raw \<Rightarrow> capability_cache \<Rightarrow> rpc_response option" where
  "getToolList i c = unmarshalWithID (cc_tools c) i"

text \<open>The contract of a slot of the cache: what was put in comes out under the asked id, and the
  other slot does not interfere.\<close>

locale response_slot =
  fixes put :: "rpc_response option \<Rightarrow> 'c \<Rightarrow> 'c" and get :: "raw \<Rightarrow> 'c \<Rightarrow> rpc_response option"
    and put_other :: "rpc_response option \<Rightarrow> 'c \<Rightarrow> 'c"
  assumes get_put: "plain_response r \<Longrightarrow> get i (put (Some r) c) = Some (r\<lparr>resp_id := i\<rparr>)"
    and put_none: "put None c = c"
    and get_other: "get i (put_other x c) = get i c"
begin

fun slot_run :: "(bool \<times> rpc_response option) list \<Rightarrow> 'c \<Rightarrow> 'c" where
  "slot_run [] c = c"
| "slot_run ((own, r) # ops) c = slot_run ops (if own then put r c else put_other r c)"

lemma get_after_run:
  "\<forall>r. (True, Some r) \<notin> set ops \<Longrightarrow> get i (slot_run ops c) = get i c"
proof (induction ops c rule: slot_run.induct)
  case (2 own r ops c)
  then have "get i (if own then put r c else put_other r c) = get i c"
    by (cases r) (auto simp: put_none get_other)
  with 2 show ?case by simp
qed simp

lemma last_put_wins:
  assumes "plain_response r" "\<forall>x. (True, Some x) \<notin> set ops"
  shows "get i (slot_run ops (put (Some r) c)) = Some (r\<lparr>resp_id := i\<rparr>)"
  using get_after_run [OF assms(2), of i "put (Some r) c"] get_put [OF assms(1)] by simp

end

interpretation init_slot: response_slot setInit getInit setToolList
  by unfold_locales
     (simp_all add: setInit_def getInit_def setToolList_def unmarshalWithID_def decode_encode_response
       split: option.splits)

interpretation tool_slot: response_slot setToolList getToolList setInit
  by unfold_locales
     (simp_all add: setInit_def getToolList_def setToolList_def unmarshalWithID_def decode_encode_response
       split: option.splits)

section \<open>Properties\<close>

text \<open>The operations that write the cache: an \<open>initialize\<close> or a \<open>tools/list\<close> was answered.\<close>

datatype cache_op = CacheInit "rpc_response option" | CacheTools "rpc_response option"

fun cache_step :: "capability_cache \<Rightarrow> cache_op \<Rightarrow> capability_cache" where
  "cache_step c (CacheInit r) = setInit r c"
| "cache_step c (CacheTools r) = setToolList r c"

fun as_slot :: "bool \<Rightarrow> cache_op \<Rightarrow> bool \<times> rpc_response option" where
  "as_slot b (CacheTools r) = (b, r)"
| "as_slot b (CacheInit r) = (\<not> b, r)"

lemma fold_tool_slot:
  "fold (\<lambda>x c. cache_step c x) ops c = tool_slot.slot_run (map (as_slot True) ops) c"
proof (induction ops arbitrary: c)
  case (Cons x ops)
  then show ?case by (cases x) simp_all
qed simp

text \<open>
  Round trip through the cache: after a \<open>tools/list\<close> was answered with a response without error
  data, the cache gives out this response under any id asked for, until another \<open>tools/list\<close> is
  answered; answers to \<open>initialize\<close> and empty answers in between change nothing.
\<close>

theorem cached_tool_list:
  assumes "plain_response r" and "\<forall>x. CacheTools (Some x) \<notin> set ops"
  shows "getToolList i (fold (\<lambda>x c. cache_step c x) ops (setToolList (Some r) c)) = Some (r\<lparr>resp_id := i\<rparr>)"
proof -
  have "\<forall>x. (True, Some x) \<notin> set (map (as_slot True) ops)"
  proof
    fix x
    have "as_slot True y = (True, Some x) \<Longrightarrow> y = CacheTools (Some x)" for y by (cases y) auto
    with assms(2) show "(True, Some x) \<notin> set (map (as_slot True) ops)" by force
  qed
  from tool_slot.last_put_wins [OF assms(1) this] show ?thesis by (simp add: fold_tool_slot)
qed

theorem cached_tool_list_witness:
  "getToolList (Some (JStr ''9'')) (fold (\<lambda>x c. cache_step c x) [CacheInit None, CacheInit (Some empty_response)]
     (setToolList (Some (empty_response\<lparr>resp_result := Some (JArr [])\<rparr>)) empty_cache)) =
   Some (empty_response\<lparr>resp_result := Some (JArr []), resp_id := Some (JStr ''9'')\<rparr>)"
  by (rule cached_tool_list) (simp_all add: plain_response_def empty_response_def)

end
