(* ===== verification/Classifier.thy ===== *)
theory Classifier
  imports Policy
begin

text \<open>
  \<open>cmd/gateway/classifier.go\<close>: whether a tool only reads. The classes are ordered as the constants
  of the source are, so that \<open>\<le>\<close> compares them. The policy's map comes in the order in which Go
  iterates over it; its keys are distinct.
\<close>

datatype operation_class = OperationClassRead | OperationClassWrite

fun class_index :: "operation_class \<Rightarrow> nat" where
  "class_index OperationClassRead = 0"
| "class_index OperationClassWrite = 1"

lemma class_index_inject [simp]: "class_index a = class_index b \<longleftrightarrow> a = b"
  by (cases a; cases b) simp_all

instantiation operation_class :: linorder
begin

definition less_eq_operation_class :: "operation_class \<Rightarrow> operation_class \<Rightarrow> bool" where
  "less_eq_operation_class a b = (class_index a \<le> class_index b)"

definition less_operation_class :: "operation_class \<Rightarrow> operation_class \<Rightarrow> bool" where
  "less_operation_class a b = (class_index a < class_index b)"

instance
  by standard (auto simp: less_eq_operation_class_def less_operation_class_def)

end

type_synonym classifier = "(string \<times> operation_class) list"

fun NewOperationClassifier :: "(string \<times> string) list \<Rightarrow> classifier" where
  "NewOperationClassifier [] = []"
| "NewOperationClassifier ((tool, c) # cs) =
     (if c = ''read'' then map_put tool OperationClassRead (NewOperationClassifier cs)
      else if c = ''write'' then map_put tool OperationClassWrite (NewOperationClassifier cs)
      else NewOperationClassifier cs)"

definition Classify :: "classifier option \<Rightarrow> string \<Rightarrow> operation_class" where
  "Classify c tool =
     (case (case c of None \<Rightarrow> None | Some m \<Rightarrow> map_of m tool) of
        Some cls \<Rightarrow> cls
      | None \<Rightarrow>
          if has_prefix tool ''read_'' \<or> has_prefix tool ''get_'' \<or> has_prefix tool ''list_''
          then OperationClassRead else OperationClassWrite)"

lemma NewOperationClassifier_lookup:
  "distinct (map fst cs) \<Longrightarrow> map_of (NewOperationClassifier cs) tool =
     (case map_of cs tool of
        None \<Rightarrow> None
      | Some c \<Rightarrow> if c = ''read'' then Some OperationClassRead
                  else if c = ''write'' then Some OperationClassWrite else None)"
proof (induction cs rule: NewOperationClassifier.induct)
  case (2 t c cs)
  then have "map_of cs t = None" by (simp add: map_of_eq_None_iff)
  with 2 show ?case by (auto split: option.splits)
qed simp

section \<open>Properties\<close>

text \<open>
  A tool counts as reading exactly when the policy lists it as \<open>read\<close>, or the policy gives it
  no class and its name starts with \<open>read_\<close>, \<open>get_\<close> or \<open>list_\<close>; every other tool, unknown ones
  included, needs the write lock. The order of iteration over the policy's map is irrelevant.
\<close>

theorem classify_read_iff:
  assumes "distinct (map fst cs)" and "validate_classes cs = None"
  shows "Classify (Some (NewOperationClassifier cs)) tool = OperationClassRead \<longleftrightarrow>
    map_of cs tool = Some ''read'' \<or>
    (map_of cs tool = None \<and> (\<exists>p \<in> {''read_'', ''get_'', ''list_''}. \<exists>r. tool = p @ r))"
proof -
  note l = NewOperationClassifier_lookup [OF assms(1), of tool]
  show ?thesis
  proof (cases "map_of cs tool")
    case None
    with l show ?thesis by (simp add: Classify_def has_prefix_iff)
  next
    case (Some c)
    from assms(2) map_of_SomeD [OF Some] have "isOperationClass c"
      by (force simp: validate_classes_None)
    with Some l show ?thesis by (auto simp: Classify_def isOperationClass_def)
  qed
qed

theorem classify_read_iff_witness:
  "Classify (Some (NewOperationClassifier [(''get_secret'', ''write'')])) ''get_secret'' \<noteq> OperationClassRead"
proof -
  have "validate_classes [(''get_secret'', ''write'')] = None" by (simp add: isOperationClass_def)
  from classify_read_iff [OF _ this, of "''get_secret''"] show ?thesis by simp
qed

end
