(* ===== verification/Concurrency_Guard.thy ===== *)
theory Concurrency_Guard
  imports Classifier Turn_RWLock Pipeline
begin

text \<open>
  \<open>cmd/gateway/concurrency_guard.go\<close>: a tool call runs under the lock of its session and the read
  or write lock of its turn. The locks are the fields of \<open>guard_env\<close>; deferred calls run in the
  reverse order of their registration also when the guarded function panics, and the outermost one
  turns the panic into an error.
\<close>

record 'w guard_env =
  gu_acquire :: "ctx \<Rightarrow> string \<Rightarrow> string \<Rightarrow> 'w \<Rightarrow> unit go \<times> 'w"
  gu_release :: "ctx \<Rightarrow> string \<Rightarrow> string \<Rightarrow> 'w \<Rightarrow> goerr option \<times> 'w"
  gu_read_lock :: "ctx \<Rightarrow> string \<Rightarrow> 'w \<Rightarrow> unit go \<times> 'w"
  gu_read_unlock :: "ctx \<Rightarrow> string \<Rightarrow> 'w \<Rightarrow> goerr option \<times> 'w"
  gu_write_lock :: "ctx \<Rightarrow> string \<Rightarrow> 'w \<Rightarrow> string go \<times> 'w"
  gu_write_unlock :: "ctx \<Rightarrow> string \<Rightarrow> string \<Rightarrow> 'w \<Rightarrow> goerr option \<times> 'w"
  gu_classifier :: "classifier option"

type_synonym 'w guarded = "'w \<Rightarrow> rpc_response option go \<times> 'w"

text \<open>A deferred unlock: its error is the result only when there is no other error.\<close>

definition deferred :: "goerr option \<times> 'w \<Rightarrow> 'a go \<Rightarrow> 'a go \<times> 'w" where
  "deferred rel out =
     (case rel of
        (Some e, w) \<Rightarrow> ((case out of Ret _ \<Rightarrow> Fail e | other \<Rightarrow> other), w)
      | (None, w) \<Rightarrow> (out, w))"

definition recovered :: "'a go \<Rightarrow> 'a go" where
  "recovered out =
     (case out of Panic m \<Rightarrow> Fail (EMsg (''panic during guarded execution: '' @ m)) | other \<Rightarrow> other)"

definition guard_turn :: "'w guard_env \<Rightarrow> ctx \<Rightarrow> string \<Rightarrow> string \<Rightarrow> 'w guarded \<Rightarrow> 'w guarded" where
  "guard_turn U c tid tool fn w =
     (if (case gu_classifier U of None \<Rightarrow> OperationClassWrite | Some m \<Rightarrow> Classify (Some m) tool)
         = OperationClassRead
      then (case gu_read_lock U c tid w of
              (Fail e, w1) \<Rightarrow> (Fail e, w1)
            | (Panic m, w1) \<Rightarrow> (Panic m, w1)
            | (Ret _, w1) \<Rightarrow> (case fn w1 of (out, w2) \<Rightarrow> deferred (gu_read_unlock U c tid w2) out))
      else (case gu_write_lock U c tid w of
              (Fail e, w1) \<Rightarrow> (Fail e, w1)
            | (Panic m, w1) \<Rightarrow> (Panic m, w1)
            | (Ret token, w1) \<Rightarrow>
                (case fn w1 of (out, w2) \<Rightarrow> deferred (gu_write_unlock U c tid token w2) out)))"

definition guard_Execute ::
  "'w guard_env \<Rightarrow> ctx \<Rightarrow> string \<Rightarrow> string \<Rightarrow> string \<Rightarrow> 'w guarded \<Rightarrow> 'w guarded" where
  "guard_Execute U c sid tid tool fn w =
     (case
        (if tool = [] then fn w
         else (case gu_acquire U c sid tid w of
                 (Fail e, w1) \<Rightarrow> (Fail e, w1)
               | (Panic m, w1) \<Rightarrow> (Panic m, w1)
               | (Ret _, w1) \<Rightarrow>
                   (case guard_turn U c tid tool fn w1 of
                      (out, w2) \<Rightarrow> deferred (gu_release U c sid tid w2) out)))
      of (out, w') \<Rightarrow> (recovered out, w'))"

section \<open>The protocol\<close>

text \<open>The calls of the guard as a trace. A lock that was refused is not in the trace.\<close>

datatype guard_event =
    GAcquire string string
  | GRelease string string
  | GReadLock string
  | GReadUnlock string
  | GWriteLock string string
  | GWriteUnlock string string
  | GRun

definition traced_get :: "('a \<Rightarrow> guard_event) \<Rightarrow> ('w \<Rightarrow> 'a go \<times> 'w) \<Rightarrow>
    guard_event list \<times> 'w \<Rightarrow> 'a go \<times> guard_event list \<times> 'w" where
  "traced_get ev f lw =
     (case f (snd lw) of
        (Ret x, w1) \<Rightarrow> (Ret x, (fst lw @ [ev x], w1))
      | (out, w1) \<Rightarrow> (out, (fst lw, w1)))"

definition traced_do :: "guard_event \<Rightarrow> ('w \<Rightarrow> 'a \<times> 'w) \<Rightarrow>
    guard_event list \<times> 'w \<Rightarrow> 'a \<times> guard_event list \<times> 'w" where
  "traced_do ev f lw = (case f (snd lw) of (out, w1) \<Rightarrow> (out, (fst lw @ [ev], w1)))"

definition traced :: "'w guard_env \<Rightarrow> (guard_event list \<times> 'w) guard_env" where
  "traced U =
     \<lparr>gu_acquire = (\<lambda>c s t. traced_get (\<lambda>_. GAcquire s t) (gu_acquire U c s t)),
      gu_release = (\<lambda>c s t. traced_do (GRelease s t) (gu_release U c s t)),
      gu_read_lock = (\<lambda>c t. traced_get (\<lambda>_. GReadLock t) (gu_read_lock U c t)),
      gu_read_unlock = (\<lambda>c t. traced_do (GReadUnlock t) (gu_read_unlock U c t)),
      gu_write_lock = (\<lambda>c t. traced_get (\<lambda>token. GWriteLock t token) (gu_write_lock U c t)),
      gu_write_unlock = (\<lambda>c t token. traced_do (GWriteUnlock t token) (gu_write_unlock U c t token)),
      gu_classifier = gu_classifier U\<rparr>"

text \<open>A machine that accepts the well-bracketed traces: the locks that are held form a stack, the
  guarded function runs under a session lock and a turn lock.\<close>

fun bracket :: "guard_event list \<Rightarrow> guard_event \<Rightarrow> guard_event list option" where
  "bracket st (GAcquire s t) = (if st = [] then Some [GAcquire s t] else None)"
| "bracket st (GReadLock t) =
     (case st of [GAcquire s t'] \<Rightarrow> if t = t' then Some (GReadLock t # st) else None | _ \<Rightarrow> None)"
| "bracket st (GWriteLock t k) =
     (case st of [GAcquire s t'] \<Rightarrow> if t = t' then Some (GWriteLock t k # st) else None | _ \<Rightarrow> None)"
| "bracket st GRun =
     (case st of GReadLock t # _ \<Rightarrow> Some st | GWriteLock t k # _ \<Rightarrow> Some st | _ \<Rightarrow> None)"
| "bracket st (GReadUnlock t) =
     (case st of GReadLock t' # r \<Rightarrow> if t = t' then Some r else None | _ \<Rightarrow> None)"
| "bracket st (GWriteUnlock t k) =
     (case st of GWriteLock t' k' # r \<Rightarrow> if t = t' \<and> k = k' then Some r else None | _ \<Rightarrow> None)"
| "bracket st (GRelease s t) = (if st = [GAcquire s t] then Some [] else None)"

fun brackets :: "guard_event list \<Rightarrow> guard_event list \<Rightarrow> guard_event list option" where
  "brackets st [] = Some st"
| "brackets st (e # es) = (case bracket st e of None \<Rightarrow> None | Some st' \<Rightarrow> brackets st' es)"

lemma brackets_append:
  "brackets st (a @ b) = (case brackets st a of None \<Rightarrow> None | Some st' \<Rightarrow> brackets st' b)"
  by (induction st a rule: brackets.induct) (auto split: option.splits)

definition is_read :: "'w guard_env \<Rightarrow> string \<Rightarrow> bool" where
  "is_read U tool \<longleftrightarrow>
     (case gu_classifier U of None \<Rightarrow> OperationClassWrite | Some m \<Rightarrow> Classify (Some m) tool) = OperationClassRead"

lemma traced_get_cases:
  assumes "traced_get ev f (l, w) = (out, (l', w'))"
  obtains (got) x where "out = Ret x" "l' = l @ [ev x]" | (refused) "\<not> is_ret out" "l' = l"
  using assms by (cases "f w"; cases "fst (f w)") (auto simp: traced_get_def)

lemma deferred_traced_do:
  "fst (snd (deferred (traced_do ev f (l, w)) out)) = l @ [ev]"
  by (auto simp: deferred_def traced_do_def split: prod.splits option.splits)

lemma deferred_ret: "is_ret (fst (deferred rel out)) \<Longrightarrow> is_ret out"
  by (cases out) (auto simp: deferred_def split: prod.splits option.splits)

lemma recovered_ret: "is_ret (recovered out) = is_ret out"
  by (cases out) (simp_all add: recovered_def)

text \<open>The traces of the inner part.\<close>

lemma guard_turn_trace:
  assumes "guard_turn (traced U) c tid tool (traced_do GRun fn) (l, w) = (out, (l', w'))"
  shows "(l' = l \<and> \<not> is_ret out) \<or> (is_read U tool \<and> l' = l @ [GReadLock tid, GRun, GReadUnlock tid]) \<or>
    (\<not> is_read U tool \<and> (\<exists>k. l' = l @ [GWriteLock tid k, GRun, GWriteUnlock tid k]))"
proof (cases "is_read U tool")
  case True
  obtain o1 l1 w1 where 1: "traced_get (\<lambda>_. GReadLock tid) (gu_read_lock U c tid) (l, w) = (o1, (l1, w1))"
    by (metis prod.exhaust)
  from 1 show ?thesis
  proof (cases rule: traced_get_cases)
    case (got x)
    obtain o2 w2 where 2: "fn w1 = (o2, w2)" by (cases "fn w1")
    from assms True 1 got 2 have
      "deferred (traced_do (GReadUnlock tid) (gu_read_unlock U c tid) (l1 @ [GRun], w2)) o2 = (out, (l', w'))"
      by (simp add: guard_turn_def is_read_def traced_def traced_do_def [of GRun])
    with deferred_traced_do [of "GReadUnlock tid" "gu_read_unlock U c tid" "l1 @ [GRun]" w2 o2]
    show ?thesis using got True by simp
  next
    case refused
    with assms True 1 show ?thesis
      by (cases o1) (auto simp: guard_turn_def is_read_def traced_def)
  qed
next
  case False
  obtain o1 l1 w1 where 1: "traced_get (\<lambda>k. GWriteLock tid k) (gu_write_lock U c tid) (l, w) = (o1, (l1, w1))"
    by (metis prod.exhaust)
  from 1 show ?thesis
  proof (cases rule: traced_get_cases)
    case (got k)
    obtain o2 w2 where 2: "fn w1 = (o2, w2)" by (cases "fn w1")
    from assms False 1 got 2 have
      "deferred (traced_do (GWriteUnlock tid k) (gu_write_unlock U c tid k) (l1 @ [GRun], w2)) o2 = (out, (l', w'))"
      by (simp add: guard_turn_def is_read_def traced_def traced_do_def [of GRun])
    with deferred_traced_do [of "GWriteUnlock tid k" "gu_write_unlock U c tid k" "l1 @ [GRun]" w2 o2]
    show ?thesis using got False by auto
  next
    case refused
    with assms False 1 show ?thesis
      by (cases o1) (auto simp: guard_turn_def is_read_def traced_def)
  qed
qed

section \<open>What a guarded call adds to the function\<close>

text \<open>A relation that every lock operation respects, before and after the function: the guard respects it around the function.\<close>

definition around :: "('w \<Rightarrow> 'w \<Rightarrow> bool) \<Rightarrow> 'w guarded \<Rightarrow> 'w \<Rightarrow> 'w \<Rightarrow> bool" where
  "around R fn w w' = (R w w' \<or> (\<exists>w1 out w2. R w w1 \<and> fn w1 = (out, w2) \<and> R w2 w'))"

lemma deferred_snd: "snd (deferred rel out) = snd rel"
  by (auto simp: deferred_def split: prod.splits option.splits)

locale guard_frame =
  fixes U :: "'w guard_env" and R :: "'w \<Rightarrow> 'w \<Rightarrow> bool"
  assumes frame_refl: "R w w"
    and frame_trans: "R w w1 \<Longrightarrow> R w1 w2 \<Longrightarrow> R w w2"
    and acquire_frame: "R w (snd (gu_acquire U c s t w))"
    and release_frame: "R w (snd (gu_release U c s t w))"
    and read_lock_frame: "R w (snd (gu_read_lock U c t w))"
    and read_unlock_frame: "R w (snd (gu_read_unlock U c t w))"
    and write_lock_frame: "R w (snd (gu_write_lock U c t w))"
    and write_unlock_frame: "R w (snd (gu_write_unlock U c t k w))"
begin

lemma turn_around: "guard_turn U c tid tool fn w = (out, w') \<Longrightarrow> around R fn w w'"
proof -
  assume g: "guard_turn U c tid tool fn w = (out, w')"
  then consider (kept) "w' = snd (gu_read_lock U c tid w) \<or> w' = snd (gu_write_lock U c tid w)"
    | (ran) w1 o1 w2 k where "w1 = snd (gu_read_lock U c tid w) \<or> w1 = snd (gu_write_lock U c tid w)" "fn w1 = (o1, w2)"
        "w' = snd (gu_read_unlock U c tid w2) \<or> w' = snd (gu_write_unlock U c tid k w2)"
    by (fastforce simp: guard_turn_def deferred_snd dest: arg_cong [where f = snd] split: prod.splits go.splits if_splits)
  then show ?thesis
  proof cases
    case kept
    with read_lock_frame write_lock_frame show ?thesis by (auto simp: around_def)
  next
    case ran
    then have "R w w1" "R w2 w'" using read_lock_frame write_lock_frame read_unlock_frame write_unlock_frame by auto
    with ran(2) show ?thesis by (auto simp: around_def)
  qed
qed

theorem execute_around:
  assumes "guard_Execute U c sid tid tool fn w = (out, w')"
  shows "around R fn w w'"
proof (cases "tool = []")
  case True
  with assms show ?thesis by (auto simp: guard_Execute_def around_def intro: frame_refl split: prod.splits)
next
  case False
  obtain o1 w1 where a: "gu_acquire U c sid tid w = (o1, w1)" by (metis prod.exhaust)
  with acquire_frame [of w c sid tid] have w1: "R w w1" by simp
  show ?thesis
  proof (cases o1)
    case (Ret x)
    obtain o2 w2 where t: "guard_turn U c tid tool fn w1 = (o2, w2)" by (metis prod.exhaust)
    with assms False a Ret have "w' = snd (deferred (gu_release U c sid tid w2) o2)"
      by (auto simp: guard_Execute_def dest: arg_cong [where f = snd] split: prod.splits)
    with release_frame [of w2 c sid tid] have "R w2 w'" by (simp add: deferred_snd)
    with turn_around [OF t] w1 show ?thesis unfolding around_def by (blast intro: frame_trans)
  qed (use assms False a w1 in \<open>auto simp: guard_Execute_def around_def\<close>)
qed

end

section \<open>Properties\<close>

text \<open>
  C10. Whatever the locks, the guarded function and the release calls do, panics included, the calls
  of the guard are well bracketed: every lock obtained is released exactly once, with the ids and
  the token it was obtained with, the turn lock before the session lock, none is released that was
  not obtained, and the function runs at most once and only under both.
\<close>

theorem guard_well_bracketed:
  assumes "tool \<noteq> []"
    and "guard_Execute (traced U) c sid tid tool (traced_do GRun fn) ([], w) = (out, (l, w'))"
  shows "brackets [] l = Some [] \<and> count_list l GRun \<le> 1 \<and> (is_ret out \<longrightarrow> count_list l GRun = 1)"
proof -
  obtain o1 l1 w1 where 1: "traced_get (\<lambda>_. GAcquire sid tid) (gu_acquire U c sid tid) ([], w) = (o1, (l1, w1))"
    by (metis prod.exhaust)
  from 1 show ?thesis
  proof (cases rule: traced_get_cases)
    case (got x)
    obtain o2 l2 w2 where 2: "guard_turn (traced U) c tid tool (traced_do GRun fn) (l1, w1) = (o2, (l2, w2))"
      by (metis prod.exhaust)
    let ?d = "deferred (traced_do (GRelease sid tid) (gu_release U c sid tid) (l2, w2)) o2"
    have "gu_acquire (traced U) c sid tid ([], w) = (Ret x, (l1, w1))"
      "gu_release (traced U) c sid tid = traced_do (GRelease sid tid) (gu_release U c sid tid)"
      using 1 got by (simp_all add: traced_def)
    with assms 2 have d: "(out, (l, w')) = (case ?d of (o', s') \<Rightarrow> (recovered o', s'))"
      by (simp add: guard_Execute_def)
    have "fst (snd (out, (l, w'))) = fst (snd ?d)" "fst (out, (l, w')) = recovered (fst ?d)"
      unfolding d by (simp_all add: case_prod_beta)
    then have l: "l = l2 @ [GRelease sid tid]" and o: "out = recovered (fst ?d)"
      by (simp_all add: deferred_traced_do)
    have ret: "is_ret out \<Longrightarrow> is_ret o2" unfolding o recovered_ret by (rule deferred_ret)
    from guard_turn_trace [OF 2] consider "l2 = l1" "\<not> is_ret o2"
      | "l2 = l1 @ [GReadLock tid, GRun, GReadUnlock tid]"
      | k where "l2 = l1 @ [GWriteLock tid k, GRun, GWriteUnlock tid k]" by blast
    then show ?thesis
    proof cases
      case 1
      with got l ret show ?thesis by (auto split: if_splits)
    next
      case 2
      with got l show ?thesis by simp
    next
      case 3
      with got l show ?thesis by simp
    qed
  next
    case refused
    with assms 1 show ?thesis
      by (cases o1) (auto simp: guard_Execute_def traced_def recovered_def)
  qed
qed

definition demo_guard :: "unit guard_env" where
  "demo_guard =
     \<lparr>gu_acquire = (\<lambda>c s t w. (Ret (), w)), gu_release = (\<lambda>c s t w. (None, w)),
      gu_read_lock = (\<lambda>c t w. (Ret (), w)), gu_read_unlock = (\<lambda>c t w. (None, w)),
      gu_write_lock = (\<lambda>c t w. (Ret ''k'', w)), gu_write_unlock = (\<lambda>c t k w. (None, w)),
      gu_classifier = Some []\<rparr>"

theorem guard_well_bracketed_witness:
  "\<exists>l w'. guard_Execute (traced demo_guard) background ''s'' ''t'' ''create_refund''
      (traced_do GRun (\<lambda>w. (Panic ''boom'', w))) ([], ()) =
        (Fail (EMsg ''panic during guarded execution: boom''), (l, w')) \<and> brackets [] l = Some []"
proof -
  have r: "guard_Execute (traced demo_guard) background ''s'' ''t'' ''create_refund''
      (traced_do GRun (\<lambda>w. (Panic ''boom'', w))) ([], ()) =
      (Fail (EMsg ''panic during guarded execution: boom''),
       ([GAcquire ''s'' ''t'', GWriteLock ''t'' ''k'', GRun, GWriteUnlock ''t'' ''k'', GRelease ''s'' ''t''], ()))"
    by (simp add: guard_Execute_def guard_turn_def traced_def demo_guard_def traced_get_def traced_do_def
        deferred_def recovered_def Classify_def)
  from guard_well_bracketed [OF _ r] r show ?thesis by simp
qed

text \<open>
  The guard never panics: a panic of the guarded function comes back as an error that carries
  its message, after the locks have been released.
\<close>

theorem guard_contains_panics:
  "\<not> is_panic (fst (guard_Execute U c sid tid tool fn w))"
  by (auto simp: guard_Execute_def recovered_def split: prod.splits go.splits)

end
