(* ===== verification/Server.thy ===== *)
theory Server
  imports Capability_Cache Concurrency_Guard Tool_Call Audit_Log Sessions
begin

text \<open>
  \<open>cmd/gateway/server.go\<close>: the HTTP handlers of \<open>/mcp\<close>. The server's own state is the registry
  of sessions and the capability cache; everything its collaborators act on is \<open>'w\<close>. A request
  body is the text that was received, of which the decoder reads the first JSON value. A handler
  returns the session header it has set, the reply or the panic that \<open>ServeHTTP\<close> recovers from,
  and the new state.
\<close>

record gateway_request =
  gq_body :: string
  gq_session :: string
  gq_turn :: string
  gq_ctx_err :: "goerr option"

record gateway_reply =
  gr_status :: int
  gr_body :: raw

record 'w server_env =
  sv_pipeline :: "'w pipeline option"
  sv_guard :: "'w guard_env option"
  sv_forwarder :: "'w handler option"
  sv_audit :: "(audit_record \<Rightarrow> 'w \<Rightarrow> 'w) option"
  sv_log :: "log_entry \<Rightarrow> 'w \<Rightarrow> 'w"
  sv_rand :: "'w \<Rightarrow> 8 word list go \<times> 'w"
  sv_now :: "'w \<Rightarrow> int"

record 'w server_state =
  ss_sessions :: registry
  ss_cache :: capability_cache
  ss_world :: 'w

type_synonym 'w handled = "string option \<times> gateway_reply go \<times> 'w server_state"

definition codeInvalidRequest :: int where "codeInvalidRequest = -32600"

definition decodeJSONRPCRequest :: "string \<Rightarrow> rpc_request option" where
  "decodeJSONRPCRequest body = decode_request (decode_first body)"

text \<open>The decoder reads back the text of an encoded request.\<close>

definition reread_request :: "(f64 \<Rightarrow> string) \<Rightarrow> rpc_request \<Rightarrow> rpc_request" where
  "reread_request ffmt r =
     \<lparr>req_jsonrpc = valid_bytes (req_jsonrpc r), req_id = map_option (reread ffmt) (req_id r),
      req_method = valid_bytes (req_method r), req_params = map_option (reread ffmt) (req_params r)\<rparr>"

lemma reread_encode_request: "reread ffmt (encode_request r) = encode_request (reread_request ffmt r)"
  by (cases "req_id r"; cases "req_params r") (simp_all add: encode_request_def reread_request_def)

lemma decode_request_text:
  assumes "printable ffmt maxNestingDepth (encode_request r)"
  shows "decodeJSONRPCRequest (json_text ffmt (encode_request r)) = Some (reread_request ffmt r)"
  by (simp only: decodeJSONRPCRequest_def decode_first_text [OF assms] reread_encode_request decode_encode_request)

section \<open>Replies\<close>

definition writeJSONResponse :: "rpc_response option \<Rightarrow> gateway_reply" where
  "writeJSONResponse resp =
     (case resp of
        None \<Rightarrow> \<lparr>gr_status = 204, gr_body = None\<rparr>
      | Some r \<Rightarrow> \<lparr>gr_status = 200, gr_body = Some (encode_response r)\<rparr>)"

definition errorResponse :: "raw \<Rightarrow> int \<Rightarrow> string \<Rightarrow> gateway_reply" where
  "errorResponse i c m = writeJSONResponse (Some (NewErrorResponse i c m))"

section \<open>Sessions and contexts\<close>

definition validatedSessionID :: "gateway_request \<Rightarrow> 'w server_state \<Rightarrow> string option" where
  "validatedSessionID q s =
     (if gq_session q = [] then None
      else (case sr_Get (gq_session q) (ss_sessions s) of None \<Rightarrow> None | Some _ \<Rightarrow> Some (gq_session q)))"

text \<open>The turn id is the header's, or a new random one; a failure of the random source panics.\<close>

definition requestContext :: "'w server_env \<Rightarrow> gateway_request \<Rightarrow> string \<Rightarrow> 'w \<Rightarrow> ctx go \<times> 'w" where
  "requestContext V q sid w =
     (let base = background\<lparr>ctx_err := gq_ctx_err q\<rparr> in
      if gq_turn q \<noteq> [] then (Ret (WithTurnID (WithSessionID base sid) (gq_turn q)), w)
      else (case sv_rand V w of
              (rand, w1) \<Rightarrow>
                (go_bind (newSessionID rand) (\<lambda>t. Ret (WithTurnID (WithSessionID base sid) t)), w1)))"

section \<open>\<open>initialize\<close>\<close>

definition writeInitializeResponse ::
  "'w server_env \<Rightarrow> ctx \<Rightarrow> rpc_request \<Rightarrow> 'w server_state \<Rightarrow> gateway_reply go \<times> 'w server_state" where
  "writeInitializeResponse V c r s =
     (case sv_forwarder V of
        None \<Rightarrow> (Ret (errorResponse (req_id r) CodeInternalError ''internal error''), s)
      | Some fwd \<Rightarrow>
          (case fwd c r (ss_world s) of
             (Panic m, _, w1) \<Rightarrow> (Panic m, s\<lparr>ss_world := w1\<rparr>)
           | (Fail e, r1, w1) \<Rightarrow>
               (case getInit (req_id r1) (ss_cache s) of
                  Some cached \<Rightarrow> (Ret (writeJSONResponse (Some cached)), s\<lparr>ss_world := w1\<rparr>)
                | None \<Rightarrow> (Ret (errorResponse (req_id r1) (jsonRPCCode e) (err_text e)), s\<lparr>ss_world := w1\<rparr>))
           | (Ret resp, _, w1) \<Rightarrow>
               (Ret (writeJSONResponse resp), s\<lparr>ss_world := w1, ss_cache := setInit resp (ss_cache s)\<rparr>)))"

definition handleInitialize :: "'w server_env \<Rightarrow> gateway_request \<Rightarrow> rpc_request \<Rightarrow> 'w server_state \<Rightarrow> 'w handled" where
  "handleInitialize V q r s =
     (case sv_rand V (ss_world s) of
        (rand, w1) \<Rightarrow>
          (case sr_Create rand (sv_now V w1) (ss_sessions s) of
             (Ret se, reg) \<Rightarrow>
               (Some (se_id se),
                writeInitializeResponse V (background\<lparr>ctx_err := gq_ctx_err q\<rparr>) r
                  (s\<lparr>ss_sessions := reg, ss_world := w1\<rparr>))
           | (Fail e, reg) \<Rightarrow> (None, Panic (err_text e), s\<lparr>ss_world := w1\<rparr>)
           | (Panic m, reg) \<Rightarrow> (None, Panic m, s\<lparr>ss_world := w1\<rparr>)))"

section \<open>Calls\<close>

text \<open>The guard acts on the world; the request, which the pipeline changes in place, is carried
  along.\<close>

definition with_request :: "('w \<Rightarrow> 'a \<times> 'w) \<Rightarrow> rpc_request \<times> 'w \<Rightarrow> 'a \<times> (rpc_request \<times> 'w)" where
  "with_request f rw = (case f (snd rw) of (x, w1) \<Rightarrow> (x, (fst rw, w1)))"

definition guard_with_request :: "'w guard_env \<Rightarrow> (rpc_request \<times> 'w) guard_env" where
  "guard_with_request U =
     \<lparr>gu_acquire = (\<lambda>c s t. with_request (gu_acquire U c s t)),
      gu_release = (\<lambda>c s t. with_request (gu_release U c s t)),
      gu_read_lock = (\<lambda>c t. with_request (gu_read_lock U c t)),
      gu_read_unlock = (\<lambda>c t. with_request (gu_read_unlock U c t)),
      gu_write_lock = (\<lambda>c t. with_request (gu_write_lock U c t)),
      gu_write_unlock = (\<lambda>c t k. with_request (gu_write_unlock U c t k)),
      gu_classifier = gu_classifier U\<rparr>"

definition run_on :: "'w pipeline \<Rightarrow> ctx \<Rightarrow> (rpc_request \<times> 'w) guarded" where
  "run_on p c rw = (case pl_run p c (fst rw) (snd rw) of (out, r1, w1) \<Rightarrow> (out, (r1, w1)))"

definition runPipeline :: "'w server_env \<Rightarrow> 'w pipeline \<Rightarrow> string \<Rightarrow> string \<Rightarrow> 'w handler" where
  "runPipeline V p sid tool c r w =
     (case sv_guard V of
        None \<Rightarrow> pl_run p c r w
      | Some U \<Rightarrow>
          (case guard_Execute (guard_with_request U) c sid (TurnIDFromContext c) tool (run_on p c) (r, w) of
             (out, (r1, w1)) \<Rightarrow> (out, r1, w1)))"

definition log_call ::
  "'w server_env \<Rightarrow> ctx \<Rightarrow> rpc_request \<Rightarrow> rpc_response option \<Rightarrow> goerr option \<Rightarrow> 'w \<Rightarrow> 'w" where
  "log_call V c r resp err w =
     (if req_method r = ''tools/call'' then sv_log V (LogOutcome c r resp err) w else w)"

definition call_failed ::
  "'w server_env \<Rightarrow> ctx \<Rightarrow> string \<Rightarrow> string \<Rightarrow> raw \<Rightarrow> rpc_request \<Rightarrow> goerr \<Rightarrow> 'w server_state \<Rightarrow>
   gateway_reply \<times> 'w server_state" where
  "call_failed V c sid tool args r e s =
     (let w1 = log_call V c r None (Some e) (ss_world s);
          w2 = (case sv_audit V of
                  Some write \<Rightarrow>
                    if req_method r = ''tools/call'' \<and> tool \<noteq> [] then
                      write \<lparr>au_session = sid, au_turn = TurnIDFromContext c, au_tool = tool, au_args = args,
                             au_decision = ''upstream_error'', au_reason = err_text e\<rparr> w1
                    else w1
                | None \<Rightarrow> w1);
          s2 = s\<lparr>ss_world := w2\<rparr>
      in (case (if req_method r = ''tools/list'' then getToolList (req_id r) (ss_cache s) else None) of
            Some cached \<Rightarrow> (writeJSONResponse (Some cached), s2)
          | None \<Rightarrow> (errorResponse (req_id r) (jsonRPCCode e) (err_text e), s2)))"

definition call_answered ::
  "'w server_env \<Rightarrow> ctx \<Rightarrow> rpc_request \<Rightarrow> rpc_response option \<Rightarrow> 'w server_state \<Rightarrow>
   gateway_reply \<times> 'w server_state" where
  "call_answered V c r resp s =
     (writeJSONResponse resp,
      s\<lparr>ss_world := log_call V c r resp None (ss_world s),
        ss_cache := (if req_method r = ''tools/list'' then setToolList resp (ss_cache s) else ss_cache s)\<rparr>)"

definition handleCall :: "'w server_env \<Rightarrow> 'w pipeline \<Rightarrow> string \<Rightarrow> ctx \<Rightarrow> rpc_request \<Rightarrow> 'w server_state \<Rightarrow>
    gateway_reply go \<times> 'w server_state" where
  "handleCall V p sid c r s =
     (let (tool, args) = (if req_method r = ''tools/call''
                          then (case parseToolCallParams (req_params r) of Ret x \<Rightarrow> x | _ \<Rightarrow> ([], None))
                          else ([], None))
      in (case runPipeline V p sid tool c r (ss_world s) of
            (Panic m, r1, w1) \<Rightarrow> (Panic m, s\<lparr>ss_world := w1\<rparr>)
          | (Fail e, r1, w1) \<Rightarrow>
              (case call_failed V c sid tool args r1 e (s\<lparr>ss_world := w1\<rparr>) of (rep, s2) \<Rightarrow> (Ret rep, s2))
          | (Ret resp, r1, w1) \<Rightarrow>
              (case call_answered V c r1 resp (s\<lparr>ss_world := w1\<rparr>) of (rep, s2) \<Rightarrow> (Ret rep, s2))))"

definition refuse_call ::
  "'w server_env \<Rightarrow> ctx \<Rightarrow> rpc_request \<Rightarrow> int \<Rightarrow> string \<Rightarrow> 'w server_state \<Rightarrow> gateway_reply go \<times> 'w server_state" where
  "refuse_call V c r code msg s =
     (Ret (errorResponse (req_id r) code msg),
      s\<lparr>ss_world := log_call V c r (Some (NewErrorResponse (req_id r) code msg)) None (ss_world s)\<rparr>)"

definition handleMCPPost :: "'w server_env \<Rightarrow> gateway_request \<Rightarrow> 'w server_state \<Rightarrow> 'w handled" where
  "handleMCPPost V q s =
     (case decodeJSONRPCRequest (gq_body q) of
        None \<Rightarrow> (None, Ret (errorResponse None CodeParseError ''parse error''), s)
      | Some r \<Rightarrow>
          if req_method r = ''initialize'' then handleInitialize V q r s
          else
            (case requestContext V q (gq_session q) (ss_world s) of
               (Panic m, w1) \<Rightarrow> (None, Panic m, s\<lparr>ss_world := w1\<rparr>)
             | (Fail e, w1) \<Rightarrow> (None, Panic (err_text e), s\<lparr>ss_world := w1\<rparr>)
             | (Ret c, w1) \<Rightarrow>
                 (let s1 = s\<lparr>ss_world := w1\<rparr> in
                  case validatedSessionID q s1 of
                    None \<Rightarrow> (None, refuse_call V c r codeInvalidRequest ''invalid request'' s1)
                  | Some sid \<Rightarrow>
                      (case requestContext V q sid w1 of
                         (Panic m, w2) \<Rightarrow> (None, Panic m, s\<lparr>ss_world := w2\<rparr>)
                       | (Fail e, w2) \<Rightarrow> (None, Panic (err_text e), s\<lparr>ss_world := w2\<rparr>)
                       | (Ret c2, w2) \<Rightarrow>
                           (case sv_pipeline V of
                              None \<Rightarrow>
                                (None, refuse_call V c2 r CodeInternalError ''internal error'' (s\<lparr>ss_world := w2\<rparr>))
                            | Some p \<Rightarrow> (None, handleCall V p sid c2 r (s\<lparr>ss_world := w2\<rparr>)))))))"

section \<open>Other methods\<close>

text \<open>\<open>GET\<close>: the stream of keep-alive comments, until the client goes away or a write fails. The
  events are what the loop's \<open>select\<close> receives, with the outcome of setting the deadline and of
  the write; the result is what was written.\<close>

datatype stream_event = StDone | StTick "goerr option" "goerr option"

definition keepalive :: string where "keepalive = '': keepalive'' @ [CHR 10, CHR 10]"

fun stream_loop :: "stream_event list \<Rightarrow> string list \<times> bool" where
  "stream_loop [] = ([], False)"
| "stream_loop (StDone # es) = ([], True)"
| "stream_loop (StTick deadline wr # es) =
     (if deadline \<noteq> None \<or> wr \<noteq> None then ([], True)
      else (case stream_loop es of (out, ended) \<Rightarrow> (keepalive # out, ended)))"

datatype get_reply = GetRefused gateway_reply | GetUnsupported | GetStream "string list" bool

definition handleMCPGet :: "gateway_request \<Rightarrow> bool \<Rightarrow> stream_event list \<Rightarrow> 'w server_state \<Rightarrow> get_reply" where
  "handleMCPGet q flusher es s =
     (case validatedSessionID q s of
        None \<Rightarrow> GetRefused (errorResponse None codeInvalidRequest ''invalid request'')
      | Some _ \<Rightarrow>
          if \<not> flusher then GetUnsupported
          else (case stream_loop es of (out, ended) \<Rightarrow> GetStream out ended))"

definition handleMCPDelete :: "gateway_request \<Rightarrow> 'w server_state \<Rightarrow> 'w handled" where
  "handleMCPDelete q s =
     (case validatedSessionID q s of
        None \<Rightarrow> (None, Ret (errorResponse None codeInvalidRequest ''invalid request''), s)
      | Some sid \<Rightarrow>
          (None, Ret \<lparr>gr_status = 200, gr_body = None\<rparr>, s\<lparr>ss_sessions := sr_Delete sid (ss_sessions s)\<rparr>))"

datatype http_method = MPost | MDelete

text \<open>\<open>ServeHTTP\<close>: a panic becomes an internal error; a header set before it stays.\<close>

definition server_ServeHTTP ::
  "'w server_env \<Rightarrow> http_method \<Rightarrow> gateway_request \<Rightarrow> 'w server_state \<Rightarrow> string option \<times> gateway_reply \<times> 'w server_state" where
  "server_ServeHTTP V m q s =
     (case (case m of MPost \<Rightarrow> handleMCPPost V q s | MDelete \<Rightarrow> handleMCPDelete q s) of
        (hdr, Ret rep, s1) \<Rightarrow> (hdr, rep, s1)
      | (hdr, Fail e, s1) \<Rightarrow> (hdr, errorResponse None CodeInternalError ''internal error'', s1)
      | (hdr, Panic p, s1) \<Rightarrow> (hdr, errorResponse None CodeInternalError ''internal error'', s1))"

section \<open>The sessions a server serves\<close>

fun serve_all :: "'w server_env \<Rightarrow> (http_method \<times> gateway_request) list \<Rightarrow> 'w server_state \<Rightarrow>
    (string option \<times> gateway_reply) list \<times> 'w server_state" where
  "serve_all V [] s = ([], s)"
| "serve_all V ((m, q) # qs) s =
     (case server_ServeHTTP V m q s of
        (hdr, rep, s1) \<Rightarrow> (case serve_all V qs s1 of (out, s2) \<Rightarrow> ((hdr, rep) # out, s2)))"

lemma refuse_call_sessions [simp]: "ss_sessions (snd (refuse_call V c r code msg s)) = ss_sessions s"
  by (simp add: refuse_call_def)

lemma handleCall_sessions [simp]: "ss_sessions (snd (handleCall V p sid c r s)) = ss_sessions s"
  by (simp add: handleCall_def call_failed_def call_answered_def Let_def split: prod.splits go.splits option.splits)

lemma writeInitializeResponse_sessions [simp]:
  "ss_sessions (snd (writeInitializeResponse V c r s)) = ss_sessions s"
  by (simp add: writeInitializeResponse_def split: prod.splits go.splits option.splits)

lemma sessions_kept:
  "refuse_call V c r code msg s = (rep, s') \<Longrightarrow> ss_sessions s' = ss_sessions s"
  "handleCall V p sid c r s = (rep, s') \<Longrightarrow> ss_sessions s' = ss_sessions s"
  using refuse_call_sessions [of V c r code msg s] handleCall_sessions [of V p sid c r s] by simp_all

definition live :: "'w server_state \<Rightarrow> string \<Rightarrow> bool" where
  "live s i = (map_of (ss_sessions s) i \<noteq> None)"

lemma live_eq: "ss_sessions s' = ss_sessions s \<Longrightarrow> live s' = live s"
  by (simp add: live_def fun_eq_iff)

lemma post_sessions:
  assumes "handleMCPPost V q s = (hdr, rep, s')"
  shows "live s' i \<longleftrightarrow> hdr = Some i \<or> live s i"
proof (cases "\<exists>r. decodeJSONRPCRequest (gq_body q) = Some r \<and> req_method r = ''initialize''")
  case True
  then obtain r where r: "decodeJSONRPCRequest (gq_body q) = Some r" "req_method r = ''initialize''" by blast
  obtain rand w1 where w1: "sv_rand V (ss_world s) = (rand, w1)" by (cases "sv_rand V (ss_world s)")
  obtain o1 reg where c: "sr_Create rand (sv_now V w1) (ss_sessions s) = (o1, reg)"
    by (cases "sr_Create rand (sv_now V w1) (ss_sessions s)")
  show ?thesis
  proof (cases o1)
    case (Ret se)
    with c have reg: "reg = map_put (se_id se) se (ss_sessions s)"
      by (auto simp: sr_Create_def Let_def split: go.splits)
    obtain rep1 s1 where i: "writeInitializeResponse V (background\<lparr>ctx_err := gq_ctx_err q\<rparr>) r
        (s\<lparr>ss_sessions := reg, ss_world := w1\<rparr>) = (rep1, s1)"
      by (metis prod.exhaust)
    with writeInitializeResponse_sessions [of V "background\<lparr>ctx_err := gq_ctx_err q\<rparr>" r
        "s\<lparr>ss_sessions := reg, ss_world := w1\<rparr>"] have "ss_sessions s1 = reg" by simp
    moreover from assms r w1 c Ret i have "hdr = Some (se_id se)" "s' = s1"
      by (auto simp: handleMCPPost_def handleInitialize_def)
    ultimately show ?thesis using reg by (auto simp: live_def)
  qed (use assms r w1 c in \<open>auto simp: handleMCPPost_def handleInitialize_def live_def\<close>)
next
  case False
  have "hdr = None \<and> ss_sessions s' = ss_sessions s"
  proof (cases "decodeJSONRPCRequest (gq_body q)")
    case (Some r)
    with False assms show ?thesis
      by (auto simp: handleMCPPost_def Let_def dest!: sessions_kept split: prod.splits go.splits option.splits)
  qed (use assms in \<open>simp add: handleMCPPost_def\<close>)
  then show ?thesis by (simp add: live_def)
qed

lemma serve_sessions:
  assumes "server_ServeHTTP V m q s = (hdr, rep, s')"
  shows "live s' i \<longleftrightarrow> hdr = Some i \<or> (live s i \<and> \<not> (m = MDelete \<and> gq_session q = i \<and> i \<noteq> []))"
proof (cases m)
  case MPost
  obtain h1 o1 s1 where p: "handleMCPPost V q s = (h1, o1, s1)" by (metis prod.exhaust)
  with assms MPost have "hdr = h1" "s' = s1" by (auto simp: server_ServeHTTP_def split: go.splits)
  with post_sessions [OF p, of i] MPost show ?thesis by simp
next
  case MDelete
  then show ?thesis using assms
    by (auto simp: server_ServeHTTP_def handleMCPDelete_def validatedSessionID_def live_def map_of_sr_Delete
        sr_Get_def split: option.splits if_splits)
qed

lemma later_Suc:
  "(\<forall>j. Suc k < j \<and> j < Suc n \<longrightarrow> P j) = (\<forall>j. k < j \<and> j < n \<longrightarrow> P (Suc j))"
  "(\<forall>j. 0 < j \<and> j < Suc n \<longrightarrow> P j) = (\<forall>j < n. P (Suc j))"
  by (metis Suc_less_eq Suc_lessE) (metis Suc_less_eq gr0_conv_Suc)

text \<open>
  C20. After any requests to a new server, exactly those session ids are served that the header of an
  \<open>initialize\<close> reply gave out and that no later \<open>DELETE\<close> named.
\<close>

theorem issued_sessions_served:
  assumes "serve_all V qs s = (out, s')" and "ss_sessions s = []" and "i \<noteq> []"
  shows "validatedSessionID (\<lparr>gq_body = b, gq_session = i, gq_turn = t, gq_ctx_err = e\<rparr>) s' = Some i \<longleftrightarrow>
    (\<exists>k < length qs. fst (out ! k) = Some i \<and>
       (\<forall>j. k < j \<and> j < length qs \<longrightarrow> \<not> (fst (qs ! j) = MDelete \<and> gq_session (snd (qs ! j)) = i)))"
proof -
  have "length out = length qs \<and> (live s' i \<longleftrightarrow>
      (\<exists>k < length qs. fst (out ! k) = Some i \<and>
         (\<forall>j. k < j \<and> j < length qs \<longrightarrow> \<not> (fst (qs ! j) = MDelete \<and> gq_session (snd (qs ! j)) = i))) \<or>
      (live s i \<and> (\<forall>j < length qs. \<not> (fst (qs ! j) = MDelete \<and> gq_session (snd (qs ! j)) = i))))"
    using assms(1)
  proof (induction V qs s arbitrary: out rule: serve_all.induct)
    case (2 V m q qs s)
    obtain hdr rep s1 where r: "server_ServeHTTP V m q s = (hdr, rep, s1)" by (metis prod.exhaust)
    obtain out1 s2 where t: "serve_all V qs s1 = (out1, s2)" by (metis prod.exhaust)
    from 2 r t have o: "out = (hdr, rep) # out1" "s2 = s'" by auto
    note ih = "2.IH" [OF r [symmetric] refl, of out1]
    from ih t o(2) have i: "length out1 = length qs" "live s' i \<longleftrightarrow>
      (\<exists>k < length qs. fst (out1 ! k) = Some i \<and>
         (\<forall>j. k < j \<and> j < length qs \<longrightarrow> \<not> (fst (qs ! j) = MDelete \<and> gq_session (snd (qs ! j)) = i))) \<or>
      (live s1 i \<and> (\<forall>j < length qs. \<not> (fst (qs ! j) = MDelete \<and> gq_session (snd (qs ! j)) = i)))"
      by auto
    from i o(1) serve_sessions [OF r, of i] show ?case
      by (simp add: Ex_less_Suc2 All_less_Suc2 later_Suc) (use assms(3) in blast)
  qed (auto simp: assms(2) live_def)
  then show ?thesis
    using assms(2,3) by (auto simp: validatedSessionID_def sr_Get_def live_def split: option.splits)
qed

definition demo_server :: "unit server_env" where
  "demo_server =
     \<lparr>sv_pipeline = None, sv_guard = None, sv_forwarder = None, sv_audit = None, sv_log = (\<lambda>_ w. w),
      sv_rand = (\<lambda>w. (Ret (replicate 16 0), w)), sv_now = (\<lambda>_. 0)\<rparr>"

definition initialize_request :: gateway_request where
  "initialize_request =
     \<lparr>gq_body = marshal (encode_request \<lparr>req_jsonrpc = ''2.0'', req_id = None, req_method = ''initialize'', req_params = None\<rparr>),
      gq_session = [], gq_turn = [], gq_ctx_err = None\<rparr>"

definition new_server :: "unit server_state" where
  "new_server = \<lparr>ss_sessions = [], ss_cache = empty_cache, ss_world = ()\<rparr>"

lemma initialize_served:
  "\<exists>rep s'. serve_all demo_server [(MPost, initialize_request)] new_server =
     ([(Some (uuid_text (uuid_bits (replicate 16 0))), rep)], s')"
proof -
  have "decodeJSONRPCRequest (gq_body initialize_request) =
      Some \<lparr>req_jsonrpc = ''2.0'', req_id = None, req_method = ''initialize'', req_params = None\<rparr>"
    unfolding initialize_request_def gateway_request.simps
    by (subst decode_request_text) (simp_all add: encode_request_def reread_request_def maxNestingDepth_def)
  then show ?thesis
    by (simp add: server_ServeHTTP_def handleMCPPost_def handleInitialize_def
        demo_server_def new_server_def sr_Create_def newSessionID_def writeInitializeResponse_def Let_def)
qed

theorem issued_sessions_served_witness:
  "\<exists>rep s'. serve_all demo_server [(MPost, initialize_request)] new_server =
       ([(Some (uuid_text (uuid_bits (replicate 16 0))), rep)], s') \<and>
     validatedSessionID \<lparr>gq_body = [], gq_session = uuid_text (uuid_bits (replicate 16 0)), gq_turn = [],
       gq_ctx_err = None\<rparr> s' = Some (uuid_text (uuid_bits (replicate 16 0)))"
proof -
  let ?i = "uuid_text (uuid_bits (replicate 16 0))"
  from initialize_served obtain rep s' where
    r: "serve_all demo_server [(MPost, initialize_request)] new_server = ([(Some ?i, rep)], s')" by blast
  have "?i \<noteq> []" by (simp add: uuid_text_def)
  from issued_sessions_served [OF r _ this, of "[]" "[]" None] r show ?thesis
    by (intro exI [of _ rep] exI [of _ s']) (simp add: new_server_def)
qed

end
