(* ===== verification/Go_Time.thy ===== *)
theory Go_Time
  imports Json
begin

text \<open>
  \<open>time.ParseDuration\<close>, which the configuration reads its durations with: a sign, then numbers with
  a fraction and a unit. The integers are \<open>uint64\<close>; the fraction of a unit is computed in
  \<open>float64\<close> and truncated. Also the rendering of the errors of \<open>strconv.Atoi\<close>.
\<close>

section \<open>Products of doubles\<close>

definition f64_ratio :: "nat \<Rightarrow> nat \<Rightarrow> f64 option" where
  "f64_ratio num den =
     (if num = 0 then Some (F64 False 0 (-1074))
      else
        let e0 = max (-1074) (int (bitlen num) - int (bitlen den) - 53);
            e1 = (if (num * 2 ^ nat (- e0)) div (den * 2 ^ nat e0) \<ge> 2 ^ 53 then e0 + 1 else e0)
        in f64_pack False (round_half_even (num * 2 ^ nat (- e1)) (den * 2 ^ nat e1)) e1)"

text \<open>The product of two doubles that are not negative, and the truncation to an integer.\<close>

definition f64_mul :: "f64 \<Rightarrow> f64 \<Rightarrow> f64 option" where
  "f64_mul a b =
     (let e = f64_exp a + f64_exp b
      in f64_ratio (f64_mant a * f64_mant b * 2 ^ nat e) (2 ^ nat (- e)))"

definition f64_trunc :: "f64 \<Rightarrow> nat" where
  "f64_trunc a = (f64_mant a * 2 ^ nat (f64_exp a)) div 2 ^ nat (- f64_exp a)"

section \<open>Durations\<close>

definition two63 :: nat where "two63 = 9223372036854775808"

text \<open>\<open>leadingInt\<close>: the digits in front as a number, \<open>None\<close> on overflow, and the rest.\<close>

fun leading_int :: "nat \<Rightarrow> string \<Rightarrow> nat option \<times> string" where
  "leading_int x [] = (Some x, [])"
| "leading_int x (c # s) =
     (case digit_val c of
        None \<Rightarrow> (Some x, c # s)
      | Some d \<Rightarrow>
          if x > two63 div 10 then (None, c # s)
          else if x * 10 + d > two63 then (None, c # s)
          else leading_int (x * 10 + d) s)"

text \<open>\<open>leadingFraction\<close>: the digits in front as a number and how many of them count, the others
  being dropped after an overflow.\<close>

fun leading_fraction :: "nat \<Rightarrow> nat \<Rightarrow> bool \<Rightarrow> string \<Rightarrow> nat \<times> nat \<times> string" where
  "leading_fraction x k over [] = (x, k, [])"
| "leading_fraction x k over (c # s) =
     (case digit_val c of
        None \<Rightarrow> (x, k, c # s)
      | Some d \<Rightarrow>
          if over \<or> x > (two63 - 1) div 10 \<or> x * 10 + d > two63 then leading_fraction x k True s
          else leading_fraction (x * 10 + d) (Suc k) False s)"

definition unit_map :: "(string \<times> nat) list" where
  "unit_map =
     [(''ns'', 1), (''us'', 1000), ([CHR 0xC2, CHR 0xB5] @ ''s'', 1000), ([CHR 0xCE, CHR 0xBC] @ ''s'', 1000),
      (''ms'', 1000000), (''s'', 1000000000), (''m'', 60000000000), (''h'', 3600000000000)]"

definition unit_char :: "char \<Rightarrow> bool" where
  "unit_char c = (c \<noteq> CHR ''.'' \<and> digit_val c = None)"

text \<open>The package's own quoting: a quote, a backslash, control characters and bytes from 128 on are
  escaped.\<close>

definition time_quote_char :: "char \<Rightarrow> string" where
  "time_quote_char c =
     (if c = CHR 34 \<or> c = CHR 92 then [CHR 92, c]
      else if of_char c < (32::nat) \<or> 128 \<le> (of_char c :: nat) then [CHR 92, CHR ''x''] @ hex_byte (word_of_nat (of_char c))
      else [c])"

definition time_quote :: "string \<Rightarrow> string" where
  "time_quote s = [CHR 34] @ concat (map time_quote_char s) @ [CHR 34]"

definition duration_error :: "string \<Rightarrow> string \<Rightarrow> 'a go" where
  "duration_error m orig = Fail (EMsg (''time: '' @ m @ time_quote orig))"

text \<open>The nanoseconds of \<open>0.f\<close> units, the fraction having \<open>k\<close> digits.\<close>

definition fraction_ns :: "nat \<Rightarrow> nat \<Rightarrow> nat \<Rightarrow> nat" where
  "fraction_ns f k u =
     (case (f64_of False f 0, f64_of False u (- int k)) of
        (Some a, Some b) \<Rightarrow> (case f64_mul a b of Some p \<Rightarrow> f64_trunc p | None \<Rightarrow> 0)
      | _ \<Rightarrow> 0)"

text \<open>One component (number and unit) in front of \<open>s\<close>: its nanoseconds and the rest.\<close>

definition duration_component :: "string \<Rightarrow> string \<Rightarrow> (nat \<times> string) go" where
  "duration_component orig s =
     (if s = [] \<or> \<not> (hd s = CHR ''.'' \<or> digit_val (hd s) \<noteq> None) then duration_error ''invalid duration '' orig
      else
        (case leading_int 0 s of
           (None, _) \<Rightarrow> duration_error ''invalid duration '' orig
         | (Some v, s1) \<Rightarrow>
             (let pre = (length s \<noteq> length s1);
                  (f, k, s2) = (if has_prefix s1 ''.'' then leading_fraction 0 0 False (tl s1) else (0, 0, s1));
                  post = (has_prefix s1 ''.'' \<and> length (tl s1) \<noteq> length s2);
                  u = takeWhile unit_char s2; s3 = dropWhile unit_char s2
              in if \<not> pre \<and> \<not> post then duration_error ''invalid duration '' orig
                 else if u = [] then duration_error ''missing unit in duration '' orig
                 else (case map_of unit_map u of
                         None \<Rightarrow> Fail (EMsg (''time: unknown unit '' @ time_quote u @ '' in duration '' @ time_quote orig))
                       | Some n \<Rightarrow>
                           if v > two63 div n then duration_error ''invalid duration '' orig
                           else
                             (let w = v * n + (if f > 0 then fraction_ns f k n else 0)
                              in if f > 0 \<and> w > two63 then duration_error ''invalid duration '' orig
                                 else Ret (w, s3))))))"

text \<open>The sum of the components is a \<open>uint64\<close>. Every component is at least one character, so the
  length of the text is enough fuel (\<open>duration_sum_fuel\<close>).\<close>

fun duration_sum :: "nat \<Rightarrow> string \<Rightarrow> nat \<Rightarrow> string \<Rightarrow> nat go" where
  "duration_sum n orig d [] = Ret d"
| "duration_sum 0 orig d (c # s) = Ret d"
| "duration_sum (Suc n) orig d (c # s) =
     (case duration_component orig (c # s) of
        Panic m \<Rightarrow> Panic m
      | Fail e \<Rightarrow> Fail e
      | Ret (w, s1) \<Rightarrow>
          (let d1 = (d + w) mod 2 ^ 64
           in if d1 > two63 then duration_error ''invalid duration '' orig else duration_sum n orig d1 s1))"

definition ParseDuration :: "string \<Rightarrow> int go" where
  "ParseDuration orig =
     (let neg = has_prefix orig ''-'';
          s = (if has_prefix orig ''-'' \<or> has_prefix orig ''+'' then tl orig else orig)
      in if s = ''0'' then Ret 0
         else if s = [] then duration_error ''invalid duration '' orig
         else (case duration_sum (length s) orig 0 s of
                 Panic m \<Rightarrow> Panic m
               | Fail e \<Rightarrow> Fail e
               | Ret d \<Rightarrow>
                   if neg then Ret (- int d)
                   else if d > two63 - 1 then duration_error ''invalid duration '' orig
                   else Ret (int d)))"

section \<open>\<open>strconv.Atoi\<close>\<close>

definition atoi_problem :: "string \<Rightarrow> string" where
  "atoi_problem s =
     (if parse_digits (if has_prefix s ''-'' \<or> has_prefix s ''+'' then tl s else s) = None
      then ''invalid syntax'' else ''value out of range'')"

definition Atoi :: "string \<Rightarrow> int go" where
  "Atoi s =
     (case parse_int64 s of
        Some n \<Rightarrow> Ret n
      | None \<Rightarrow> Fail (EMsg (''strconv.Atoi: parsing '' @ go_quote s @ '': '' @ atoi_problem s)))"

section \<open>Facts\<close>

lemma leading_int_length: "length (snd (leading_int x s)) \<le> length s"
  by (induction x s rule: leading_int.induct) (auto split: option.splits)

lemma leading_fraction_length: "length (snd (snd (leading_fraction x k ov s))) \<le> length s"
  by (induction x k ov s rule: leading_fraction.induct) (auto split: option.splits)

lemma unit_length: "takeWhile unit_char s \<noteq> [] \<Longrightarrow> length (dropWhile unit_char s) < length s"
  by (metis add_cancel_left_left length_0_conv length_append length_dropWhile_le order_neq_le_trans
      takeWhile_dropWhile_id)

lemma duration_component_shrinks:
  assumes "duration_component orig s = Ret (w, r)"
  shows "length r < length s"
proof -
  obtain v s1 where 1: "leading_int 0 s = (v, s1)" by (cases "leading_int 0 s")
  obtain f k s2 where 2: "(if has_prefix s1 ''.'' then leading_fraction 0 0 False (tl s1) else (0, 0, s1)) = (f, k, s2)"
    by (metis prod.exhaust)
  from leading_int_length [of 0 s] 1 have "length s1 \<le> length s" by simp
  moreover from leading_fraction_length [of 0 0 False "tl s1"] 2 have "length s2 \<le> length s1"
    by (auto split: if_splits)
  moreover from assms 1 2 have "takeWhile unit_char s2 \<noteq> [] \<and> r = dropWhile unit_char s2"
    by (auto simp: duration_component_def duration_error_def Let_def split: if_splits option.splits)
  ultimately show ?thesis using unit_length [of s2] by auto
qed

text \<open>The fuel is enough: with more of it the result is the same.\<close>

lemma duration_sum_fuel:
  "length s \<le> n \<Longrightarrow> length s \<le> m \<Longrightarrow> duration_sum n orig d s = duration_sum m orig d s"
proof (induction n orig d s arbitrary: m rule: duration_sum.induct)
  case (3 n orig d c s)
  then obtain m' where m: "m = Suc m'" by (cases m) auto
  show ?case
  proof (cases "duration_component orig (c # s)")
    case (Ret x)
    obtain w s1 where x: "x = (w, s1)" by (cases x)
    with duration_component_shrinks [of orig "c # s" w s1] Ret 3(2,3) m have l: "length s1 \<le> n" "length s1 \<le> m'"
      by simp_all
    show ?thesis
      using "3.IH" [OF Ret x [symmetric] refl _ l] Ret x m by (simp add: Let_def)
  qed (simp_all add: m)
qed auto

lemma leading_int_digits:
  assumes "\<forall>c \<in> set ds. digit_val c \<noteq> None" "digits_val x ds = Some v" "v \<le> two63" "r = [] \<or> digit_val (hd r) = None"
  shows "leading_int x (ds @ r) = (Some v, r)"
  using assms
proof (induction ds arbitrary: x)
  case Nil
  then show ?case by (cases r) auto
next
  case (Cons c ds)
  then obtain d where d: "digit_val c = Some d" by auto
  with Cons.prems have v: "digits_val (10 * x + d) ds = Some v" by simp
  have "10 * x + d \<le> v" using v
  proof (induction ds arbitrary: x d)
    case (Cons e ds)
    then obtain d' where "digit_val e = Some d'" by (auto split: option.splits)
    with Cons.prems Cons.IH [of "10 * x + d" d'] show ?case by simp
  qed simp
  with Cons.prems(3) have "\<not> x > two63 div 10" "\<not> x * 10 + d > two63" by (simp_all add: two63_def)
  with Cons.IH [of "10 * x + d"] Cons.prems d v show ?case by (simp add: mult.commute)
qed

lemma leading_int_show_nat:
  assumes "n \<le> two63" "r = [] \<or> digit_val (hd r) = None"
  shows "leading_int 0 (show_nat n @ r) = (Some n, r)"
  by (rule leading_int_digits) (use assms digit_char_is_digit in \<open>auto simp: digits_val_show_nat\<close>)

lemma unit_map_cases:
  assumes "map_of unit_map u = Some k"
  shows "u \<noteq> [] \<and> list_all unit_char u \<and> 0 < k"
  using assms
  by (simp add: unit_map_def unit_char_def digit_val_def split: if_splits)

lemma show_nat_hd: "\<exists>c cs. show_nat n = c # cs \<and> digit_val c \<noteq> None \<and> c \<noteq> CHR ''-'' \<and> c \<noteq> CHR ''+''"
  using hd_show_nat_not_sign [of n] digit_char_is_digit [of _ n] by (cases "show_nat n") auto

lemma duration_component_whole:
  assumes "map_of unit_map u = Some k" "n * k \<le> two63"
  shows "duration_component orig (show_nat n @ u) = Ret (n * k, [])"
proof -
  from unit_map_cases [OF assms(1)] have u: "u \<noteq> []" "list_all unit_char u" "0 < k" by auto
  then have hd: "digit_val (hd u) = None" "hd u \<noteq> CHR ''.''"
    by (cases u; simp add: unit_char_def)+
  have n: "n \<le> two63 div k" using assms(2) u(3) by (simp add: less_eq_div_iff_mult_less_eq)
  then have "n \<le> two63" using div_le_dividend le_trans by blast
  then have l: "leading_int 0 (show_nat n @ u) = (Some n, u)" using hd(1) by (intro leading_int_show_nat) simp_all
  have c: "show_nat n \<noteq> []" "digit_val (hd (show_nat n @ u)) \<noteq> None" using show_nat_hd [of n] by auto
  have t: "takeWhile unit_char u = u" "dropWhile unit_char u = []"
    using u(2) by (simp_all add: list_all_iff dropWhile_eq_Nil_conv takeWhile_eq_all_conv)
  have "\<not> has_prefix u ''.''" using hd(2) u(1) by (cases u) simp_all
  with l c assms n u(1) show ?thesis
    by (simp add: duration_component_def Let_def t)
qed

lemma ParseDuration_int64:
  assumes "ParseDuration s = Ret d"
  shows "int64_min \<le> d \<and> d \<le> int64_max"
proof -
  have "duration_sum n orig a t = Ret r \<Longrightarrow> a \<le> two63 \<Longrightarrow> r \<le> two63" for n orig a t r
    by (induction n orig a t rule: duration_sum.induct)
      (auto simp: duration_error_def Let_def split: go.splits if_splits)
  from this [of _ _ 0] assms show ?thesis
    by (fastforce simp: ParseDuration_def Let_def duration_error_def two63_def int64_min_def int64_max_def
        split: if_splits go.splits)
qed

section \<open>Properties\<close>

text \<open>
  Durations are read back: a whole number printed with one of the units is that many of them, as
  long as the nanoseconds fit \<open>int64\<close>.
\<close>

theorem duration_roundtrip:
  assumes "map_of unit_map u = Some k" and "n * int k \<in> {int64_min..int64_max}"
  shows "ParseDuration (itoa n @ u) = Ret (n * int k)"
proof -
  define m where "m = nat \<bar>n\<bar>"
  from unit_map_cases [OF assms(1)] have u: "u \<noteq> []" "0 < k" by auto
  have mk: "int (m * k) = \<bar>n * int k\<bar>" by (simp add: m_def abs_mult)
  have "\<bar>n * int k\<bar> \<le> 9223372036854775808" using assms(2) by (auto simp: int64_min_def int64_max_def)
  with mk have b: "m * k \<le> two63" unfolding two63_def by linarith
  obtain c cs where c: "show_nat m = c # cs" "c \<noteq> CHR ''-''" "c \<noteq> CHR ''+''" using show_nat_hd by blast
  have s: "duration_sum (length (show_nat m) + length u) orig 0 (show_nat m @ u) = Ret (m * k)" for orig
    using duration_component_whole [OF assms(1) b] b c by (simp add: two63_def Let_def)
  have z: "show_nat m @ u \<noteq> ''0''"
    using u(1) c by (cases cs) auto
  show ?thesis
  proof (cases "n < 0")
    case True
    then have i: "itoa n = CHR ''-'' # show_nat m" by (simp add: itoa_def m_def)
    from True u(2) mk have "- int (m * k) = n * int k" by (simp add: abs_mult)
    then show ?thesis by (simp add: ParseDuration_def Let_def i s z)
  next
    case False
    then have i: "itoa n = show_nat m" by (simp add: itoa_def m_def)
    from False u(2) mk have v: "int (m * k) = n * int k" by simp
    have "n * int k \<le> 9223372036854775807" using assms(2) by (simp add: int64_max_def)
    with v have "\<not> m * k > two63 - 1" unfolding two63_def by linarith
    moreover have "\<not> has_prefix (show_nat m @ u) ''-''" "\<not> has_prefix (show_nat m @ u) ''+''" using c by simp_all
    ultimately show ?thesis using v by (simp add: ParseDuration_def Let_def i s z)
  qed
qed

theorem duration_roundtrip_witness:
  "ParseDuration (itoa (-90) @ ''m'') = Ret (-5400000000000)"
  using duration_roundtrip [of "''m''" 60000000000 "-90"]
  by (simp add: unit_map_def int64_min_def int64_max_def)

end
