(* ===== verification/Config.thy ===== *)
theory Config
  imports Go_Time Tool_Call
begin

text \<open>
  \<open>cmd/gateway/config.go\<close>: the configuration read from the environment. The environment is a
  function from names to values, empty for a variable that is not set, as \<open>os.Getenv\<close> gives them.
  Durations are nanoseconds. Loading may log a notice, so it returns the log entries too.
\<close>

type_synonym environment = "string \<Rightarrow> string"

record config =
  cfg_port :: int
  cfg_policy :: string
  cfg_postgres :: string
  cfg_redis :: string
  cfg_upstream :: string
  cfg_turn_header :: string
  cfg_upstream_timeout :: int
  cfg_session_ttl :: int
  cfg_lock_ttl :: int
  cfg_acquire_timeout :: int
  cfg_approval_timeout :: int
  cfg_lark_app :: string
  cfg_lark_secret :: string
  cfg_lark_chat :: string
  cfg_lark_token :: string
  cfg_lark_url :: string

definition second :: int where "second = 1000000000"
definition minute :: int where "minute = 60 * second"

definition envString :: "environment \<Rightarrow> string \<Rightarrow> string \<Rightarrow> string" where
  "envString env name fallback = (if env name = [] then fallback else env name)"

definition envStringWithInfoNotice ::
  "environment \<Rightarrow> string \<Rightarrow> string \<Rightarrow> string \<Rightarrow> string \<times> log_entry list" where
  "envStringWithInfoNotice env name fallback notice =
     (if env name = []
      then (fallback, [(LevelInfo, name @ '' not set; '' @ notice, [(''value'', LStr fallback)])])
      else (env name, []))"

definition envInt :: "environment \<Rightarrow> string \<Rightarrow> int \<Rightarrow> int go" where
  "envInt env name fallback =
     (if env name = [] then Ret fallback
      else (case Atoi (env name) of
              Fail e \<Rightarrow> Fail (EWrap (''invalid '' @ name) e)
            | r \<Rightarrow> r))"

definition envDuration :: "environment \<Rightarrow> string \<Rightarrow> int \<Rightarrow> int go" where
  "envDuration env name fallback =
     (if env name = [] then Ret fallback
      else (case ParseDuration (env name) of
              Fail e \<Rightarrow> Fail (EWrap (''invalid '' @ name) e)
            | r \<Rightarrow> r))"

definition required :: "environment \<Rightarrow> string \<Rightarrow> string go" where
  "required env name =
     (if env name = [] then Fail (EMsg (''missing required environment variable '' @ name)) else Ret (env name))"

definition lark_variables :: "string list" where
  "lark_variables = [''LARK_APP_ID'', ''LARK_APP_SECRET'', ''LARK_CHAT_ID'', ''LARK_VERIFICATION_TOKEN'']"

definition missing_lark :: "environment \<Rightarrow> string list" where
  "missing_lark env = filter (\<lambda>name. env name = []) lark_variables"

definition LoadConfig :: "environment \<Rightarrow> config go \<times> log_entry list" where
  "LoadConfig env =
     (let policy = envStringWithInfoNotice env ''POLICY_FILE'' ''policy.yaml'' ''using default policy file path'';
          r =
            go_bind (required env ''UPSTREAM_MCP_URL'') (\<lambda>upstream.
            go_bind (required env ''POSTGRES_DSN'') (\<lambda>postgres.
            go_bind (required env ''REDIS_DSN'') (\<lambda>redis.
            if missing_lark env \<noteq> []
            then Fail (EMsg (''missing required environment variables: '' @ join '', '' (missing_lark env)))
            else
            go_bind (envInt env ''GATEWAY_PORT'' 8080) (\<lambda>port.
            go_bind (envDuration env ''UPSTREAM_TIMEOUT'' (30 * second)) (\<lambda>upstream_timeout.
            go_bind (envDuration env ''SESSION_TTL'' (60 * minute)) (\<lambda>session_ttl.
            go_bind (envDuration env ''SESSION_LOCK_TTL'' (60 * second)) (\<lambda>lock_ttl.
            go_bind (envDuration env ''LOCK_ACQUIRE_TIMEOUT'' (5 * second)) (\<lambda>acquire_timeout.
            go_bind (envDuration env ''APPROVAL_TIMEOUT'' (5 * minute)) (\<lambda>approval_timeout.
              Ret \<lparr>cfg_port = port, cfg_policy = fst policy, cfg_postgres = postgres, cfg_redis = redis,
                   cfg_upstream = upstream,
                   cfg_turn_header = envString env ''TURN_ID_HEADER'' ''X-Mcp-Turn-Id'',
                   cfg_upstream_timeout = upstream_timeout, cfg_session_ttl = session_ttl,
                   cfg_lock_ttl = lock_ttl, cfg_acquire_timeout = acquire_timeout,
                   cfg_approval_timeout = approval_timeout,
                   cfg_lark_app = env ''LARK_APP_ID'', cfg_lark_secret = env ''LARK_APP_SECRET'',
                   cfg_lark_chat = env ''LARK_CHAT_ID'', cfg_lark_token = env ''LARK_VERIFICATION_TOKEN'',
                   cfg_lark_url = envString env ''LARK_API_BASE_URL'' ''https://open.feishu.cn/open-apis''\<rparr>)))))))))
      in (r, if is_ret r then snd policy else []))"

section \<open>Facts\<close>

lemma Atoi_range: "Atoi s = Ret n \<Longrightarrow> int64_min \<le> n \<and> n \<le> int64_max"
  by (auto simp: Atoi_def Let_def split: option.splits list.splits if_splits)

lemma envInt_range:
  "envInt env name d = Ret n \<Longrightarrow> int64_min \<le> d \<Longrightarrow> d \<le> int64_max \<Longrightarrow> int64_min \<le> n \<and> n \<le> int64_max"
  using Atoi_range by (auto simp: envInt_def split: if_splits go.splits)

lemma envDuration_range:
  "envDuration env name d = Ret n \<Longrightarrow> int64_min \<le> d \<and> d \<le> int64_max \<Longrightarrow> int64_min \<le> n \<and> n \<le> int64_max"
  using ParseDuration_int64 by (auto simp: envDuration_def split: if_splits go.splits)

lemma envString_nonempty [simp]:
  "fallback \<noteq> [] \<Longrightarrow> envString env name fallback \<noteq> []"
  "fallback \<noteq> [] \<Longrightarrow> fst (envStringWithInfoNotice env name fallback notice) \<noteq> []"
  by (simp_all add: envString_def envStringWithInfoNotice_def)

text \<open>The variables a configuration cannot be loaded without, in the order they are looked at.\<close>

definition required_variables :: "string list" where
  "required_variables = [''UPSTREAM_MCP_URL'', ''POSTGRES_DSN'', ''REDIS_DSN''] @ lark_variables"

definition all_set :: "environment \<Rightarrow> bool" where
  "all_set env = list_all (\<lambda>name. env name \<noteq> []) required_variables"

lemma is_ret_iff: "is_ret r \<longleftrightarrow> (\<exists>x. r = Ret x)"
  by (cases r) auto

lemma is_ret_bind: "is_ret (go_bind r f) \<longleftrightarrow> (\<exists>x. r = Ret x \<and> is_ret (f x))"
  by (cases r) auto

lemma required_ret: "required env name = Ret x \<longleftrightarrow> env name \<noteq> [] \<and> x = env name"
  by (auto simp: required_def)

lemma missing_lark_Nil: "missing_lark env = [] \<longleftrightarrow> list_all (\<lambda>name. env name \<noteq> []) lark_variables"
  by (auto simp: missing_lark_def filter_empty_conv list_all_iff)

section \<open>Properties\<close>

text \<open>
  C29. A configuration is loaded exactly when the seven required variables are set and the port and
  the five durations, where set, are well formed. Nothing else is demanded: a lock TTL of zero, or a
  negative one, is loaded.
\<close>

theorem config_loaded_iff:
  "is_ret (fst (LoadConfig env)) \<longleftrightarrow>
     all_set env \<and> is_ret (envInt env ''GATEWAY_PORT'' 8080) \<and>
     list_all (\<lambda>name. is_ret (envDuration env name 0))
       [''UPSTREAM_TIMEOUT'', ''SESSION_TTL'', ''SESSION_LOCK_TTL'', ''LOCK_ACQUIRE_TIMEOUT'', ''APPROVAL_TIMEOUT'']"
proof -
  have d: "is_ret (envDuration env name 0) \<longleftrightarrow> (\<exists>x. envDuration env name d = Ret x)" for name d
    by (auto simp: envDuration_def is_ret_iff)
  show ?thesis
    by (simp add: LoadConfig_def Let_def is_ret_bind required_ret missing_lark_Nil all_set_def required_variables_def
        d [of "''UPSTREAM_TIMEOUT''" "30 * second"] d [of "''SESSION_TTL''" "60 * minute"]
        d [of "''SESSION_LOCK_TTL''" "60 * second"] d [of "''LOCK_ACQUIRE_TIMEOUT''" "5 * second"]
        d [of "''APPROVAL_TIMEOUT''" "5 * minute"] is_ret_iff [of "envInt env ''GATEWAY_PORT'' 8080"])
qed

text \<open>
  The first complaint: without all required variables the error names the first of the three
  addresses that is missing, or else all missing variables of the approval service, whatever the
  other variables are.
\<close>

theorem config_missing_variables:
  assumes "\<not> all_set env"
  shows "fst (LoadConfig env) = Fail (EMsg
    (case filter (\<lambda>name. env name = []) [''UPSTREAM_MCP_URL'', ''POSTGRES_DSN'', ''REDIS_DSN''] of
       name # _ \<Rightarrow> ''missing required environment variable '' @ name
     | [] \<Rightarrow> ''missing required environment variables: '' @
         join '', '' (filter (\<lambda>name. env name = []) lark_variables)))"
  using assms missing_lark_Nil [of env]
  by (auto simp: LoadConfig_def Let_def required_def all_set_def required_variables_def missing_lark_def)

theorem config_missing_variables_witness:
  "fst (LoadConfig (\<lambda>name. if name = ''LARK_CHAT_ID'' \<or> name = ''LARK_APP_ID'' then [] else ''x'')) =
     Fail (EMsg ''missing required environment variables: LARK_APP_ID, LARK_CHAT_ID'')"
proof -
  let ?env = "\<lambda>name. if name = ''LARK_CHAT_ID'' \<or> name = ''LARK_APP_ID'' then [] else ''x''"
  have "\<not> all_set ?env" by (simp add: all_set_def required_variables_def lark_variables_def)
  from config_missing_variables [OF this] show ?thesis by (simp add: lark_variables_def)
qed

text \<open>
  The numbers of a configuration that was loaded are in the range of \<open>int64\<close>, and what it
  keeps of the required variables is not empty.
\<close>

theorem config_values_in_range:
  assumes "fst (LoadConfig env) = Ret c"
  shows "list_all (\<lambda>n. int64_min \<le> n \<and> n \<le> int64_max)
      [cfg_port c, cfg_upstream_timeout c, cfg_session_ttl c, cfg_lock_ttl c, cfg_acquire_timeout c, cfg_approval_timeout c] \<and>
    list_all (\<lambda>s. s \<noteq> [])
      [cfg_upstream c, cfg_postgres c, cfg_redis c, cfg_policy c, cfg_turn_header c, cfg_lark_app c, cfg_lark_secret c,
       cfg_lark_chat c, cfg_lark_token c, cfg_lark_url c]"
proof -
  from assms have ml: "missing_lark env = []"
    by (simp add: LoadConfig_def Let_def go_simps split: if_splits)
  with assms have n:
    "envInt env ''GATEWAY_PORT'' 8080 = Ret (cfg_port c)"
    "envDuration env ''UPSTREAM_TIMEOUT'' (30 * second) = Ret (cfg_upstream_timeout c)"
    "envDuration env ''SESSION_TTL'' (60 * minute) = Ret (cfg_session_ttl c)"
    "envDuration env ''SESSION_LOCK_TTL'' (60 * second) = Ret (cfg_lock_ttl c)"
    "envDuration env ''LOCK_ACQUIRE_TIMEOUT'' (5 * second) = Ret (cfg_acquire_timeout c)"
    "envDuration env ''APPROVAL_TIMEOUT'' (5 * minute) = Ret (cfg_approval_timeout c)"
    and s: "cfg_upstream c = env ''UPSTREAM_MCP_URL''" "cfg_upstream c \<noteq> []"
    "cfg_postgres c \<noteq> []" "cfg_redis c \<noteq> []"
    "cfg_policy c \<noteq> []" "cfg_turn_header c \<noteq> []" "cfg_lark_url c \<noteq> []"
    "cfg_lark_app c = env ''LARK_APP_ID''" "cfg_lark_secret c = env ''LARK_APP_SECRET''"
    "cfg_lark_chat c = env ''LARK_CHAT_ID''" "cfg_lark_token c = env ''LARK_VERIFICATION_TOKEN''"
    by (auto simp: LoadConfig_def Let_def go_simps required_ret)
  have d: "int64_min \<le> 30 * second \<and> 30 * second \<le> int64_max" "int64_min \<le> 60 * minute \<and> 60 * minute \<le> int64_max"
    "int64_min \<le> 60 * second \<and> 60 * second \<le> int64_max" "int64_min \<le> 5 * second \<and> 5 * second \<le> int64_max"
    "int64_min \<le> 5 * minute \<and> 5 * minute \<le> int64_max"
    by (simp_all add: minute_def second_def int64_min_def int64_max_def)
  have p: "int64_min \<le> cfg_port c \<and> cfg_port c \<le> int64_max"
    using envInt_range [OF n(1)] by (simp add: int64_min_def int64_max_def)
  have l: "list_all (\<lambda>s. s \<noteq> []) [cfg_lark_app c, cfg_lark_secret c, cfg_lark_chat c, cfg_lark_token c]"
    using ml by (simp add: s missing_lark_Nil lark_variables_def)
  from p l s envDuration_range [OF n(2) d(1)] envDuration_range [OF n(3) d(2)] envDuration_range [OF n(4) d(3)]
    envDuration_range [OF n(5) d(4)] envDuration_range [OF n(6) d(5)]
  show ?thesis by simp
qed

definition demo_env :: environment where
  "demo_env name = (if name \<in> set required_variables then ''x'' else if name = ''SESSION_LOCK_TTL'' then ''0'' else [])"

lemma demo_env_values:
  "list_all (\<lambda>name. demo_env name = ''x'') required_variables"
  "list_all (\<lambda>name. demo_env name = [])
     [''GATEWAY_PORT'', ''UPSTREAM_TIMEOUT'', ''SESSION_TTL'', ''LOCK_ACQUIRE_TIMEOUT'', ''APPROVAL_TIMEOUT'']"
  "demo_env ''SESSION_LOCK_TTL'' = ''0''"
  by (simp_all add: demo_env_def required_variables_def lark_variables_def)

theorem config_values_in_range_witness:
  "\<exists>c. fst (LoadConfig demo_env) = Ret c \<and> cfg_lock_ttl c = 0 \<and> cfg_port c \<le> int64_max"
proof -
  have "\<exists>c. fst (LoadConfig demo_env) = Ret c \<and> cfg_lock_ttl c = 0"
    using demo_env_values by (simp add: LoadConfig_def Let_def required_def missing_lark_def required_variables_def
        lark_variables_def envInt_def envDuration_def ParseDuration_def)
  then obtain c where c: "fst (LoadConfig demo_env) = Ret c" "cfg_lock_ttl c = 0" by blast
  from config_values_in_range [OF c(1)] c show ?thesis by auto
qed

text \<open>
  A duration in the environment is read as it is meant: a whole number with one of the units of Go is
  that many of them, whatever the default, as long as the nanoseconds fit \<open>int64\<close>; zero and negative
  durations are accepted too.
\<close>

theorem duration_variable_roundtrip:
  assumes "env name = itoa n @ u" and "map_of unit_map u = Some k" and "n * int k \<in> {int64_min..int64_max}"
  shows "envDuration env name fallback = Ret (n * int k)"
proof -
  have "itoa n \<noteq> []" by (simp add: itoa_def)
  with duration_roundtrip [OF assms(2,3)] assms(1) show ?thesis by (simp add: envDuration_def)
qed

theorem duration_variable_roundtrip_witness:
  "envDuration (\<lambda>_. itoa (-90) @ ''m'') ''SESSION_LOCK_TTL'' (60 * second) = Ret (-5400000000000)"
  using duration_variable_roundtrip [of "\<lambda>_. itoa (-90) @ ''m''" "''SESSION_LOCK_TTL''" "-90" "''m''" 60000000000]
  by (simp add: unit_map_def int64_min_def int64_max_def)

end
