(* ===== verification/Gateway.thy ===== *)
theory Gateway
  imports Approval_Flow Server Config
begin

text \<open>
  \<open>cmd/gateway/main.go\<close>: the gateway put together. The state \<open>gateway\<close> holds what the parts act
  on: the budgets, the history of the audit writer, the ticket store, Redis (\<open>'k\<close>), the forwarder
  with the network behind it (\<open>'n\<close>), the log, the random bytes to come, what the approval waits to
  come will receive, and the notifications that were started.
\<close>

record ('k, 'n) gateway =
  gw_budget :: budget
  gw_audit :: "audit_event list"
  gw_tickets :: ticket_store
  gw_redis :: 'k
  gw_forwarder :: forwarder
  gw_net :: 'n
  gw_log :: "log_entry list"
  gw_rand :: "8 word list go list"
  gw_signals :: "bridge_event list list"
  gw_notes :: "(string \<times> ticket_record) list"
  gw_clock :: int

record ('k, 'n) gateway_deps =
  gd_policy :: agent_policy
  gd_redis :: "'k redis"
  gd_locker :: session_locker
  gd_rwlock :: turn_rwlock
  gd_approval_timeout :: int
  gd_transport :: "'n transport"

section \<open>The parts on the gateway's state\<close>

definition gw_emit :: "log_entry \<Rightarrow> ('k, 'n) gateway \<Rightarrow> ('k, 'n) gateway" where
  "gw_emit x w = w\<lparr>gw_log := gw_log w @ [x]\<rparr>"

definition gw_write_audit :: "audit_record \<Rightarrow> ('k, 'n) gateway \<Rightarrow> ('k, 'n) gateway" where
  "gw_write_audit x w = w\<lparr>gw_audit := gw_audit w @ [AuWrite x]\<rparr>"

definition gw_audits :: "('k, 'n) gateway \<Rightarrow> audit_record list" where
  "gw_audits w = written (gw_audit w)"

definition gw_next_rand :: "('k, 'n) gateway \<Rightarrow> 8 word list go \<times> ('k, 'n) gateway" where
  "gw_next_rand w =
     (case gw_rand w of
        [] \<Rightarrow> (Fail (EMsg ''entropy''), w)
      | b # r \<Rightarrow> (b, w\<lparr>gw_rand := r\<rparr>))"

definition gw_on_redis :: "('k \<Rightarrow> 'a \<times> 'k) \<Rightarrow> ('k, 'n) gateway \<Rightarrow> 'a \<times> ('k, 'n) gateway" where
  "gw_on_redis f w = (case f (gw_redis w) of (x, k1) \<Rightarrow> (x, w\<lparr>gw_redis := k1\<rparr>))"

text \<open>A lock operation that does not return (\<open>None\<close>) does not occur with the fuel chosen, see
  the termination of the lock operations; the model makes it a panic.\<close>

definition returned :: "('a go \<times> 'k) option \<Rightarrow> 'k \<Rightarrow> 'a go \<times> 'k" where
  "returned x k = (case x of Some y \<Rightarrow> y | None \<Rightarrow> (Panic ''no return'', k))"

definition gw_bridge :: "('k, 'n) gateway_deps \<Rightarrow> ('k, 'n) gateway bridge_env" where
  "gw_bridge D =
     NewRedisApprovalBridge
       (\<lambda>i st b w. case ts_update_status i st b (gw_tickets w) of (e, s1) \<Rightarrow> (e, w\<lparr>gw_tickets := s1\<rparr>))
       (\<lambda>c sid tid. gw_on_redis (sl_Extend (gd_redis D) (gd_locker D) c sid tid))
       gw_emit (sl_ttl (gd_locker D)) (gd_approval_timeout D)"

text \<open>A wait receives the events that are next in \<open>gw_signals\<close>; its timer ends it if they do not.\<close>

definition gw_wait :: "('k, 'n) gateway_deps \<Rightarrow> ctx \<Rightarrow> string \<Rightarrow> string \<Rightarrow> string \<Rightarrow> ('k, 'n) gateway \<Rightarrow>
    approval_decision go \<times> ('k, 'n) gateway" where
  "gw_wait D c ticket sid tid w =
     (let evs = (case gw_signals w of [] \<Rightarrow> [] | e # r \<Rightarrow> e);
          w1 = w\<lparr>gw_signals := tl (gw_signals w)\<rparr>
      in returned (WaitForDecision (gw_bridge D) c ticket sid tid (evs @ [BrTimeout]) w1) w1)"

definition gw_gate :: "('k, 'n) gateway_deps \<Rightarrow> ('k, 'n) gateway gate_env" where
  "gw_gate D =
     NewPolicyGateHandler
       (\<lambda>s t w. case IncrementAndGet s t (gw_budget w) of (n, b) \<Rightarrow> (n, w\<lparr>gw_budget := b\<rparr>))
       gw_write_audit
       (\<lambda>r w. case ts_insert r (gw_tickets w) of (x, s) \<Rightarrow> (x, w\<lparr>gw_tickets := s\<rparr>))
       (gw_wait D)
       (\<lambda>i r w. w\<lparr>gw_notes := gw_notes w @ [(i, r)]\<rparr>)
       (Some gw_emit) gw_emit gw_clock"

definition gw_guard :: "('k, 'n) gateway_deps \<Rightarrow> ('k, 'n) gateway guard_env" where
  "gw_guard D =
     \<lparr>gu_acquire = (\<lambda>c s t. gw_on_redis (\<lambda>k. returned (sl_Acquire (gd_redis D) (gd_locker D) c s t k) k)),
      gu_release = (\<lambda>c s t. gw_on_redis (sl_Release (gd_redis D) c s t)),
      gu_read_lock = (\<lambda>c t. gw_on_redis (\<lambda>k. returned (rw_ReadLock (gd_redis D) (gd_rwlock D) c t k) k)),
      gu_read_unlock = (\<lambda>c t. gw_on_redis (rw_ReadUnlock (gd_redis D) c t)),
      gu_write_lock = (\<lambda>c t w. case gw_next_rand w of (b, w1) \<Rightarrow>
         gw_on_redis (\<lambda>k. returned (rw_WriteLock (gd_redis D) (gd_rwlock D) b c t k) k) w1),
      gu_write_unlock = (\<lambda>c t token. gw_on_redis (rw_WriteUnlock (gd_redis D) c t token)),
      gu_classifier = Some (NewOperationClassifier (pol_classes (gd_policy D)))\<rparr>"

definition gw_forward :: "('k, 'n) gateway_deps \<Rightarrow> ('k, 'n) gateway handler" where
  "gw_forward D c r w =
     (case forwarder_Handle (gd_transport D) (gw_forwarder w) r (gw_net w) of
        (out, f1, n1) \<Rightarrow> (out, r, w\<lparr>gw_forwarder := f1, gw_net := n1\<rparr>))"

text \<open>The pipeline in the order of its registrations in \<open>buildGatewayServer\<close>.\<close>

definition gw_pipeline :: "('k, 'n) gateway_deps \<Rightarrow> ('k, 'n) gateway pipeline" where
  "gw_pipeline D =
     pl_use (pl_use (pl_use \<lparr>pl_handlers = [], pl_terminal = gw_forward D\<rparr>
       (RequestLogger_Handle gw_emit)) ContextInjector_Handle) (gate_handle (gw_gate D) (gd_policy D))"

definition gw_server :: "('k, 'n) gateway_deps \<Rightarrow> ('k, 'n) gateway server_env" where
  "gw_server D =
     \<lparr>sv_pipeline = Some (gw_pipeline D), sv_guard = Some (gw_guard D), sv_forwarder = Some (gw_forward D),
      sv_audit = Some gw_write_audit, sv_log = gw_emit, sv_rand = gw_next_rand, sv_now = gw_clock\<rparr>"

section \<open>Start\<close>

text \<open>The order of the start, with the first failure ending it. Opening the policy file and decoding it,
  the connections to Redis and Postgres and the migration are parameters; resources opened before a
  failure are closed (the second component).\<close>

datatype resource = ResRedis | ResPool

record ('k, 'n) platform =
  pf_open :: "string \<Rightarrow> goerr option"
  pf_yaml :: "string \<Rightarrow> agent_policy go"
  pf_redis :: "config \<Rightarrow> 'k redis go"
  pf_pool :: "string \<Rightarrow> unit go"
  pf_migrate :: "goerr option"
  pf_transport :: "int \<Rightarrow> 'n transport"

definition buildGatewayServer ::
  "('k, 'n) platform \<Rightarrow> config \<Rightarrow> (('k, 'n) gateway_deps \<times> forwarder) go \<times> resource list" where
  "buildGatewayServer P cfg =
     (case LoadPolicy (pf_open P) (pf_yaml P) (cfg_policy cfg) of
        Panic m \<Rightarrow> (Panic m, [])
      | Fail e \<Rightarrow> (Fail (EWrap ''policy load failed'' e), [])
      | Ret p \<Rightarrow>
          (case pf_redis P cfg of
             Panic m \<Rightarrow> (Panic m, [])
           | Fail e \<Rightarrow> (Fail (EWrap ''redis initialization failed'' e), [])
           | Ret R \<Rightarrow>
               (case pf_pool P (cfg_postgres cfg) of
                  Panic m \<Rightarrow> (Panic m, [])
                | Fail e \<Rightarrow> (Fail (EWrap ''postgres initialization failed'' e), [ResRedis])
                | Ret _ \<Rightarrow>
                    (case pf_migrate P of
                       Some e \<Rightarrow> (Fail (EWrap ''schema migration failed'' e), [ResRedis, ResPool])
                     | None \<Rightarrow>
                         (Ret (\<lparr>gd_policy = p, gd_redis = R,
                                gd_locker = NewSessionLocker (cfg_lock_ttl cfg) (cfg_acquire_timeout cfg),
                                gd_rwlock = NewTurnRWLock (cfg_lock_ttl cfg) (cfg_acquire_timeout cfg),
                                gd_approval_timeout = cfg_approval_timeout cfg,
                                gd_transport = pf_transport P (cfg_upstream_timeout cfg)\<rparr>,
                               NewUpstreamForwarder (cfg_upstream cfg)), [])))))"

text \<open>\<open>runGateway\<close>: the exit code, what was printed to \<open>stderr\<close> (\<open>log.Fatalf\<close> prints there and exits
  with 1) and the resources closed. \<open>ListenAndServe\<close> is a parameter, with its error.\<close>

definition runGateway ::
  "('k, 'n) platform \<Rightarrow> (('k, 'n) gateway_deps \<Rightarrow> int \<Rightarrow> goerr option) \<Rightarrow> environment \<Rightarrow>
   int go \<times> string list \<times> resource list" where
  "runGateway P listen env =
     (case fst (LoadConfig env) of
        Panic m \<Rightarrow> (Panic m, [], [])
      | Fail e \<Rightarrow> (Ret 1, [err_text e], [])
      | Ret cfg \<Rightarrow>
          (case buildGatewayServer P cfg of
             (Panic m, rs) \<Rightarrow> (Panic m, [], rs)
           | (Fail e, rs) \<Rightarrow> (Ret 1, [err_text e], rs)
           | (Ret (D, f), rs) \<Rightarrow>
               (case listen D (cfg_port cfg) of
                  Some e \<Rightarrow> (Ret 1, [err_text e], rs @ [ResRedis, ResPool])
                | None \<Rightarrow> (Ret 0, [], rs @ [ResRedis, ResPool]))))"

lemma built_policy_valid: "buildGatewayServer P cfg = (Ret (D, f), rs) \<Longrightarrow> validatePolicy (gd_policy D) = None"
  by (auto simp: buildGatewayServer_def LoadPolicy_def split: go.splits option.splits)

section \<open>The audit log of the gateway\<close>

lemma written_append: "written (a @ b) = written a @ written b"
  by (induction a rule: written.induct) auto

lemma gw_audits_write [simp]: "gw_audits (gw_write_audit x w) = gw_audits w @ [x]"
  by (simp add: gw_audits_def gw_write_audit_def written_append)

text \<open>What the approval wait and the gate leave alone.\<close>

definition gw_same :: "('k, 'n) gateway \<Rightarrow> ('k, 'n) gateway \<Rightarrow> bool" where
  "gw_same w v = (gw_audit v = gw_audit w \<and> gw_net v = gw_net w \<and> gw_forwarder v = gw_forwarder w)"

definition gw_unsent :: "('k, 'n) gateway \<Rightarrow> ('k, 'n) gateway \<Rightarrow> bool" where
  "gw_unsent w v = (gw_net v = gw_net w \<and> gw_forwarder v = gw_forwarder w)"

lemma gw_same_refl [simp]: "gw_same w w"
  by (simp add: gw_same_def)

lemma gw_bridge_simps:
  "be_update (gw_bridge D) i st b w =
     (case ts_update_status i st b (gw_tickets w) of (e, s1) \<Rightarrow> (e, w\<lparr>gw_tickets := s1\<rparr>))"
  "be_extend (gw_bridge D) c s t = gw_on_redis (sl_Extend (gd_redis D) (gd_locker D) c s t)"
  "be_log (gw_bridge D) = gw_emit"
  by (simp_all add: gw_bridge_def NewRedisApprovalBridge_def)

interpretation waits: bridge_frame "gw_bridge D" "gw_same w"
  by unfold_locales
    (auto simp: gw_bridge_simps gw_same_def gw_on_redis_def gw_emit_def split: prod.splits)

lemma gw_wait_same:
  assumes "gw_wait D c i s t w = (out, w')"
  shows "gw_same w w'"
proof -
  define w1 where "w1 = w\<lparr>gw_signals := tl (gw_signals w)\<rparr>"
  have w1: "gw_same w w1" by (simp add: w1_def gw_same_def)
  obtain evs where "returned (WaitForDecision (gw_bridge D) c i s t evs w1) w1 = (out, w')"
    using assms by (auto simp: gw_wait_def Let_def w1_def)
  then show ?thesis
    using waits.WaitForDecision_frame [OF _ w1] w1
    by (auto simp: returned_def split: option.splits)
qed

lemma gw_gate_simps [simp]:
  "ge_incr (gw_gate D) s t w = (case IncrementAndGet s t (gw_budget w) of (n, b) \<Rightarrow> (n, w\<lparr>gw_budget := b\<rparr>))"
  "ge_audit (gw_gate D) = gw_write_audit" "ge_log (gw_gate D) = gw_emit" "ge_eval (gw_gate D) = Evaluate"
  "ge_insert (gw_gate D) r w = (case ts_insert r (gw_tickets w) of (x, z) \<Rightarrow> (x, w\<lparr>gw_tickets := z\<rparr>))"
  "ge_wait (gw_gate D) = gw_wait D"
  "ge_notify (gw_gate D) i r w = w\<lparr>gw_notes := gw_notes w @ [(i, r)]\<rparr>"
  "ge_now (gw_gate D) = gw_clock"
  by (simp_all add: gw_gate_def NewPolicyGateHandler_def newPolicyGateHandler_def defaultPolicyEvaluator_def)

interpretation gate: gate_world "gw_gate D" gw_audits
proof unfold_locales
  show "gw_audits (snd (ge_wait (gw_gate D) c i s t w)) = gw_audits w" for c i s t w
    using gw_wait_same [of D c i s t w] by (cases "gw_wait D c i s t w") (simp add: gw_same_def gw_audits_def)
qed (simp_all add: gw_audits_def gw_emit_def gw_write_audit_def written_append split: prod.splits)

interpretation gate: gate_frame "gw_gate D" "gw_unsent w"
  by unfold_locales
    (auto simp: gw_unsent_def gw_emit_def gw_write_audit_def gw_same_def split: prod.splits dest!: gw_wait_same)

section \<open>A call through the pipeline\<close>

definition injected :: "ctx \<Rightarrow> rpc_request \<Rightarrow> raw go" where
  "injected c r = injectContextMeta (req_params r) (SessionIDFromContext c) (TurnIDFromContext c)"

lemma gw_run:
  "pl_run (gw_pipeline D) c r w =
     run_chain [ContextInjector_Handle, gate_handle (gw_gate D) (gd_policy D)] (gw_forward D) c r
       (gw_emit (LevelInfo, ''mcp request'', log_attrs c r) w)"
  by (simp add: pl_run_def gw_pipeline_def pl_use_def RequestLogger_Handle_def)

text \<open>A call ends in the injector, in the gate or in the forwarder.\<close>

lemma gw_run_cases:
  assumes "pl_run (gw_pipeline D) c r w = (out, r', w')" "req_method r = ''tools/call''"
    and "w1 = gw_emit (LevelInfo, ''mcp request'', log_attrs c r) w"
  obtains (injector) "out \<noteq> Ret None" "r' = r" "w' = w1"
  | (gate) p1 where "injected c r = Ret p1"
      "gate_handle (gw_gate D) (gd_policy D) c (r\<lparr>req_params := p1\<rparr>) w1 = (out, r', w')" "out \<noteq> Ret None"
  | (forwarded) p1 w2 where "injected c r = Ret p1"
      "gate_handle (gw_gate D) (gd_policy D) c (r\<lparr>req_params := p1\<rparr>) w1 = (Ret None, r', w2)"
      "gw_forward D c r' w2 = (out, r', w')"
proof (cases "injected c r")
  case (Ret p1)
  obtain o2 r2 w2 where g: "gate_handle (gw_gate D) (gd_policy D) c (r\<lparr>req_params := p1\<rparr>) w1 = (o2, r2, w2)"
    by (metis prod.exhaust)
  show thesis
  proof (cases "o2 = Ret None")
    case True
    with Ret g assms have "gw_forward D c r2 w2 = (out, r', w')"
      by (simp add: gw_run ContextInjector_Handle_def injected_def)
    moreover from this have "r' = r2" by (simp add: gw_forward_def split: prod.splits)
    ultimately show thesis using forwarded Ret g True by simp
  next
    case False
    with run_chain_halt [where h = "gate_handle (gw_gate D) (gd_policy D)" and c = c and w = w1
        and r = "r\<lparr>req_params := p1\<rparr>" and out = o2 and r' = r2 and w' = w2 and hs = "[]" and t = "gw_forward D"]
      g assms Ret have "(o2, r2, w2) = (out, r', w')"
      by (simp add: gw_run ContextInjector_Handle_def injected_def)
    with gate Ret g False show thesis by simp
  qed
qed (use assms injector in \<open>auto simp: gw_run ContextInjector_Handle_def injected_def\<close>)

text \<open>An approval that lets a call through was received on the channel of its ticket.\<close>

definition approval_received :: "('k, 'n) gateway \<Rightarrow> bool" where
  "approval_received w = (\<exists>evs rest. gw_signals w = evs # rest \<and> BrMessage ''approved'' \<in> set evs)"

lemma gw_wait_approved:
  assumes "gw_wait D c i s t w = (Ret a, w')" "ad_approved a"
  shows "approval_received w"
proof -
  define evs where "evs = (case gw_signals w of [] \<Rightarrow> [] | e # r \<Rightarrow> e)"
  define w1 where "w1 = w\<lparr>gw_signals := tl (gw_signals w)\<rparr>"
  from assms have "WaitForDecision (gw_bridge D) c i s t (evs @ [BrTimeout]) w1 = Some (Ret a, w')"
    by (simp add: gw_wait_def Let_def evs_def w1_def returned_def split: option.splits)
  then have "map_option fst (wait_loop (gw_bridge D) c i s t (evs @ [BrTimeout]) w1) = Some (Ret a)"
    by (simp add: WaitForDecision_def split: if_splits)
  then obtain ev where ev: "find (\<lambda>ev. \<not> passing ev) (evs @ [BrTimeout]) = Some ev" "verdict c i ev = Ret a"
    by (auto simp: wait_loop_result)
  from ev(2) assms(2) have "ev = BrMessage ''approved''" by (cases ev) auto
  moreover from ev(1) have "ev \<in> set (evs @ [BrTimeout])" unfolding find_Some_iff by (metis nth_mem)
  ultimately have "BrMessage ''approved'' \<in> set evs" by simp
  then show ?thesis by (cases "gw_signals w") (simp_all add: approval_received_def evs_def)
qed

lemma gate_approval_received:
  assumes "gate_approval (gw_gate D) tool args c r w = (Ret None, r', w')"
  shows "approval_received w"
proof -
  obtain t w1 where t: "gate_ticket (gw_gate D) c tool args w = (t, w1)"
    by (cases "gate_ticket (gw_gate D) c tool args w")
  then have s: "gw_signals w1 = gw_signals w"
    by (auto simp: gate_ticket_def gw_emit_def split: prod.splits go.splits)
  from assms t obtain ticket where t': "t = Ret ticket" by (cases t) (simp_all add: gate_approval_def)
  obtain d w3 where d: "gw_wait D c ticket (SessionIDFromContext c) (TurnIDFromContext c)
      (w1\<lparr>gw_notes := gw_notes w1 @ [(ticket, \<lparr>tr_session = SessionIDFromContext c, tr_turn = TurnIDFromContext c,
         tr_tool = tool, tr_args = args, tr_expires = 0\<rparr>)]\<rparr>) = (d, w3)"
    by (meson surj_pair)
  with assms t t' obtain a where a: "d = Ret a" "ad_approved a"
    by (cases d) (auto simp: gate_approval_def Let_def split: if_splits)
  from gw_wait_approved [OF d [unfolded a(1)] a(2)] s show ?thesis
    by (simp add: approval_received_def)
qed

text \<open>What the gate permits in the gateway: the decision and the audit record it leaves.\<close>

definition permitted :: "agent_policy \<Rightarrow> ctx \<Rightarrow> rpc_request \<Rightarrow> ('k, 'n) gateway \<Rightarrow> rpc_request \<Rightarrow> audit_record list \<Rightarrow> bool" where
  "permitted p c r w r' recs =
     (\<exists>tool args d. parseToolCallParams (req_params r) = Ret (tool, args) \<and>
        fst (IncrementAndGet (SessionIDFromContext c) (TurnIDFromContext c) (gw_budget w)) \<le> pol_max_calls p \<and>
        Evaluate p tool args = Ret d \<and>
        (dec_action d = ActionAllow \<and> r' = r \<and> recs = [gate_record c tool args ''allow'' []] \<or>
         dec_action d = ActionRedact \<and>
           r' = r\<lparr>req_params := Some (encode_tool_params tool (redactArguments args (dec_redact d)))\<rparr> \<and>
           recs = [gate_record c tool (redactArguments args (dec_redact d)) ''allow'' []] \<or>
         dec_action d = ActionApprovalRequired \<and> r' = r \<and> approval_received w \<and>
           recs = [gate_record c tool args ''approvalRequired'' []]))"

lemma gw_gate_permits:
  assumes "gate_handle (gw_gate D) p c r w = (Ret None, r', w')" "req_method r = ''tools/call''"
  shows "\<exists>recs. permitted p c r w r' recs \<and> gw_audits w' = gw_audits w @ recs"
  using assms
proof (cases rule: gate_handle_call)
  case (call tool args)
  obtain n w1 where i: "ge_incr (gw_gate D) (SessionIDFromContext c) (TurnIDFromContext c) w = (n, w1)"
    by (cases "ge_incr (gw_gate D) (SessionIDFromContext c) (TurnIDFromContext c) w")
  then have n: "n = fst (IncrementAndGet (SessionIDFromContext c) (TurnIDFromContext c) (gw_budget w))"
      "gw_signals w1 = gw_signals w"
    by (auto split: prod.splits)
  from call(2) i show ?thesis
  proof (cases rule: gate_call_cases)
    case (decide d)
    from decide(3) have a: "isRuleAction (dec_action d)"
      by (cases rule: gate_decide_cases) (auto simp: isRuleAction_def)
    from gate.handle_audits [OF assms call(1) i decide(2) a] decide(1) have
      au: "gw_audits w' = gw_audits w @ (if dec_action d = ActionRedact
         then [gate_record c tool (redactArguments args (dec_redact d)) ''allow'' []]
         else [gate_record c tool args (dec_action d) []])" by simp
    from decide(3) show ?thesis
    proof (cases rule: gate_decide_cases)
      case approval
      from gate_approval_received [OF approval(2)] n(2) have "approval_received w"
        by (simp add: approval_received_def logDecision_def gw_emit_def gw_write_audit_def)
      with approval gate_approval_Ret_None [OF approval(2)] decide call n au show ?thesis
        by (auto simp: permitted_def)
    qed (use decide call n au in \<open>auto simp: permitted_def\<close>)
  qed auto
qed auto

section \<open>The records of a call\<close>

lemma audit_row_ok_record:
  "audit_row_ok (gate_record c tool args a reason) \<longleftrightarrow> args \<noteq> None \<and> a \<in> set audit_decisions"
  by (simp add: audit_row_ok_def gate_record_def)

lemma redact_some: "args \<noteq> None \<Longrightarrow> redactArguments args fs \<noteq> None"
  by (auto simp: redactArguments_def split: prod.splits option.splits bool.splits)

lemma rule_action_audited:
  "isRuleAction a \<Longrightarrow> a \<noteq> ActionRedact \<Longrightarrow> a \<in> set audit_decisions"
  by (auto simp: isRuleAction_def audit_decisions_def)

lemma gw_gate_rows:
  assumes "gate_handle (gw_gate D) p c r w = (out, r', w')" and "validatePolicy p = None"
    and "list_all audit_row_ok (gw_audits w)"
  shows "list_all audit_row_ok (gw_audits w')"
proof (cases "req_method r = ''tools/call''")
  case True
  from assms(1) True show ?thesis
  proof (cases rule: gate_handle_call)
    case (call tool args)
    from parseToolCallParams_Ret [OF call(1)] have args: "args \<noteq> None" by blast
    obtain n w1 where i: "ge_incr (gw_gate D) (SessionIDFromContext c) (TurnIDFromContext c) w = (n, w1)"
      by (cases "ge_incr (gw_gate D) (SessionIDFromContext c) (TurnIDFromContext c) w")
    with gate.incr_audits [of D "SessionIDFromContext c" "TurnIDFromContext c" w] have w1: "gw_audits w1 = gw_audits w" by simp
    from call(2) i show ?thesis
    proof (cases rule: gate_call_cases)
      case budget
      with args assms(3) w1 show ?thesis
        by (simp add: gate.audit_appends del: gw_gate_simps) (simp add: audit_row_ok_record audit_decisions_def)
    next
      case (decide d)
      from assms(2) have "isRuleAction (pol_default p)" "\<forall>r \<in> set (pol_rules p). isRuleAction (rule_action r)"
        by (auto simp: policy_simps isRuleAction_def)
      with decide(2) evaluate_rules_action have a: "isRuleAction (dec_action d)"
        by (auto simp: Evaluate_def)
      from gate.decide_audits [OF decide(3) a] args assms(3) w1 a show ?thesis
        by (simp add: audit_row_ok_record redact_some rule_action_audited) (simp add: audit_decisions_def)
    qed (use assms(3) w1 in simp_all)
  qed (use assms(3) in simp_all)
next
  case False
  with assms show ?thesis by (simp add: gate_handle_def)
qed

section \<open>Properties\<close>

text \<open>
  Mediation by the gateway: if anything was sent upstream for a \<open>tools/call\<close>, then after the
  ids were added the call was within budget and the policy allowed it, or redacted it, or required an
  approval and \<open>approved\<close> came in on the ticket's channel; what was sent is the request the gate
  passed on and at most an \<open>initialize\<close> for it, and the audit log got exactly the record of the
  decision.
\<close>

theorem gateway_mediates_calls:
  assumes "pl_run (gw_pipeline D) c r w = (out, r', w')" and "req_method r = ''tools/call''"
    and "gd_transport D = logged T" and "gw_net w' \<noteq> gw_net w"
  shows "\<exists>p1 recs sent. injected c r = Ret p1 \<and>
    permitted (gd_policy D) c (r\<lparr>req_params := p1\<rparr>) w r' recs \<and>
    gw_audits w' = gw_audits w @ recs \<and> fst (gw_net w') = fst (gw_net w) @ sent \<and> sent_for r' sent"
proof -
  define w1 where "w1 = gw_emit (LevelInfo, ''mcp request'', log_attrs c r) w"
  have w1: "gw_net w1 = gw_net w" "gw_audits w1 = gw_audits w" "\<And>p r recs. permitted p c r w1 r' recs = permitted p c r w r' recs"
    by (simp_all add: w1_def gw_emit_def gw_audits_def permitted_def approval_received_def)
  from assms(1,2) w1_def show ?thesis
  proof (cases rule: gw_run_cases)
    case (gate p1)
    from gate.handle_frame [OF _ gate(2), of w1] have "gw_net w' = gw_net w1"
      by (simp add: gw_unsent_def)
    with assms(4) w1 show ?thesis by simp
  next
    case (forwarded p1 w2)
    from gate.handle_frame [OF _ forwarded(2), of w1] have n: "gw_net w2 = gw_net w"
      by (simp add: gw_unsent_def w1)
    from gw_gate_permits [OF forwarded(2)] assms(2) w1 obtain recs where
      p: "permitted (gd_policy D) c (r\<lparr>req_params := p1\<rparr>) w r' recs" "gw_audits w2 = gw_audits w @ recs" by auto
    obtain l1 m1 l2 m2 where l: "gw_net w2 = (l1, m1)" "gw_net w' = (l2, m2)" by fastforce
    from forwarded(3) assms(3) l obtain f' where
      "forwarder_Handle (logged T) (gw_forwarder w2) r' (l1, m1) = (out, f', (l2, m2))" "gw_audits w' = gw_audits w2"
      by (auto simp: gw_forward_def gw_audits_def split: prod.splits)
    with forwarder_sends [of T "gw_forwarder w2" r' l1 m1 out f' l2 m2] l n p forwarded(1) show ?thesis by auto
  qed (use assms(4) w1 in simp)
qed


text \<open>The members the two examples below send, and what the injector makes of them.\<close>

definition twin_names :: "string \<Rightarrow> string \<Rightarrow> json" where
  "twin_names a b = JObj [(''name'', JStr a), (''Name'', JStr b)]"

text \<open>\<open>arguments\<close> with U+017F for its last letter: another key, but Go's decoder folds it to the same
  field.\<close>

definition long_s_arguments :: string where
  "long_s_arguments = ''argument'' @ [CHR 0xC5, CHR 0xBF]"

definition twin_arguments :: "string \<Rightarrow> json \<Rightarrow> json \<Rightarrow> json" where
  "twin_arguments tool a b =
     JObj [(''name'', JStr tool), (''arguments'', a), (long_s_arguments, b)]"

definition new_meta :: "ctx \<Rightarrow> json" where
  "new_meta c = JObj [(''sessionId'', JStr (SessionIDFromContext c)), (''turnId'', JStr (TurnIDFromContext c))]"

lemma twin_injected:
  "req_params r = Some (twin_names a b) \<Longrightarrow> injected c r =
     Ret (Some (JObj [(''Name'', JStr b), (''_meta'', new_meta c), (''name'', JStr a)]))"
  "req_params r = Some (twin_arguments tool x y) \<Longrightarrow> injected c r =
     Ret (Some (JObj [(''_meta'', new_meta c), (''arguments'', x), (long_s_arguments, y), (''name'', JStr tool)]))"
  by (simp_all add: injected_def twin_names_def twin_arguments_def new_meta_def long_s_arguments_def
      injectContextMeta_def unmarshal_map_raw_def
      meta_of_def nil_lookup_def nil_put_def marshal_map_raw_def)

lemma twin_keys:
  "key_is ''name'' ''Name''" "key_is ''name'' ''name''" "\<not> key_is ''name'' ''_meta''" "\<not> key_is ''arguments'' ''_meta''"
  "\<not> key_is ''name'' ''arguments''" "key_is ''arguments'' ''arguments''"
  "\<not> key_is ''name'' long_s_arguments"
  "key_is ''arguments'' long_s_arguments"
  by code_simp+

lemma twin_parse:
  "a \<noteq> [] \<Longrightarrow> parseToolCallParams (Some (JObj [(''Name'', JStr b), (''_meta'', m), (''name'', JStr a)])) = Ret (a, Some JNull)"
  "parseToolCallParams (Some (twin_names a [])) = Fail (EMsg ''decode params: missing name'')"
  "tool \<noteq> [] \<Longrightarrow> parseToolCallParams (Some (JObj [(''_meta'', m), (''arguments'', x),
     (long_s_arguments, y), (''name'', JStr tool)])) = Ret (tool, Some y)"
  by (simp_all add: parseToolCallParams_def unmarshal_struct_def decode_struct_def twin_names_def tool_field_def
      twin_keys decode_str_def)

lemma forward_first:
  assumes "\<And>u. tr_build T u = None" "gw_net w = (l, n)" "gd_transport D = logged T"
  obtains out w' x rest where "gw_forward D c r w = (out, r, w')" "gw_audits w' = gw_audits w"
    "fst (gw_net w') = l @ (upstream_request (gw_forwarder w) r, x) # rest"
proof -
  obtain o1 f1 l1 n1 where 1: "doRequest (logged T) (gw_forwarder w) r (l, n) = (o1, f1, (l1, n1))"
    by (metis prod.exhaust)
  then obtain x where l1: "l1 = l @ [(upstream_request (gw_forwarder w) r, x)]"
    by (cases rule: doRequest_logged) (use assms(1) 1 in \<open>auto simp: doRequest_def logged_def split: prod.splits go.splits\<close>)
  obtain o2 f2 l2 n2 where 2: "doRequest (logged T) f1 (reinit_request r) (l1, n1) = (o2, f2, (l2, n2))"
    by (metis prod.exhaust)
  obtain o3 f3 l3 n3 where 3: "doRequest (logged T) f2 r (l2, n2) = (o3, f3, (l3, n3))"
    by (metis prod.exhaust)
  from doRequest_sends [OF 2] doRequest_sends [OF 3] obtain y z where s: "l2 = l1 @ y" "l3 = l2 @ z" by blast
  obtain out f' l' n' where h: "forwarder_Handle (logged T) (gw_forwarder w) r (l, n) = (out, f', (l', n'))"
    by (metis prod.exhaust)
  with 1 2 3 have "l' = l1 \<or> l' = l2 \<or> l' = l3"
    by (auto simp: forwarder_Handle_def revalidateSession_def split: go.splits prod.splits if_splits)
  with s l1 obtain rest where "l' = l @ (upstream_request (gw_forwarder w) r, x) # rest" by auto
  with h assms(2,3) show thesis
    by (intro that [of out "w\<lparr>gw_forwarder := f', gw_net := (l', n')\<rparr>" x rest])
      (simp_all add: gw_forward_def gw_audits_def)
qed

lemma gw_allows:
  assumes "req_method r = ''tools/call''" and "injected c r = Ret p1"
    and "parseToolCallParams p1 = Ret (tool, args)"
    and "fst (IncrementAndGet (SessionIDFromContext c) (TurnIDFromContext c) (gw_budget w)) \<le> pol_max_calls (gd_policy D)"
    and "Evaluate (gd_policy D) tool args = Ret d" "dec_action d = ActionAllow"
  obtains w2 where "pl_run (gw_pipeline D) c r w = gw_forward D c (r\<lparr>req_params := p1\<rparr>) w2"
    "gw_audits w2 = gw_audits w @ [gate_record c tool args ''allow'' []]" "gw_net w2 = gw_net w"
    "gw_forwarder w2 = gw_forwarder w"
proof -
  define w1 where "w1 = gw_emit (LevelInfo, ''mcp request'', log_attrs c r) w"
  then have w1: "gw_budget w1 = gw_budget w" by (simp add: gw_emit_def)
  obtain n b where i: "IncrementAndGet (SessionIDFromContext c) (TurnIDFromContext c) (gw_budget w) = (n, b)"
    by (metis prod.exhaust)
  define w2 where "w2 = logDecision (gw_gate D) c ''allow'' tool
      (gw_write_audit (gate_record c tool args ''allow'' []) (w1\<lparr>gw_budget := b\<rparr>))"
  have "gate_handle (gw_gate D) (gd_policy D) c (r\<lparr>req_params := p1\<rparr>) w1 = (Ret None, r\<lparr>req_params := p1\<rparr>, w2)"
    using assms i w1 by (simp add: gate_handle_def gate_call_def gate_decide_def w2_def Let_def)
  with assms(1,2) have "pl_run (gw_pipeline D) c r w = gw_forward D c (r\<lparr>req_params := p1\<rparr>) w2"
    by (simp add: gw_run ContextInjector_Handle_def injected_def w1_def)
  then show thesis
    by (rule that) (simp_all add: w2_def w1_def logDecision_def gw_emit_def gw_write_audit_def gw_audits_def
        written_append)
qed

lemma runPipeline_unguarded:
  "sv_guard V = Some U \<Longrightarrow> runPipeline V p sid [] c r w =
     (case pl_run p c r w of (out, r1, w1) \<Rightarrow> (recovered out, r1, w1))"
  by (simp add: runPipeline_def guard_Execute_def run_on_def split: prod.splits)

lemma calls_unguarded:
  "call_failed (V\<lparr>sv_guard := g\<rparr>) = call_failed V" "call_answered (V\<lparr>sv_guard := g\<rparr>) = call_answered V"
  by (simp_all add: fun_eq_iff call_failed_def call_answered_def log_call_def)

text \<open>
  C37. A call can do without the locks: given a second member \<open>Name\<close> that is empty, the server finds no
  tool name and so runs the pipeline without taking a lock, whatever the guard is, but the
  injector sorts the members, so that the gate, and the server upstream, get the call of the tool.
\<close>

theorem crafted_call_takes_no_lock:
  assumes "req_method r = ''tools/call''" and "req_params r = Some (twin_names tool [])" and "tool \<noteq> []"
  shows "handleCall ((gw_server D)\<lparr>sv_guard := Some U\<rparr>) (gw_pipeline D) sid c r s =
      handleCall (gw_server D) (gw_pipeline D) sid c r s \<and>
    (\<exists>kvs. injected c r = Ret (Some (JObj kvs)) \<and> map_of kvs ''name'' = Some (JStr tool) \<and>
       parseToolCallParams (Some (JObj kvs)) = Ret (tool, Some JNull))"
proof
  have t: "parseToolCallParams (req_params r) = Fail (EMsg ''decode params: missing name'')"
    using assms(2) twin_parse(2) by simp
  have g: "runPipeline ((gw_server D)\<lparr>sv_guard := Some U\<rparr>) (gw_pipeline D) sid [] c r (ss_world s) =
      runPipeline (gw_server D) (gw_pipeline D) sid [] c r (ss_world s)"
    by (subst (1 2) runPipeline_unguarded) (simp_all add: gw_server_def)
  show "handleCall ((gw_server D)\<lparr>sv_guard := Some U\<rparr>) (gw_pipeline D) sid c r s =
      handleCall (gw_server D) (gw_pipeline D) sid c r s"
    unfolding handleCall_def calls_unguarded using assms(1) t g by simp
  show "\<exists>kvs. injected c r = Ret (Some (JObj kvs)) \<and> map_of kvs ''name'' = Some (JStr tool) \<and>
       parseToolCallParams (Some (JObj kvs)) = Ret (tool, Some JNull)"
    using twin_injected(1) [OF assms(2), of c] twin_parse(1) [OF assms(3), of "[]" "new_meta c"] by auto
qed

text \<open>
  C36. The policy can be made to decide on other arguments than those that are sent: with a
  second member whose key folds to \<open>arguments\<close>, the gate decides on its value \<open>y\<close> and records it,
  and, if that is allowed, the first request sent upstream has \<open>x\<close> for its \<open>arguments\<close>.
\<close>

theorem policy_decides_on_shadowed_arguments:
  assumes "req_method r = ''tools/call''" and "req_params r = Some (twin_arguments tool x y)" and "tool \<noteq> []"
    and "fst (IncrementAndGet (SessionIDFromContext c) (TurnIDFromContext c) (gw_budget w)) \<le> pol_max_calls (gd_policy D)"
    and "Evaluate (gd_policy D) tool (Some y) = Ret d" and "dec_action d = ActionAllow"
    and "gd_transport D = logged T" and "\<And>u. tr_build T u = None"
  shows "\<exists>out r' w' kvs q a rest. pl_run (gw_pipeline D) c r w = (out, r', w') \<and>
    fst (gw_net w') = fst (gw_net w) @ (q, a) # rest \<and> hq_body q = encode_request r' \<and>
    req_params r' = Some (JObj kvs) \<and> map_of kvs ''arguments'' = Some x \<and>
    gw_audits w' = gw_audits w @ [gate_record c tool (Some y) ''allow'' []]"
proof -
  let ?kvs = "[(''_meta'', new_meta c), (''arguments'', x), (long_s_arguments, y), (''name'', JStr tool)]"
  let ?r = "r\<lparr>req_params := Some (JObj ?kvs)\<rparr>"
  from gw_allows [OF assms(1) twin_injected(2) [OF assms(2)] twin_parse(3) [OF assms(3)] assms(4-6)]
  obtain w2 where w2: "pl_run (gw_pipeline D) c r w = gw_forward D c ?r w2"
    "gw_audits w2 = gw_audits w @ [gate_record c tool (Some y) ''allow'' []]" "gw_net w2 = gw_net w"
    by metis
  obtain l n where l: "gw_net w2 = (l, n)" by (cases "gw_net w2")
  obtain out w' a rest where f: "gw_forward D c ?r w2 = (out, ?r, w')" "gw_audits w' = gw_audits w2"
      "fst (gw_net w') = l @ (upstream_request (gw_forwarder w2) ?r, a) # rest"
    using forward_first [OF assms(8) l assms(7)] by metis
  show ?thesis
  proof (intro exI conjI)
    show "pl_run (gw_pipeline D) c r w = (out, ?r, w')" using w2(1) f(1) by simp
    show "fst (gw_net w') = fst (gw_net w) @ (upstream_request (gw_forwarder w2) ?r, a) # rest"
      using f(3) w2(3) l by (metis fst_conv)
    show "gw_audits w' = gw_audits w @ [gate_record c tool (Some y) ''allow'' []]" using f(2) w2(2) by simp
    show "req_params ?r = Some (JObj ?kvs)" by simp
  qed (simp_all add: upstream_request_def long_s_arguments_def)
qed

section \<open>Witnesses\<close>

definition demo_deps :: "(mem_state, (http_req \<times> http_resp go) list \<times> http_resp list) gateway_deps" where
  "demo_deps =
     \<lparr>gd_policy = demo_policy, gd_redis = mem_redis, gd_locker = NewSessionLocker 60000000000 5000000000,
      gd_rwlock = NewTurnRWLock 60000000000 5000000000, gd_approval_timeout = 300000000000,
      gd_transport = logged demo_transport\<rparr>"

definition demo_config :: config where
  "demo_config =
     \<lparr>cfg_port = 8080, cfg_policy = ''policy.yaml'', cfg_postgres = ''pg'', cfg_redis = ''rd'', cfg_upstream = ''http://up'',
      cfg_turn_header = ''X-Mcp-Turn-Id'', cfg_upstream_timeout = 30 * second, cfg_session_ttl = 60 * minute,
      cfg_lock_ttl = 60000000000, cfg_acquire_timeout = 5000000000, cfg_approval_timeout = 300000000000,
      cfg_lark_app = ''a'', cfg_lark_secret = ''b'', cfg_lark_chat = ''c'', cfg_lark_token = ''d'', cfg_lark_url = ''u''\<rparr>"

definition demo_platform :: "(mem_state, (http_req \<times> http_resp go) list \<times> http_resp list) platform" where
  "demo_platform =
     \<lparr>pf_open = (\<lambda>_. None), pf_yaml = (\<lambda>_. Ret demo_policy), pf_redis = (\<lambda>_. Ret mem_redis), pf_pool = (\<lambda>_. Ret ()),
      pf_migrate = None, pf_transport = (\<lambda>_. logged demo_transport)\<rparr>"

definition demo_upstream :: forwarder where
  "demo_upstream = NewUpstreamForwarder ''http://up''"

definition demo_gateway :: "(mem_state, (http_req \<times> http_resp go) list \<times> http_resp list) gateway" where
  "demo_gateway =
     \<lparr>gw_budget = [], gw_audit = [], gw_tickets = \<lparr>ts_rows = [], ts_faults = [], ts_ids = []\<rparr>, gw_redis = mem_empty, gw_forwarder = demo_forwarder,
      gw_net = ([], [demo_http 200 []]), gw_log = [], gw_rand = [], gw_signals = [], gw_notes = [], gw_clock = 0\<rparr>"

definition dry_run :: "bool \<Rightarrow> json" where "dry_run b = JObj [(''dry_run'', JBool b)]"

definition twin_request :: "json \<Rightarrow> rpc_request" where
  "twin_request v = demo_call\<lparr>req_params := Some v\<rparr>"

lemma demo_allows: "Evaluate demo_policy ''create_refund'' (Some (dry_run True)) = Ret \<lparr>dec_action = ActionAllow, dec_redact = []\<rparr>"
  by (simp add: demo_policy_def dry_run_def Evaluate_def rule_applies_def args_map_def unmarshal_map_any_def)

definition crafted :: rpc_request where
  "crafted = twin_request (twin_arguments ''create_refund'' (dry_run False) (dry_run True))"

lemma crafted_simps [simp]:
  "req_method (twin_request v) = ''tools/call''" "req_params (twin_request v) = Some v"
  "gw_budget demo_gateway = []" "gd_policy demo_deps = demo_policy" "pol_max_calls demo_policy = 5"
  "gd_transport demo_deps = logged demo_transport" "gw_audits demo_gateway = []" "fst (gw_net demo_gateway) = []"
  by (simp_all add: twin_request_def demo_call_def demo_gateway_def demo_deps_def demo_policy_def gw_audits_def)

lemma crafted_params: "req_params crafted = Some (twin_arguments ''create_refund'' (dry_run False) (dry_run True))"
  "req_method crafted = ''tools/call''"
  by (simp_all add: crafted_def)

lemma first_of_turn: "fst (IncrementAndGet s t []) = 1"
  by (simp add: IncrementAndGet_def Let_def)

theorem policy_decides_on_shadowed_arguments_witness:
  "\<exists>out r' w' kvs q a rest. pl_run (gw_pipeline demo_deps) background crafted demo_gateway = (out, r', w') \<and>
    fst (gw_net w') = (q, a) # rest \<and> hq_body q = encode_request r' \<and>
    req_params r' = Some (JObj kvs) \<and> map_of kvs ''arguments'' = Some (dry_run False) \<and>
    gw_audits w' = [gate_record background ''create_refund'' (Some (dry_run True)) ''allow'' []]"
  using policy_decides_on_shadowed_arguments [of crafted "''create_refund''" "dry_run False" "dry_run True" background
      demo_gateway demo_deps "\<lparr>dec_action = ActionAllow, dec_redact = []\<rparr>" demo_transport]
  by (simp add: crafted_params demo_allows first_of_turn)

theorem gateway_mediates_calls_witness:
  "\<exists>p1 r' recs. injected background crafted = Ret p1 \<and>
     permitted demo_policy background (crafted\<lparr>req_params := p1\<rparr>) demo_gateway r' recs"
proof -
  obtain p1 where p1: "injected background crafted = Ret p1" "parseToolCallParams p1 = Ret (''create_refund'', Some (dry_run True))"
    using twin_injected(2) [OF crafted_params(1)] twin_parse(3) [of "''create_refund''"] by auto
  have g: "fst (IncrementAndGet (SessionIDFromContext background) (TurnIDFromContext background) (gw_budget demo_gateway))
      \<le> pol_max_calls (gd_policy demo_deps)" by (simp add: first_of_turn)
  have e: "Evaluate (gd_policy demo_deps) ''create_refund'' (Some (dry_run True)) =
      Ret \<lparr>dec_action = ActionAllow, dec_redact = []\<rparr>" by (simp add: demo_allows)
  obtain w2 where w2: "pl_run (gw_pipeline demo_deps) background crafted demo_gateway =
      gw_forward demo_deps background (crafted\<lparr>req_params := p1\<rparr>) w2" "gw_net w2 = gw_net demo_gateway"
    using gw_allows [OF crafted_params(2) p1 g e] by auto
  obtain l n where l: "gw_net w2 = (l, n)" by (cases "gw_net w2")
  have t: "tr_build demo_transport u = None" "gd_transport demo_deps = logged demo_transport" for u by simp_all
  obtain out w' x rest where f: "gw_forward demo_deps background (crafted\<lparr>req_params := p1\<rparr>) w2 =
      (out, crafted\<lparr>req_params := p1\<rparr>, w')" "fst (gw_net w') = l @ x # rest"
    using forward_first [OF t(1) l t(2)] by metis
  from f(2) l w2(2) have n: "gw_net w' \<noteq> gw_net demo_gateway" by (metis append_self_conv fst_conv list.distinct(1))
  have "pl_run (gw_pipeline demo_deps) background crafted demo_gateway = (out, crafted\<lparr>req_params := p1\<rparr>, w')"
    using w2(1) f(1) by simp
  from gateway_mediates_calls [OF this crafted_params(2) _ n, of demo_transport] show ?thesis by auto
qed


definition demo_server_state :: "(mem_state, (http_req \<times> http_resp go) list \<times> http_resp list) gateway server_state" where
  "demo_server_state = \<lparr>ss_sessions = [], ss_cache = empty_cache, ss_world = demo_gateway\<rparr>"

theorem crafted_call_takes_no_lock_witness:
  "\<exists>kvs. injected background (twin_request (twin_names ''create_refund'' [])) = Ret (Some (JObj kvs)) \<and>
     parseToolCallParams (Some (JObj kvs)) = Ret (''create_refund'', Some JNull)"
proof -
  from crafted_call_takes_no_lock [where r = "twin_request (twin_names ''create_refund'' [])"
      and tool = "''create_refund''" and c = background and D = demo_deps and U = "gw_guard demo_deps"
      and sid = "''s1''" and s = demo_server_state]
  show ?thesis by auto
qed

end
