(* ===== verification/Serve_Mux.thy ===== *)
theory Serve_Mux
  imports Prelude
begin

text \<open>
  \<open>net/http.ServeMux\<close> as the servers of the repository use it: patterns of an optional method and a path, without
  host and without wildcards; a path that ends with a slash stands for everything below it. Registration panics on a
  pattern that conflicts with one registered before. A request is looked up by its method first and by the longest path then;
  that this is the most specific pattern that matches, as the documentation has it, is a theorem. Paths are given without percent escapes.
\<close>

section \<open>Patterns\<close>

record mux_pattern =
  pt_method :: string
  pt_path :: string

type_synonym 'h mux = "(mux_pattern \<times> 'h) list"

definition parse_pattern :: "string \<Rightarrow> mux_pattern" where
  "parse_pattern s =
     (if CHR '' '' \<in> set s
      then \<lparr>pt_method = takeWhile (\<lambda>c. c \<noteq> CHR '' '') s,
            pt_path = dropWhile (\<lambda>c. c = CHR '' '') (dropWhile (\<lambda>c. c \<noteq> CHR '' '') s)\<rparr>
      else \<lparr>pt_method = [], pt_path = s\<rparr>)"

definition ends_slash :: "string \<Rightarrow> bool" where
  "ends_slash p = (p \<noteq> [] \<and> last p = CHR ''/'')"

definition covers :: "string \<Rightarrow> string \<Rightarrow> bool" where
  "covers pat p = (p = pat \<or> (ends_slash pat \<and> has_prefix p pat))"

definition method_serves :: "string \<Rightarrow> string \<Rightarrow> bool" where
  "method_serves m q = (m = [] \<or> m = q \<or> (m = ''GET'' \<and> q = ''HEAD''))"

definition pattern_matches :: "mux_pattern \<Rightarrow> string \<Rightarrow> string \<Rightarrow> bool" where
  "pattern_matches a q p = (method_serves (pt_method a) q \<and> covers (pt_path a) p)"

text \<open>How two patterns relate, by the requests they match.\<close>

datatype relationship = Equivalent | MoreGeneral | MoreSpecific | Disjoint | Overlaps

definition compare_methods :: "string \<Rightarrow> string \<Rightarrow> relationship" where
  "compare_methods a b =
     (if a = b then Equivalent else if a = [] then MoreGeneral else if b = [] then MoreSpecific
      else if a = ''GET'' \<and> b = ''HEAD'' then MoreGeneral else if a = ''HEAD'' \<and> b = ''GET'' then MoreSpecific
      else Disjoint)"

definition compare_paths :: "string \<Rightarrow> string \<Rightarrow> relationship" where
  "compare_paths a b =
     (if a = b then Equivalent else if covers a b then MoreGeneral else if covers b a then MoreSpecific else Disjoint)"

fun combine :: "relationship \<Rightarrow> relationship \<Rightarrow> relationship" where
  "combine Disjoint r = Disjoint"
| "combine Equivalent r = r"
| "combine Overlaps r = (if r = Disjoint then Disjoint else Overlaps)"
| "combine MoreGeneral r = (if r = Equivalent then MoreGeneral else if r = MoreSpecific then Overlaps else r)"
| "combine MoreSpecific r = (if r = Equivalent then MoreSpecific else if r = MoreGeneral then Overlaps else r)"

definition compare_patterns :: "mux_pattern \<Rightarrow> mux_pattern \<Rightarrow> relationship" where
  "compare_patterns a b = combine (compare_methods (pt_method a) (pt_method b)) (compare_paths (pt_path a) (pt_path b))"

definition conflicts :: "mux_pattern \<Rightarrow> mux_pattern \<Rightarrow> bool" where
  "conflicts a b = (compare_patterns a b \<in> {Equivalent, Overlaps})"

definition mux_handle :: "string \<Rightarrow> 'h \<Rightarrow> 'h mux \<Rightarrow> 'h mux go" where
  "mux_handle s h mux =
     (if list_ex (\<lambda>e. conflicts (parse_pattern s) (fst e)) mux
      then Panic (''pattern '' @ go_quote s @ '' conflicts'')
      else Ret (mux @ [(parse_pattern s, h)]))"

fun mux_register :: "(string \<times> 'h) list \<Rightarrow> 'h mux \<Rightarrow> 'h mux go" where
  "mux_register [] mux = Ret mux"
| "mux_register ((s, h) # rs) mux = go_bind (mux_handle s h mux) (mux_register rs)"

section \<open>Requests\<close>

definition longest_match :: "string \<Rightarrow> string \<Rightarrow> 'h mux \<Rightarrow> (mux_pattern \<times> 'h) option" where
  "longest_match m p mux =
     foldr (\<lambda>e best.
         if pt_method (fst e) = m \<and> covers (pt_path (fst e)) p \<and>
            (case best of None \<Rightarrow> True | Some b \<Rightarrow> length (pt_path (fst b)) \<le> length (pt_path (fst e)))
         then Some e else best) mux None"

definition tree_match :: "string \<Rightarrow> string \<Rightarrow> 'h mux \<Rightarrow> (mux_pattern \<times> 'h) option" where
  "tree_match q p mux =
     (case longest_match q p mux of
        Some e \<Rightarrow> Some e
      | None \<Rightarrow>
          (case (if q = ''HEAD'' then longest_match ''GET'' p mux else None) of
             Some e \<Rightarrow> Some e
           | None \<Rightarrow> longest_match [] p mux))"

text \<open>\<open>cleanPath\<close>, with \<open>path.Clean\<close> of a rooted path.\<close>

fun clean_segments :: "string list \<Rightarrow> string list \<Rightarrow> string list" where
  "clean_segments [] acc = rev acc"
| "clean_segments (s # ss) acc =
     (if s = [] \<or> s = ''.'' then clean_segments ss acc
      else if s = ''..'' then clean_segments ss (tl acc)
      else clean_segments ss (s # acc))"

definition cleanPath :: "string \<Rightarrow> string" where
  "cleanPath p =
     (if p = [] then ''/''
      else (let p1 = (if hd p = CHR ''/'' then p else CHR ''/'' # p);
                np = CHR ''/'' # join ''/'' (clean_segments (split_char (CHR ''/'') p1) [])
            in if ends_slash p1 \<and> np \<noteq> ''/'' then np @ ''/'' else np))"

definition matching_methods :: "string \<Rightarrow> 'h mux \<Rightarrow> string list" where
  "matching_methods p mux =
     (let ms = map (pt_method \<circ> fst)
                 (filter (\<lambda>e. pt_method (fst e) \<noteq> [] \<and>
                    (covers (pt_path (fst e)) p \<or> (\<not> ends_slash p \<and> covers (pt_path (fst e)) (p @ ''/'')))) mux)
      in sort (remdups (if ''GET'' \<in> set ms then ''HEAD'' # ms else ms)))"

datatype 'h mux_result =
    MuxHandler 'h
  | MuxRedirect string
  | MuxNotAllowed "string list"
  | MuxNotFound
  | MuxBadRequest

text \<open>A path that only matches exactly with a slash at its end is redirected there, and so is a path that is not clean.\<close>

definition slash_redirect :: "string \<Rightarrow> string \<Rightarrow> 'h mux \<Rightarrow> bool" where
  "slash_redirect q p mux =
     (\<not> ends_slash p \<and> map_option (pt_path \<circ> fst) (tree_match q p mux) \<noteq> Some p \<and>
      map_option (pt_path \<circ> fst) (tree_match q (p @ ''/'') mux) = Some (p @ ''/''))"

definition mux_find :: "string \<Rightarrow> string \<Rightarrow> 'h mux \<Rightarrow> 'h mux_result" where
  "mux_find q path mux =
     (if path = ''*'' then MuxBadRequest
      else (let p = (if q = ''CONNECT'' then path else cleanPath path)
            in if slash_redirect q p mux then MuxRedirect (p @ ''/'')
               else if p \<noteq> path then MuxRedirect p
               else (case tree_match q p mux of
                       Some (_, h) \<Rightarrow> MuxHandler h
                     | None \<Rightarrow> (case matching_methods p mux of [] \<Rightarrow> MuxNotFound | ms \<Rightarrow> MuxNotAllowed ms))))"

section \<open>The most specific pattern wins\<close>

definition conflict_free :: "'h mux \<Rightarrow> bool" where
  "conflict_free mux =
     (\<forall>i < length mux. \<forall>j < i. \<not> conflicts (fst (mux ! i)) (fst (mux ! j)))"

lemma mux_handle_free:
  assumes "mux_handle s h mux = Ret mux'" "conflict_free mux"
  shows "conflict_free mux'"
  using assms
  by (auto simp: mux_handle_def conflict_free_def list_ex_iff nth_append less_Suc_eq split: if_splits)

lemma mux_register_free: "mux_register rs mux = Ret mux' \<Longrightarrow> conflict_free mux \<Longrightarrow> conflict_free mux'"
  by (induction rs mux rule: mux_register.induct) (auto simp: go_bind_Ret_iff mux_handle_free)

lemma covers_refl [simp]: "covers p p"
  by (simp add: covers_def)

lemma covers_prefix: "covers a p \<Longrightarrow> has_prefix p a"
  by (auto simp: covers_def has_prefix_iff)

text \<open>Of two patterns that cover a path the longer one is covered by the other.\<close>

lemma covers_chain:
  assumes "covers a p" "covers b p" "length a \<le> length b"
  shows "covers a b"
proof -
  from assms obtain x y where "p = a @ x" "p = b @ y" by (meson covers_prefix has_prefix_iff)
  then have pre: "has_prefix b a" using assms(3) by (auto simp: append_eq_append_conv2 has_prefix_iff)
  show ?thesis
  proof (cases "ends_slash a")
    case False
    with assms(1) have "a = p" by (simp add: covers_def)
    with \<open>p = b @ y\<close> assms(3) show ?thesis by simp
  qed (use pre in \<open>simp add: covers_def\<close>)
qed

lemma covers_length: "covers a p \<Longrightarrow> length a \<le> length p"
  using covers_prefix by (fastforce simp: has_prefix_iff)

lemma compare_covering:
  assumes "covers a p" "covers b p"
  shows "compare_paths a b = (if a = b then Equivalent else if length a < length b then MoreGeneral else MoreSpecific)"
  using covers_chain [OF assms] covers_chain [OF assms(2,1)] covers_length [of a b] covers_length [of b a]
    covers_prefix [of a b] covers_prefix [of b a]
  by (auto simp: compare_paths_def has_prefix_iff)

fun inverse_rel :: "relationship \<Rightarrow> relationship" where
  "inverse_rel MoreGeneral = MoreSpecific"
| "inverse_rel MoreSpecific = MoreGeneral"
| "inverse_rel r = r"

lemma covers_antisym: "covers a b \<Longrightarrow> covers b a \<Longrightarrow> a = b"
  using covers_prefix [of a b] covers_prefix [of b a] by (auto simp: has_prefix_iff)

lemma compare_inverse: "compare_patterns b a = inverse_rel (compare_patterns a b)"
proof -
  have "compare_paths (pt_path b) (pt_path a) = inverse_rel (compare_paths (pt_path a) (pt_path b))"
    by (auto simp: compare_paths_def dest: covers_antisym)
  moreover have "compare_methods (pt_method b) (pt_method a) = inverse_rel (compare_methods (pt_method a) (pt_method b))"
    by (auto simp: compare_methods_def)
  moreover have "combine (inverse_rel x) (inverse_rel y) = inverse_rel (combine x y)" for x y
    by (cases x; cases y) simp_all
  ultimately show ?thesis by (simp add: compare_patterns_def)
qed

lemma conflicts_sym: "conflicts a b \<longleftrightarrow> conflicts b a"
  unfolding conflicts_def compare_inverse [of a b] by (cases "compare_patterns b a") simp_all

text \<open>The order of the lookup.\<close>

definition method_rank :: "string \<Rightarrow> string \<Rightarrow> nat" where
  "method_rank q m = (if m = q then 2 else if m = [] then 0 else 1)"

lemma longest_match_cases:
  "case longest_match m p mux of
     None \<Rightarrow> \<forall>e \<in> set mux. \<not> (pt_method (fst e) = m \<and> covers (pt_path (fst e)) p)
   | Some e \<Rightarrow> e \<in> set mux \<and> pt_method (fst e) = m \<and> covers (pt_path (fst e)) p \<and>
       (\<forall>e' \<in> set mux. pt_method (fst e') = m \<and> covers (pt_path (fst e')) p \<longrightarrow>
          length (pt_path (fst e')) \<le> length (pt_path (fst e)))"
proof (induction mux)
  case (Cons x mux)
  then show ?case
    by (cases "longest_match m p mux") (auto simp: longest_match_def)
qed (simp add: longest_match_def)

lemma longest_Some:
  assumes "longest_match m p mux = Some e"
  shows "e \<in> set mux" "pt_method (fst e) = m" "covers (pt_path (fst e)) p"
    "\<And>e'. e' \<in> set mux \<Longrightarrow> pt_method (fst e') = m \<Longrightarrow> covers (pt_path (fst e')) p \<Longrightarrow>
      length (pt_path (fst e')) \<le> length (pt_path (fst e))"
  using longest_match_cases [where m = m and p = p and mux = mux] assms by simp_all

lemma longest_None:
  "longest_match m p mux = None \<Longrightarrow> e \<in> set mux \<Longrightarrow> pt_method (fst e) = m \<Longrightarrow> \<not> covers (pt_path (fst e)) p"
  using longest_match_cases [where m = m and p = p and mux = mux] by auto

definition ranked_before :: "string \<Rightarrow> mux_pattern \<Rightarrow> mux_pattern \<Rightarrow> bool" where
  "ranked_before q b a =
     (method_rank q (pt_method b) < method_rank q (pt_method a) \<or>
      (method_rank q (pt_method b) = method_rank q (pt_method a) \<and> length (pt_path b) \<le> length (pt_path a)))"

lemma tree_match_ranked:
  assumes "tree_match q p mux = Some e"
  shows "e \<in> set mux \<and> pattern_matches (fst e) q p \<and>
    (\<forall>e' \<in> set mux. pattern_matches (fst e') q p \<longrightarrow> ranked_before q (fst e') (fst e))"
proof -
  consider (exact) "longest_match q p mux = Some e"
    | (get) "longest_match q p mux = None" "q = ''HEAD''" "longest_match ''GET'' p mux = Some e"
    | (any) "longest_match q p mux = None" "q = ''HEAD'' \<Longrightarrow> longest_match ''GET'' p mux = None" "longest_match [] p mux = Some e"
    using assms by (auto simp: tree_match_def split: option.splits if_splits)
  then show ?thesis
  proof cases
    case exact
    note l = longest_Some [OF exact]
    from l show ?thesis
      by (auto simp: pattern_matches_def method_serves_def ranked_before_def method_rank_def)
  next
    case get
    note l = longest_Some [OF get(3)] and n = longest_None [OF get(1)]
    from l n get(2) show ?thesis
      by (auto simp: pattern_matches_def method_serves_def ranked_before_def method_rank_def)
  next
    case any
    note l = longest_Some [OF any(3)] and n = longest_None [OF any(1)]
    from any(2) have g: "e' \<in> set mux \<Longrightarrow> q = ''HEAD'' \<Longrightarrow> pt_method (fst e') = ''GET'' \<Longrightarrow> \<not> covers (pt_path (fst e')) p" for e'
      using longest_None by blast
    from l n g show ?thesis
      by (auto simp: pattern_matches_def method_serves_def ranked_before_def method_rank_def)
  qed
qed

lemma tree_match_None:
  assumes "tree_match q p mux = None" "e \<in> set mux"
  shows "\<not> pattern_matches (fst e) q p"
  using assms longest_None [of q p mux e] longest_None [of "''GET''" p mux e] longest_None [of "[]" p mux e]
  by (auto simp: tree_match_def pattern_matches_def method_serves_def split: option.splits if_splits)

lemma ranked_specific:
  assumes "pattern_matches a q p" "pattern_matches b q p" "ranked_before q b a" "\<not> conflicts a b"
  shows "compare_patterns a b = MoreSpecific"
proof -
  let ?m = "compare_methods (pt_method a) (pt_method b)" and ?p = "compare_paths (pt_path a) (pt_path b)"
  have p: "?p = (if pt_path a = pt_path b then Equivalent
      else if length (pt_path a) < length (pt_path b) then MoreGeneral else MoreSpecific)"
    using assms(1,2) by (intro compare_covering [where p = p]) (simp_all add: pattern_matches_def)
  show ?thesis
  proof (cases "pt_method a = pt_method b")
    case True
    with assms(3) have "length (pt_path b) \<le> length (pt_path a)" by (simp add: ranked_before_def)
    with p assms(4) True show ?thesis
      by (auto simp: conflicts_def compare_patterns_def compare_methods_def split: if_splits)
  next
    case False
    with assms(1-3) have "?m = MoreSpecific"
      by (auto simp: ranked_before_def method_rank_def compare_methods_def pattern_matches_def method_serves_def split: if_splits)
    with p assms(4) show ?thesis by (auto simp: conflicts_def compare_patterns_def split: if_splits)
  qed
qed

theorem most_specific_pattern_wins:
  assumes "mux_register rs [] = Ret mux"
  shows "tree_match q p mux = Some (a, h) \<longleftrightarrow>
    (a, h) \<in> set mux \<and> pattern_matches a q p \<and>
    (\<forall>(b, g) \<in> set mux. pattern_matches b q p \<longrightarrow> (b, g) = (a, h) \<or> compare_patterns a b = MoreSpecific)"
    (is "?l \<longleftrightarrow> ?r")
proof -
  have free: "conflict_free mux" using mux_register_free [OF assms] by (simp add: conflict_free_def)
  have apart: "\<not> conflicts (fst e) (fst e')" if "e \<in> set mux" "e' \<in> set mux" "e \<noteq> e'" for e e'
  proof -
    from that obtain i j where ij: "i < length mux" "j < length mux" "e = mux ! i" "e' = mux ! j" by (metis in_set_conv_nth)
    with that(3) have "i < j \<or> j < i" by (metis linorder_neqE_nat)
    with free ij show ?thesis unfolding conflict_free_def using conflicts_sym by blast
  qed
  have specific: "compare_patterns (fst e) (fst e') = MoreSpecific"
    if "tree_match q p mux = Some e" "e' \<in> set mux" "pattern_matches (fst e') q p" "e' \<noteq> e" for e e'
    using tree_match_ranked [OF that(1)] that(2-4) apart [of e e'] ranked_specific [of "fst e" q p "fst e'"] by auto
  show ?thesis
  proof
    assume ?l
    then show ?r using tree_match_ranked [OF \<open>?l\<close>] specific [OF \<open>?l\<close>] by fastforce
  next
    assume r: ?r
    then obtain e where e: "tree_match q p mux = Some e" using tree_match_None by (cases "tree_match q p mux") fastforce+
    show ?l
    proof (cases "e = (a, h)")
      case False
      with r tree_match_ranked [OF e] have "compare_patterns a (fst e) = MoreSpecific" by fastforce
      moreover from specific [OF e, of "(a, h)"] r False have "compare_patterns (fst e) a = MoreSpecific" by auto
      ultimately show ?thesis using compare_inverse [of a "fst e"] by simp
    qed (use e in simp)
  qed
qed

end
