(* ===== verification/Eval_Main.thy ===== *)
theory Eval_Main
  imports Scenarios Serve_Mux
begin

text \<open>
  The start of \<open>cmd/eval-runner\<close>: \<open>config.go\<close>, the \<open>docker compose\<close> orchestrator of
  \<open>orchestrator.go\<close>, \<open>run\<close> and \<open>main\<close> of \<open>main.go\<close> and \<open>serve\<close> of \<open>serve.go\<close>. What a run
  does is kept as a list of events beside the state \<open>'w\<close> of the outside world: the lines it prints, the
  calls of the orchestrator and of the database pool, the cases. The child processes, the files and the
  database are parameters.
\<close>

section \<open>Configuration\<close>

record eval_config =
  el_dsn :: string
  el_compose :: string
  el_agent :: string
  el_skip :: bool

definition defaultComposeFilePath :: string where
  "defaultComposeFilePath = ''deploy/docker-compose.yml''"

definition eval_LoadConfig :: "environment \<Rightarrow> eval_config go \<times> log_entry list" where
  "eval_LoadConfig env =
     (if env ''POSTGRES_DSN'' = [] then (Fail (EMsg ''missing required environment variable POSTGRES_DSN''), [])
      else if env ''AGENT_URL'' = [] then (Fail (EMsg ''missing required environment variable AGENT_URL''), [])
      else (case envStringWithInfoNotice env ''EVAL_COMPOSE_FILE'' defaultComposeFilePath ''using default compose file path'' of
              (compose, logs) \<Rightarrow>
                (Ret \<lparr>el_dsn = env ''POSTGRES_DSN'', el_compose = compose, el_agent = env ''AGENT_URL'',
                      el_skip = (env ''EVAL_SKIP_COMPOSE'' = ''true'')\<rparr>, logs)))"

section \<open>The orchestrator\<close>

definition tailLines :: "string \<Rightarrow> nat \<Rightarrow> string" where
  "tailLines output n =
     (let ls = split_char (CHR 10) (trim_space output)
      in if ls = [] \<or> hd ls = [] then ''(no compose output)''
         else join nl (if n < length ls then drop (length ls - n) ls else ls))"

record orchestrator =
  or_compose :: string
  or_project :: string

definition NewOrchestrator :: "string \<Rightarrow> string \<Rightarrow> orchestrator" where
  "NewOrchestrator compose project = \<lparr>or_compose = compose, or_project = project\<rparr>"

text \<open>\<open>look\<close> finds a program, \<open>exec\<close> runs one with its arguments and gives its output, standard
  error included, and how it ended.\<close>

definition runCompose ::
  "(string \<Rightarrow> string list \<Rightarrow> 'w \<Rightarrow> (string \<times> goerr option) \<times> 'w) \<Rightarrow> orchestrator \<Rightarrow> string list \<Rightarrow> 'w \<Rightarrow>
   (string \<times> goerr option) \<times> 'w" where
  "runCompose exec orc args = exec ''docker'' ([''compose'', ''-f'', or_compose orc, ''-p'', or_project orc] @ args)"

definition orch_Up ::
  "(string \<Rightarrow> goerr option) \<Rightarrow> (string \<Rightarrow> string list \<Rightarrow> 'w \<Rightarrow> (string \<times> goerr option) \<times> 'w) \<Rightarrow> orchestrator \<Rightarrow> 'w \<Rightarrow>
   goerr option \<times> 'w" where
  "orch_Up look exec orc w =
     (case look ''docker'' of
        Some e \<Rightarrow> (Some (EWrap ''docker not found in PATH'' e), w)
      | None \<Rightarrow>
          (case runCompose exec orc [''up'', ''-d'', ''--build'', ''--wait''] w of
             ((output, Some e), w1) \<Rightarrow> (Some (EMsg (''docker compose up failed: '' @ tailLines output 20)), w1)
           | ((output, None), w1) \<Rightarrow> (None, w1)))"

definition orch_Down ::
  "(string \<Rightarrow> goerr option) \<Rightarrow> (string \<Rightarrow> string list \<Rightarrow> 'w \<Rightarrow> (string \<times> goerr option) \<times> 'w) \<Rightarrow> orchestrator \<Rightarrow> 'w \<Rightarrow>
   goerr option \<times> 'w" where
  "orch_Down look exec orc w =
     (case look ''docker'' of
        Some e \<Rightarrow> (Some (EWrap ''docker not found in PATH'' e), w)
      | None \<Rightarrow>
          (case runCompose exec orc [''down'', ''-v''] w of
             ((output, Some e), w1) \<Rightarrow> (Some (EWrap ''docker compose down failed'' e), w1)
           | ((output, None), w1) \<Rightarrow> (None, w1)))"

section \<open>A run\<close>

datatype run_event =
    EvPrint string
  | EvPrintErr string
  | EvUp bool
  | EvOpen bool
  | EvCase string
  | EvClose
  | EvDown bool

record 'w runner_deps =
  rn_args :: "string list"
  rn_look :: "string \<Rightarrow> goerr option"
  rn_config :: "eval_config go"
  rn_suite :: "string \<Rightarrow> eval_suite go"
  rn_up :: "eval_config \<Rightarrow> 'w \<Rightarrow> goerr option \<times> 'w"
  rn_down :: "eval_config \<Rightarrow> 'w \<Rightarrow> goerr option \<times> 'w"
  rn_open :: "string \<Rightarrow> 'w \<Rightarrow> bool go \<times> 'w"
  rn_close :: "'w \<Rightarrow> 'w"
  rn_run :: "eval_config \<Rightarrow> 'w case_executor"
  rn_evaluate :: "eval_case \<Rightarrow> trace \<Rightarrow> case_result"
  rn_report :: "case_result list \<Rightarrow> string"
  rn_exit :: "case_result list \<Rightarrow> int"

type_synonym 'w run_state = "run_event list \<times> 'w"

definition emit :: "run_event \<Rightarrow> 'w run_state \<Rightarrow> 'w run_state" where
  "emit e s = (fst s @ [e], snd s)"

definition defaultSuitePath :: string where
  "defaultSuitePath = ''evalsuite/default.yaml''"

definition resolveSuitePath :: "string list \<Rightarrow> string go" where
  "resolveSuitePath args =
     (case args of
        [] \<Rightarrow> Ret defaultSuitePath
      | [a] \<Rightarrow> Ret a
      | _ \<Rightarrow> Fail (EMsg ''expected at most one eval suite path argument''))"

definition formatSuiteLoadError :: "string \<Rightarrow> goerr \<Rightarrow> string" where
  "formatSuiteLoadError path e =
     ''failed to load eval suite '' @ go_quote path @ '': '' @
     (if err_is ENotExist e then ''no such file or directory'' else err_text e)"

text \<open>The loop over the cases, with the results so far.\<close>

definition print_verdict :: "case_result \<Rightarrow> 'w run_state \<Rightarrow> 'w run_state" where
  "print_verdict r = emit (EvPrint ((if cr_passed r then ''[PASS] '' else ''[FAIL] '') @ cr_name r))"

fun run_suite :: "'w runner_deps \<Rightarrow> eval_config \<Rightarrow> eval_case list \<Rightarrow> case_result list \<Rightarrow> 'w run_state \<Rightarrow>
    case_result list go \<times> 'w run_state" where
  "run_suite D cfg [] rs s = (Ret rs, s)"
| "run_suite D cfg (c # cs) rs s =
     (let s1 = emit (EvCase (ec_name c)) (emit (EvPrint (''[RUN] '' @ ec_name c)) s)
      in case rn_run D cfg c (snd s1) of
           (Panic m, w1) \<Rightarrow> (Panic m, (fst s1, w1))
         | (Fail e, w1) \<Rightarrow>
             (let r = run_failed (ec_name c) (err_text e)
              in run_suite D cfg cs (rs @ [r]) (print_verdict r (fst s1, w1)))
         | (Ret tr, w1) \<Rightarrow>
             (let r = rn_evaluate D c tr
              in run_suite D cfg cs (rs @ [r]) (print_verdict r (fst s1, w1))))"

text \<open>What follows a successful \<open>Up\<close>: the deferred \<open>Close\<close> of an opened pool runs however the rest ends.\<close>

definition run_opened :: "'w runner_deps \<Rightarrow> eval_config \<Rightarrow> eval_suite \<Rightarrow> 'w run_state \<Rightarrow> int go \<times> 'w run_state" where
  "run_opened D cfg suite s =
     (case rn_open D (el_dsn cfg) (snd s) of
        (Panic m, w1) \<Rightarrow> (Panic m, (fst s, w1))
      | (Fail e, w1) \<Rightarrow> (Ret 1, emit (EvPrintErr (err_text e)) (emit (EvOpen False) (fst s, w1)))
      | (Ret has_db, w1) \<Rightarrow>
          (case run_suite D cfg suite [] (emit (EvOpen True) (fst s, w1)) of
             (out, s2) \<Rightarrow>
               (let s3 = (case out of Ret rs \<Rightarrow> emit (EvPrint (rn_report D rs)) s2 | _ \<Rightarrow> s2)
                in (go_bind out (\<lambda>rs. Ret (rn_exit D rs)), if has_db then emit EvClose (fst s3, rn_close D (snd s3)) else s3))))"

text \<open>The deferred \<open>Down\<close>: its failure turns the exit code 0 into 1.\<close>

definition deferred_down :: "'w runner_deps \<Rightarrow> eval_config \<Rightarrow> int go \<times> 'w run_state \<Rightarrow> int go \<times> 'w run_state" where
  "deferred_down D cfg r =
     (case r of (out, s) \<Rightarrow>
        (case rn_down D cfg (snd s) of
           (None, w1) \<Rightarrow> (out, emit (EvDown True) (fst s, w1))
         | (Some e, w1) \<Rightarrow>
             (if out = Ret 0 then Ret 1 else out, emit (EvPrintErr (err_text e)) (emit (EvDown False) (fst s, w1)))))"

definition print_err :: "string \<Rightarrow> int \<Rightarrow> 'w run_state \<Rightarrow> int go \<times> 'w run_state" where
  "print_err m code s = (Ret code, emit (EvPrintErr m) s)"

definition eval_run :: "'w runner_deps \<Rightarrow> 'w \<Rightarrow> int go \<times> 'w run_state" where
  "eval_run D w =
     (let s = ([], w) in
      case rn_config D of
        Panic m \<Rightarrow> (Panic m, s)
      | Fail e \<Rightarrow> print_err (err_text e) 1 s
      | Ret cfg \<Rightarrow>
          (case rn_look D ''docker'' of
             Some e \<Rightarrow> print_err ''docker not found in PATH'' 1 s
           | None \<Rightarrow>
               (case resolveSuitePath (rn_args D) of
                  Panic m \<Rightarrow> (Panic m, s)
                | Fail e \<Rightarrow> print_err (err_text e) 2 s
                | Ret path \<Rightarrow>
                    (case rn_suite D path of
                       Panic m \<Rightarrow> (Panic m, s)
                     | Fail e \<Rightarrow> print_err (formatSuiteLoadError path e) 1 s
                     | Ret suite \<Rightarrow>
                         (case rn_up D cfg w of
                            (Some e, w1) \<Rightarrow> print_err (err_text e) 1 (emit (EvUp False) ([], w1))
                          | (None, w1) \<Rightarrow> deferred_down D cfg (run_opened D cfg suite (emit (EvUp True) ([], w1))))))))"

section \<open>The two ways of starting\<close>

definition openPostgresPool ::
  "(string \<Rightarrow> 'w \<Rightarrow> goerr option \<times> 'w) \<Rightarrow> ('w \<Rightarrow> goerr option \<times> 'w) \<Rightarrow> ('w \<Rightarrow> 'w) \<Rightarrow> string \<Rightarrow> 'w \<Rightarrow> bool go \<times> 'w" where
  "openPostgresPool new ping close dsn w =
     (case new dsn w of
        (Some e, w1) \<Rightarrow> (Fail e, w1)
      | (None, w1) \<Rightarrow>
          (case ping w1 of
             (Some e, w2) \<Rightarrow> (Fail e, close w2)
           | (None, w2) \<Rightarrow> (Ret True, w2)))"

text \<open>What the process finds around it.\<close>

record 'w runner_platform =
  rp_env :: environment
  rp_look :: "string \<Rightarrow> goerr option"
  rp_exec :: "string \<Rightarrow> string list \<Rightarrow> 'w \<Rightarrow> (string \<times> goerr option) \<times> 'w"
  rp_file :: "string \<Rightarrow> string go"
  rp_yaml :: "string \<Rightarrow> eval_suite go"
  rp_pool :: "string \<Rightarrow> 'w \<Rightarrow> goerr option \<times> 'w"
  rp_ping :: "'w \<Rightarrow> goerr option \<times> 'w"
  rp_close :: "'w \<Rightarrow> 'w"
  rp_eval :: "'w eval_env"
  rp_args_text :: "raw \<Rightarrow> string"
  rp_parse_url :: "string \<Rightarrow> (string \<times> string) option"
  rp_build :: "string \<Rightarrow> goerr option"
  rp_get :: "string \<Rightarrow> int go"
  rp_dial :: "string \<Rightarrow> goerr option"

definition defaultMCPReachable :: "(string \<Rightarrow> goerr option) \<Rightarrow> string \<Rightarrow> bool" where
  "defaultMCPReachable dial addr = (dial addr = None)"

definition defaultLarkReachable :: "(string \<Rightarrow> int go) \<Rightarrow> string \<Rightarrow> bool" where
  "defaultLarkReachable get url = (case get url of Ret st \<Rightarrow> 200 \<le> st \<and> st < 300 | _ \<Rightarrow> False)"

definition case_executor_of :: "'w runner_platform \<Rightarrow> string \<Rightarrow> 'w case_executor" where
  "case_executor_of P url c w = returned (runner_Run (rp_eval P) (NewCaseRunner url) background c w) w"

definition orchestrated :: "(orchestrator \<Rightarrow> 'w \<Rightarrow> goerr option \<times> 'w) \<Rightarrow> eval_config \<Rightarrow> 'w \<Rightarrow> goerr option \<times> 'w" where
  "orchestrated f cfg w = (if el_skip cfg then (None, w) else f (NewOrchestrator (el_compose cfg) ''eval-gate'') w)"

definition main_deps :: "'w runner_platform \<Rightarrow> string list \<Rightarrow> 'w runner_deps" where
  "main_deps P args =
     \<lparr>rn_args = args, rn_look = rp_look P, rn_config = fst (eval_LoadConfig (rp_env P)),
      rn_suite = LoadSuite (rp_yaml P) (rp_file P),
      rn_up = orchestrated (orch_Up (rp_look P) (rp_exec P)),
      rn_down = orchestrated (orch_Down (rp_look P) (rp_exec P)),
      rn_open = openPostgresPool (rp_pool P) (rp_ping P) (rp_close P),
      rn_close = rp_close P,
      rn_run = (\<lambda>cfg. case_executor_of P (el_agent cfg)),
      rn_evaluate = eval_Evaluate (rp_args_text P), rn_report = GenerateReport, rn_exit = ExitCode\<rparr>"

text \<open>The dependencies that \<open>run\<close> supplies when its caller left them out; the tests do, \<open>main\<close> gives all.\<close>

record 'w optional_deps =
  od_open :: "(string \<Rightarrow> 'w \<Rightarrow> bool go \<times> 'w) option"
  od_runner :: "(eval_config \<Rightarrow> 'w case_executor) option"
  od_evaluate :: "(eval_case \<Rightarrow> trace \<Rightarrow> case_result) option"
  od_report :: "(case_result list \<Rightarrow> string) option"
  od_exit :: "(case_result list \<Rightarrow> int) option"

definition run_defaults :: "'w runner_platform \<Rightarrow> 'w optional_deps \<Rightarrow> 'w runner_deps \<Rightarrow> 'w runner_deps" where
  "run_defaults P d D =
     D\<lparr>rn_open := the_default (openPostgresPool (rp_pool P) (rp_ping P) (rp_close P)) (od_open d),
       rn_run := the_default (\<lambda>cfg. case_executor_of P (el_agent cfg)) (od_runner d),
       rn_evaluate := the_default (eval_Evaluate (rp_args_text P)) (od_evaluate d),
       rn_report := the_default GenerateReport (od_report d),
       rn_exit := the_default ExitCode (od_exit d)\<rparr>"

lemma defaults_are_mains:
  "run_defaults P \<lparr>od_open = None, od_runner = None, od_evaluate = None, od_report = None, od_exit = None\<rparr>
     (\<lparr>rn_args = args, rn_look = rp_look P, rn_config = fst (eval_LoadConfig (rp_env P)), rn_suite = LoadSuite (rp_yaml P) (rp_file P),
       rn_up = orchestrated (orch_Up (rp_look P) (rp_exec P)), rn_down = orchestrated (orch_Down (rp_look P) (rp_exec P)),
       rn_open = op, rn_close = rp_close P, rn_run = ru, rn_evaluate = ev, rn_report = re, rn_exit = ex\<rparr>) = main_deps P args"
  by (simp add: run_defaults_def main_deps_def)

text \<open>The handlers \<open>serve\<close> registers, as a table.\<close>

record 'w eval_service =
  es_runner :: "'w case_executor"
  es_suite :: eval_suite
  es_ai :: "('w case_executor \<times> eval_suite) option"
  es_deps :: "'w scenario_deps"
  es_new :: "string \<Rightarrow> 'w case_executor"

definition scenario_deps_of :: "'w runner_platform \<Rightarrow> 'w scenario_deps" where
  "scenario_deps_of P =
     \<lparr>sd_runner = Some (case_executor_of P),
      sd_storm = Some (\<lambda>url c w. returned (storm_Run (newRetryStormExecutor True (rp_eval P) url) c w) w),
      sd_ai_agent = rp_env P ''AI_AGENT_URL'', sd_gateway = rp_env P ''GATEWAY_MCP_URL'',
      sd_mcp_addr = rp_env P ''STACK_HEALTH_MCP_ADDR'', sd_lark_url = rp_env P ''STACK_HEALTH_LARK_URL'',
      sd_mcp_up = defaultMCPReachable (rp_dial P), sd_lark_up = defaultLarkReachable (rp_get P), sd_parse_url = rp_parse_url P, sd_env = rp_env P,
      sd_yaml = rp_yaml P\<rparr>"

text \<open>The AI agent is optional; its suite is loaded only when it is there.\<close>

definition load_ai :: "'w runner_platform \<Rightarrow> ('w case_executor \<times> eval_suite) option go" where
  "load_ai P =
     (if rp_env P ''AI_AGENT_URL'' = [] then Ret None
      else (case LoadSuite (rp_yaml P) (rp_file P) (or_default (rp_env P ''AI_SUITE_PATH'') ''evalsuite/ai-agent.yaml'') of
              Ret suite \<Rightarrow> Ret (Some (case_executor_of P (rp_env P ''AI_AGENT_URL''), suite))
            | Fail e \<Rightarrow> Fail (EWrap ''load AI suite'' e)
            | Panic m \<Rightarrow> Panic m))"

text \<open>\<open>serve\<close> up to the listener, which is a parameter with the error it ends with. The warm-up is a goroutine:
  here it comes before the requests. The pool is closed on every way out once it was opened.\<close>

definition eval_serve ::
  "'w runner_platform \<Rightarrow> ('w eval_service \<Rightarrow> string \<Rightarrow> 'w \<Rightarrow> goerr option \<times> 'w) \<Rightarrow> string \<Rightarrow> 'w \<Rightarrow>
   unit go \<times> log_entry list \<times> 'w" where
  "eval_serve P listen path w =
     (case eval_LoadConfig (rp_env P) of
        (Panic m, l) \<Rightarrow> (Panic m, l, w)
      | (Fail e, l) \<Rightarrow> (Fail e, l, w)
      | (Ret cfg, l) \<Rightarrow>
          (case LoadSuite (rp_yaml P) (rp_file P) path of
             Panic m \<Rightarrow> (Panic m, l, w)
           | Fail e \<Rightarrow> (Fail (EWrap ''load suite'' e), l, w)
           | Ret suite \<Rightarrow>
               (case openPostgresPool (rp_pool P) (rp_ping P) (rp_close P) (el_dsn cfg) w of
                  (Panic m, w1) \<Rightarrow> (Panic m, l, w1)
                | (Fail e, w1) \<Rightarrow> (Fail (EWrap ''connect to postgres'' e), l, w1)
                | (Ret _, w1) \<Rightarrow>
                    (case load_ai P of
                       Panic m \<Rightarrow> (Panic m, l, rp_close P w1)
                     | Fail e \<Rightarrow> (Fail e, l, rp_close P w1)
                     | Ret ai \<Rightarrow>
                         (let port = or_default (rp_env P ''EVAL_SERVE_PORT'') ''8099'';
                              svc = \<lparr>es_runner = case_executor_of P (el_agent cfg), es_suite = suite, es_ai = ai,
                                     es_deps = scenario_deps_of P, es_new = case_executor_of P\<rparr>
                          in case warmGatewayCapCache (rp_eval P) (or_default (rp_env P ''GATEWAY_MCP_URL'') defaultGatewayMCPURL) w1 of
                               (entry, w2) \<Rightarrow>
                                 (case listen svc ('':'' @ port) w2 of
                                    (e, w3) \<Rightarrow>
                                      (case e of Some x \<Rightarrow> Fail x | None \<Rightarrow> Ret (),
                                       l @ [entry, (LevelInfo, ''eval server listening'', [(''port'', LStr port)])], rp_close P w3)))))))"

text \<open>\<open>main\<close>: the exit code, with what was printed.\<close>

definition eval_main ::
  "'w runner_platform \<Rightarrow> ('w eval_service \<Rightarrow> string \<Rightarrow> 'w \<Rightarrow> goerr option \<times> 'w) \<Rightarrow> string list \<Rightarrow> 'w \<Rightarrow> int go \<times> 'w run_state" where
  "eval_main P listen args w =
     (if args \<noteq> [] \<and> hd args = ''--serve'' then
        (case eval_serve P listen (case tl args of [] \<Rightarrow> defaultSuitePath | path # _ \<Rightarrow> path) w of
           (Panic m, l, w1) \<Rightarrow> (Panic m, ([], w1))
         | (Fail e, l, w1) \<Rightarrow> print_err (err_text e) 1 ([], w1)
         | (Ret _, l, w1) \<Rightarrow> (Ret 0, ([], w1)))
      else eval_run (main_deps P args) w)"

text \<open>The routes that \<open>serve\<close> registers with the default mux of \<open>net/http\<close>.\<close>

datatype eval_route =
    UiRoute
  | RunEvalRoute
  | RunAiRoute
  | CustomRoute
  | CustomStreamRoute
  | ScenarioRoute
  | HealthzRoute
  | StackHealthRoute

definition eval_patterns :: "(string \<times> eval_route) list" where
  "eval_patterns =
     [(''GET /'', UiRoute), (''POST /run-eval'', RunEvalRoute), (''POST /run-eval/ai'', RunAiRoute),
      (''POST /run-eval/custom'', CustomRoute), (''POST /run-eval/custom/stream'', CustomStreamRoute),
      (''POST /run-scenario/stream'', ScenarioRoute), (''GET /healthz'', HealthzRoute), (''GET /stack-health'', StackHealthRoute)]"

definition eval_mux :: "eval_route mux go" where
  "eval_mux = mux_register eval_patterns []"

record eval_http_request =
  eq_method :: string
  eq_path :: string
  eq_accept :: string
  eq_body :: string
  eq_writer :: sse_writer

datatype served =
    UiPage
  | Healthy
  | StackHealth "stack_service list"
  | Served eval_reply
  | MuxAnswer "eval_route mux_result"

definition eval_dispatch ::
  "'w runner_platform \<Rightarrow> 'w eval_service \<Rightarrow> eval_route \<Rightarrow> eval_http_request \<Rightarrow> 'w \<Rightarrow> served \<times> 'w" where
  "eval_dispatch P V route q w =
     (case route of
        UiRoute \<Rightarrow> (UiPage, w)
      | HealthzRoute \<Rightarrow> (Healthy, w)
      | StackHealthRoute \<Rightarrow>
          (StackHealth (makeStackHealthHandler (rp_build P) (rp_get P) (rp_dial P) (Some (fst (rp_ping P w)))
             (or_default (rp_env P ''GATEWAY_MCP_URL'') ''http://localhost:18080/mcp'')
             (rp_env P ''STACK_HEALTH_MCP_ADDR'') (rp_env P ''STACK_HEALTH_LARK_URL'')), w)
      | RunEvalRoute \<Rightarrow>
          map_prod Served id (makeEvalHandler (rp_args_text P) (es_runner V) (es_suite V) (eq_accept q) w)
      | RunAiRoute \<Rightarrow>
          map_prod Served id
            (case es_ai V of
               None \<Rightarrow> (HttpError 503 (''{'' @ quote_json ''error'' @ '':'' @ quote_json ''AI_AGENT_URL not configured'' @ ''}''), w)
             | Some (runner, suite) \<Rightarrow> makeEvalHandler (rp_args_text P) runner suite (eq_accept q) w)
      | CustomRoute \<Rightarrow>
          map_prod Served id (makeCustomEvalHandler (rp_args_text P) (rp_yaml P) (es_new V) (decode_first (eq_body q)) (eq_accept q) w)
      | CustomStreamRoute \<Rightarrow>
          map_prod Served id (makeCustomEvalStreamHandler (rp_args_text P) (rp_yaml P) (es_new V) (decode_first (eq_body q)) (eq_writer q) w)
      | ScenarioRoute \<Rightarrow>
          map_prod Served id (makeScenarioStreamHandler (rp_args_text P) (es_deps V) background (decode_first (eq_body q)) (eq_writer q) w))"

definition eval_ServeHTTP ::
  "'w runner_platform \<Rightarrow> 'w eval_service \<Rightarrow> eval_route mux \<Rightarrow> eval_http_request \<Rightarrow> 'w \<Rightarrow> served \<times> 'w" where
  "eval_ServeHTTP P V mux q w =
     (case mux_find (eq_method q) (eq_path q) mux of
        MuxHandler route \<Rightarrow> eval_dispatch P V route q w
      | other \<Rightarrow> (MuxAnswer other, w))"

text \<open>The table of the routes: \<open>GET /\<close> answers every path that no other pattern of \<open>GET\<close> has.\<close>

definition eval_post_routes :: "(string \<times> eval_route) list" where
  "eval_post_routes =
     [(''/run-eval'', RunEvalRoute), (''/run-eval/ai'', RunAiRoute), (''/run-eval/custom'', CustomRoute),
      (''/run-eval/custom/stream'', CustomStreamRoute), (''/run-scenario/stream'', ScenarioRoute)]"

definition eval_route_of :: "string \<Rightarrow> string \<Rightarrow> eval_route mux_result" where
  "eval_route_of q p =
     (if q = ''GET'' \<or> q = ''HEAD'' then
        MuxHandler (if p = ''/healthz'' then HealthzRoute else if p = ''/stack-health'' then StackHealthRoute else UiRoute)
      else
        (case map_of eval_post_routes p of
           None \<Rightarrow> MuxNotAllowed [''GET'', ''HEAD'']
         | Some route \<Rightarrow> if q = ''POST'' then MuxHandler route else MuxNotAllowed [''GET'', ''HEAD'', ''POST'']))"

definition eval_routes :: "eval_route mux" where
  "eval_routes = map (\<lambda>(s, r). (parse_pattern s, r)) eval_patterns"

lemma eval_mux_routes: "eval_mux = Ret eval_routes"
  by code_simp

lemma cleanPath_rooted: "has_prefix (cleanPath p) ''/''"
  by (simp add: cleanPath_def Let_def)

lemma eval_covers [simp]:
  "covers ''/run-eval'' p \<longleftrightarrow> p = ''/run-eval''" "covers ''/run-eval/ai'' p \<longleftrightarrow> p = ''/run-eval/ai''"
  "covers ''/run-eval/custom'' p \<longleftrightarrow> p = ''/run-eval/custom''"
  "covers ''/run-eval/custom/stream'' p \<longleftrightarrow> p = ''/run-eval/custom/stream''"
  "covers ''/run-scenario/stream'' p \<longleftrightarrow> p = ''/run-scenario/stream''" "covers ''/healthz'' p \<longleftrightarrow> p = ''/healthz''"
  "covers ''/stack-health'' p \<longleftrightarrow> p = ''/stack-health''" "has_prefix p ''/'' \<Longrightarrow> covers ''/'' p"
  by (auto simp: covers_def ends_slash_def)

lemma eval_routes_unfold:
  "eval_routes =
     [(\<lparr>pt_method = ''GET'', pt_path = ''/''\<rparr>, UiRoute), (\<lparr>pt_method = ''POST'', pt_path = ''/run-eval''\<rparr>, RunEvalRoute),
      (\<lparr>pt_method = ''POST'', pt_path = ''/run-eval/ai''\<rparr>, RunAiRoute),
      (\<lparr>pt_method = ''POST'', pt_path = ''/run-eval/custom''\<rparr>, CustomRoute),
      (\<lparr>pt_method = ''POST'', pt_path = ''/run-eval/custom/stream''\<rparr>, CustomStreamRoute),
      (\<lparr>pt_method = ''POST'', pt_path = ''/run-scenario/stream''\<rparr>, ScenarioRoute),
      (\<lparr>pt_method = ''GET'', pt_path = ''/healthz''\<rparr>, HealthzRoute),
      (\<lparr>pt_method = ''GET'', pt_path = ''/stack-health''\<rparr>, StackHealthRoute)]"
  by (simp add: eval_routes_def eval_patterns_def parse_pattern_def)

definition eval_get_route :: "string \<Rightarrow> mux_pattern \<times> eval_route" where
  "eval_get_route p =
     (if p = ''/healthz'' then (\<lparr>pt_method = ''GET'', pt_path = p\<rparr>, HealthzRoute)
      else if p = ''/stack-health'' then (\<lparr>pt_method = ''GET'', pt_path = p\<rparr>, StackHealthRoute)
      else (\<lparr>pt_method = ''GET'', pt_path = ''/''\<rparr>, UiRoute))"

lemma eval_longest:
  assumes "has_prefix p ''/''"
  shows "longest_match ''GET'' p eval_routes = Some (eval_get_route p)"
    "longest_match ''POST'' p eval_routes = map_option (\<lambda>r. (\<lparr>pt_method = ''POST'', pt_path = p\<rparr>, r)) (map_of eval_post_routes p)"
    "q \<noteq> ''GET'' \<Longrightarrow> q \<noteq> ''POST'' \<Longrightarrow> longest_match q p eval_routes = None"
  using assms by (simp_all add: longest_match_def eval_routes_unfold eval_get_route_def eval_post_routes_def)

lemma eval_tree:
  assumes "has_prefix p ''/''"
  shows "tree_match q p eval_routes =
    (if q = ''GET'' \<or> q = ''HEAD'' then Some (eval_get_route p)
     else if q = ''POST'' then map_option (\<lambda>r. (\<lparr>pt_method = ''POST'', pt_path = p\<rparr>, r)) (map_of eval_post_routes p) else None)"
  using eval_longest [OF assms] by (auto simp: tree_match_def split: option.splits)

lemma eval_methods:
  assumes "has_prefix p ''/''"
  shows "matching_methods p eval_routes =
    (if map_of eval_post_routes p = None then [''GET'', ''HEAD''] else [''GET'', ''HEAD'', ''POST''])"
proof -
  have "has_prefix (p @ ''/'') ''/''" using assms by (auto simp: has_prefix_iff)
  with assms show ?thesis
    by (auto simp: matching_methods_def eval_routes_unfold eval_post_routes_def ends_slash_def)
qed

lemma eval_mux_table:
  assumes "q \<noteq> ''CONNECT''"
  shows "mux_find q path eval_routes =
    (if path = ''*'' then MuxBadRequest else if cleanPath path \<noteq> path then MuxRedirect (cleanPath path) else eval_route_of q path)"
proof -
  let ?p = "cleanPath path"
  have p: "has_prefix ?p ''/''" "has_prefix (?p @ ''/'') ''/''" using cleanPath_rooted [of path] by (auto simp: has_prefix_iff)
  have "?p @ ''/'' \<noteq> ''/''" using cleanPath_rooted [of path] by auto
  moreover have "map_of eval_post_routes (x @ ''/'') = None" for x by (simp add: eval_post_routes_def)
  ultimately have "\<not> slash_redirect q ?p eval_routes"
    by (auto simp: slash_redirect_def eval_tree p eval_get_route_def)
  then have f: "mux_find q path eval_routes = (if path = ''*'' then MuxBadRequest else if ?p \<noteq> path then MuxRedirect ?p
      else case tree_match q ?p eval_routes of Some (_, h) \<Rightarrow> MuxHandler h
        | None \<Rightarrow> (case matching_methods ?p eval_routes of [] \<Rightarrow> MuxNotFound | ms \<Rightarrow> MuxNotAllowed ms))"
    using assms by (simp add: mux_find_def Let_def)
  have "(case tree_match q ?p eval_routes of Some (_, h) \<Rightarrow> MuxHandler h
        | None \<Rightarrow> (case matching_methods ?p eval_routes of [] \<Rightarrow> MuxNotFound | ms \<Rightarrow> MuxNotAllowed ms)) = eval_route_of q ?p"
  proof (cases "q = ''GET'' \<or> q = ''HEAD''")
    case True
    then show ?thesis by (simp add: eval_tree [OF p(1)] eval_route_of_def eval_get_route_def)
  next
    case False
    then show ?thesis
      unfolding eval_tree [OF p(1)] eval_methods [OF p(1)] eval_route_of_def
      by (cases "map_of eval_post_routes ?p"; cases "q = ''POST''") simp_all
  qed
  then have "mux_find q path eval_routes = (if path = ''*'' then MuxBadRequest else if ?p \<noteq> path then MuxRedirect ?p
      else eval_route_of q ?p)"
    unfolding f by (simp only:)
  then show ?thesis by simp
qed

section \<open>The lifetime of the stack and of the pool\<close>

text \<open>Printing and the cases leave the stack and the pool alone.\<close>

fun quiet :: "run_event \<Rightarrow> bool" where
  "quiet (EvPrint _) = True"
| "quiet (EvPrintErr _) = True"
| "quiet (EvCase _) = True"
| "quiet _ = False"

definition case_events :: "run_event list \<Rightarrow> string list" where
  "case_events es = concat (map (\<lambda>e. case e of EvCase n \<Rightarrow> [n] | _ \<Rightarrow> []) es)"

lemma case_events_simps [simp]:
  "case_events [] = []" "case_events (a @ b) = case_events a @ case_events b" "case_events (EvCase n # es) = n # case_events es"
  "case_events (EvPrint m # es) = case_events es" "case_events (EvPrintErr m # es) = case_events es"
  "case_events (EvUp b' # es) = case_events es" "case_events (EvDown b' # es) = case_events es"
  "case_events (EvOpen b' # es) = case_events es" "case_events (EvClose # es) = case_events es"
  by (simp_all add: case_events_def)

definition suite_trace :: "eval_case list \<Rightarrow> bool \<Rightarrow> run_event list \<Rightarrow> bool" where
  "suite_trace cs complete es =
     (list_all quiet es \<and> prefix (case_events es) (map ec_name cs) \<and> (complete \<longrightarrow> case_events es = map ec_name cs))"

lemma suite_trace_step:
  "suite_trace cs b es \<Longrightarrow> suite_trace (c # cs) b (EvPrint m # EvCase (ec_name c) # EvPrint m' # es)"
  by (simp add: suite_trace_def)

lemma run_suite_events:
  "run_suite D cfg cs rs s = (out, s') \<Longrightarrow> \<exists>es. fst s' = fst s @ es \<and> suite_trace cs (is_ret out) es"
proof (induction D cfg cs rs s arbitrary: out s' rule: run_suite.induct)
  case (1 D cfg rs s)
  then show ?case by (auto simp: suite_trace_def)
next
  case (2 D cfg c cs rs s)
  let ?s1 = "emit (EvCase (ec_name c)) (emit (EvPrint (''[RUN] '' @ ec_name c)) s)"
  obtain o1 w1 where o1: "rn_run D cfg c (snd ?s1) = (o1, w1)" by (metis prod.exhaust)
  have step: "\<exists>es. fst s' = fst s @ es \<and> suite_trace (c # cs) (is_ret out) es"
    if "\<exists>es. fst s' = fst (print_verdict r (fst ?s1, w1)) @ es \<and> suite_trace cs (is_ret out) es" for r
    using that suite_trace_step [of cs "is_ret out"] by (fastforce simp: emit_def print_verdict_def)
  show ?case
  proof (cases o1)
    case (Ret tr)
    with 2(1) [OF refl o1 [symmetric] Ret refl] 2(3) o1 show ?thesis by (intro step) (simp add: Let_def)
  next
    case (Fail e)
    with 2(2) [OF refl o1 [symmetric] Fail refl] 2(3) o1 show ?thesis by (intro step) (simp add: Let_def)
  next
    case (Panic m)
    with 2(3) o1 show ?thesis by (auto simp: emit_def suite_trace_def)
  qed
qed

text \<open>The events of a run once the stack is up, before the deferred \<open>Down\<close>.\<close>

definition opened_trace :: "run_event list \<Rightarrow> bool" where
  "opened_trace es =
     (es = [] \<or> (\<exists>m. es = [EvOpen False, EvPrintErr m]) \<or>
      (\<exists>body tail. es = EvOpen True # body @ tail \<and> list_all quiet body \<and> tail \<in> {[], [EvClose]}))"

definition down_trace :: "run_event list \<Rightarrow> bool" where
  "down_trace es = (es = [EvDown True] \<or> (\<exists>m. es = [EvDown False, EvPrintErr m]))"

lemma run_opened_events:
  assumes "run_opened D cfg suite s = (out, s')"
  shows "\<exists>es. fst s' = fst s @ es \<and> opened_trace es"
proof -
  obtain o1 w1 where o1: "rn_open D (el_dsn cfg) (snd s) = (o1, w1)" by (metis prod.exhaust)
  show ?thesis
  proof (cases o1)
    case (Ret has_db)
    obtain o2 s2 where r: "run_suite D cfg suite [] (emit (EvOpen True) (fst s, w1)) = (o2, s2)" by (metis prod.exhaust)
    from run_suite_events [OF r] obtain es where es: "fst s2 = fst s @ EvOpen True # es" "list_all quiet es"
      by (auto simp: emit_def suite_trace_def)
    define s3 where "s3 = (case o2 of Ret rs \<Rightarrow> emit (EvPrint (rn_report D rs)) s2 | _ \<Rightarrow> s2)"
    then have "\<exists>b. fst s3 = fst s @ EvOpen True # b \<and> list_all quiet b" using es by (cases o2) (auto simp: emit_def)
    then obtain b where b: "fst s3 = fst s @ EvOpen True # b" "list_all quiet b" by blast
    from assms o1 Ret r have s': "s' = (if has_db then emit EvClose (fst s3, rn_close D (snd s3)) else s3)" by (auto simp: run_opened_def s3_def Let_def)
    define tail where "tail = (if has_db then [EvClose] else [])"
    from b s' have "fst s' = fst s @ EvOpen True # b @ tail" by (simp add: emit_def tail_def)
    moreover have "opened_trace (EvOpen True # b @ tail)" using b(2) by (auto simp: opened_trace_def tail_def)
    ultimately show ?thesis by blast
  qed (use assms o1 in \<open>auto simp: run_opened_def emit_def opened_trace_def\<close>)
qed

lemma eval_run_cases:
  assumes "eval_run D w = (out, es, w')"
  obtains (stopped) "out \<noteq> Ret 0" "list_all (\<lambda>e. quiet e \<or> e = EvUp False) es" "case_events es = []"
  | (up) cfg path suite w1 out1 es1 w2 where "rn_config D = Ret cfg" "rn_look D ''docker'' = None"
      "resolveSuitePath (rn_args D) = Ret path" "rn_suite D path = Ret suite" "rn_up D cfg w = (None, w1)"
      "run_opened D cfg suite ([EvUp True], w1) = (out1, es1, w2)"
      "deferred_down D cfg (out1, es1, w2) = (out, es, w')"
proof (cases "\<exists>cfg path suite w1. rn_config D = Ret cfg \<and> rn_look D ''docker'' = None \<and>
    resolveSuitePath (rn_args D) = Ret path \<and> rn_suite D path = Ret suite \<and> rn_up D cfg w = (None, w1)")
  case True
  then obtain cfg path suite w1 where u: "rn_config D = Ret cfg" "rn_look D ''docker'' = None"
    "resolveSuitePath (rn_args D) = Ret path" "rn_suite D path = Ret suite" "rn_up D cfg w = (None, w1)" by blast
  obtain out1 es1 w2 where "run_opened D cfg suite ([EvUp True], w1) = (out1, es1, w2)" by (metis prod.exhaust)
  with u assms up show thesis by (simp add: eval_run_def emit_def)
next
  case False
  with assms stopped show thesis
    by (auto simp: eval_run_def print_err_def emit_def Let_def split: go.splits option.splits prod.splits)
qed


lemma run_suite_run_all:
  assumes "rn_run D cfg = run" "rn_evaluate D = eval_Evaluate txt"
  shows "run_all txt run cs w = (Ret rs', w2) \<Longrightarrow> \<exists>es2. run_suite D cfg cs rs (es, w) = (Ret (rs @ rs'), es2, w2)"
proof (induction cs arbitrary: rs es w rs')
  case (Cons c cs)
  from Cons.prems obtain r rs2 w1 where r: "runEvalCase txt run c w = (Ret r, w1)" "run_all txt run cs w1 = (Ret rs2, w2)"
    "rs' = r # rs2" by (rule run_all_cons)
  from r(1) obtain o1 where o1: "run c w = (o1, w1)" "\<not> is_panic o1"
    "r = (case o1 of Ret tr \<Rightarrow> eval_Evaluate txt c tr | Fail e \<Rightarrow> run_failed (ec_name c) (err_text e))"
    by (auto simp: runEvalCase_def split: prod.splits go.splits)
  from Cons.IH [OF r(2)] have "\<exists>es2. run_suite D cfg cs (rs @ [r]) (es', w1) = (Ret (rs @ rs'), es2, w2)" for es'
    by (simp add: r(3)) (metis append.assoc append_Cons append_Nil)
  with o1 assms show ?case
    by (cases o1) (simp_all add: emit_def print_verdict_def Let_def)
qed simp

lemma verdicts_exit: "ExitCode rs = (if er_passed (summarizeResults rs) then 0 else 1)"
  using ExitCode_cases [of rs] ExitCode_zero [of rs] by (auto simp: summarizeResults_def passed_count_all)

lemma run_exit_code:
  assumes "fst (eval_LoadConfig (rp_env P)) = Ret cfg" "rp_look P ''docker'' = None" "resolveSuitePath args = Ret path"
    and "LoadSuite (rp_yaml P) (rp_file P) path = Ret suite"
    and "orchestrated (orch_Up (rp_look P) (rp_exec P)) cfg w = (None, w1)"
    and "openPostgresPool (rp_pool P) (rp_ping P) (rp_close P) (el_dsn cfg) w1 = (Ret True, w2)"
    and "makeEvalHandler (rp_args_text P) (case_executor_of P (el_agent cfg)) suite ''application/json'' w2 = (JsonResults rep, w3)"
  shows "fst (eval_run (main_deps P args) w) =
    Ret (if er_passed rep \<and> fst (orchestrated (orch_Down (rp_look P) (rp_exec P)) cfg (rp_close P w3)) = None then 0 else 1)"
proof -
  let ?D = "main_deps P args"
  from assms(7) obtain rs where rs: "run_all (rp_args_text P) (case_executor_of P (el_agent cfg)) suite w2 = (Ret rs, w3)"
    "rep = summarizeResults rs"
    by (auto simp: makeEvalHandler_def split: prod.splits go.splits)
  have d: "rn_run ?D cfg = case_executor_of P (el_agent cfg)" "rn_evaluate ?D = eval_Evaluate (rp_args_text P)"
    by (simp_all add: main_deps_def)
  from run_suite_run_all [OF d rs(1), of "[]" "[EvUp True, EvOpen True]"] obtain es2 where
    s: "run_suite ?D cfg suite [] ([EvUp True, EvOpen True], w2) = (Ret rs, es2, w3)" by auto
  have "run_opened ?D cfg suite ([EvUp True], w1) =
      (Ret (ExitCode rs), es2 @ [EvPrint (GenerateReport rs), EvClose], rp_close P w3)"
    using s assms(6) by (simp add: run_opened_def main_deps_def emit_def)
  moreover have "ExitCode rs = (if er_passed rep then 0 else 1)" using verdicts_exit [of rs] by (simp add: rs(2))
  ultimately show ?thesis
    using assms(1-5) by (auto simp: eval_run_def main_deps_def deferred_down_def emit_def split: prod.splits option.splits)
qed

text \<open>
  C23. The two ways of running a suite agree: a run from the command line exits with 0 exactly when the service,
  asked for the same suite in the same state of the world, reports that it passed, and the stack then goes down
  without an error; otherwise it exits with 1.
\<close>

theorem command_line_and_service_agree:
  assumes "fst (eval_LoadConfig (rp_env P)) = Ret cfg" "rp_look P ''docker'' = None" "resolveSuitePath args = Ret path"
    and "LoadSuite (rp_yaml P) (rp_file P) path = Ret suite"
    and "orchestrated (orch_Up (rp_look P) (rp_exec P)) cfg w = (None, w1)"
    and "openPostgresPool (rp_pool P) (rp_ping P) (rp_close P) (el_dsn cfg) w1 = (Ret True, w2)"
    and "makeEvalHandler (rp_args_text P) (case_executor_of P (el_agent cfg)) suite ''application/json'' w2 = (JsonResults rep, w3)"
  shows "fst (eval_run (main_deps P args) w) =
    Ret (if er_passed rep \<and> fst (orchestrated (orch_Down (rp_look P) (rp_exec P)) cfg (rp_close P w3)) = None then 0 else 1)"
  by (rule run_exit_code [OF assms])

text \<open>\<open>EVAL_SKIP_COMPOSE\<close> does not do without \<open>docker\<close>: its absence ends every run with 1 before the setting is looked at.\<close>

lemma run_needs_docker:
  assumes "fst (eval_LoadConfig (rp_env P)) = Ret cfg" "rp_look P ''docker'' = Some e"
  shows "eval_run (main_deps P args) w = (Ret 1, [EvPrintErr ''docker not found in PATH''], w)"
  using assms by (simp add: eval_run_def main_deps_def print_err_def emit_def)

text \<open>An example: a suite of one case, and the audit log of a gateway that allowed its call.\<close>

definition demo_suite :: "bool \<Rightarrow> eval_suite" where
  "demo_suite bad = [(refund_case ''allow'')\<lparr>ec_must_not_include := (if bad then [''create_refund''] else [])\<rparr>]"

definition demo_platform :: "bool \<Rightarrow> goerr option \<Rightarrow> (audit_writer \<times> int) runner_platform" where
  "demo_platform bad down =
     \<lparr>rp_env = (\<lambda>n. if n = ''POSTGRES_DSN'' then ''pg'' else if n = ''AGENT_URL'' then ''http://agent'' else []),
      rp_look = (\<lambda>_. None), rp_exec = (\<lambda>_ args w. ((''ok'', if ''down'' \<in> set args then down else None), w)),
      rp_file = (\<lambda>_. Ret []), rp_yaml = (\<lambda>_. Ret (demo_suite bad)),
      rp_pool = (\<lambda>_ w. (None, w)), rp_ping = (\<lambda>w. (None, w)), rp_close = id,
      rp_eval = audit_env demo_agent, rp_args_text = (\<lambda>_. ''{}''), rp_parse_url = (\<lambda>_. None),
      rp_build = (\<lambda>_. None), rp_get = (\<lambda>_. Fail (EMsg ''refused'')), rp_dial = (\<lambda>_. None)\<rparr>"

definition demo_log :: "audit_writer \<times> int" where
  "demo_log = (demo_writer [demo_row ''allow''] [], 0)"

definition demo_result :: "bool \<Rightarrow> case_result" where
  "demo_result bad = eval_Evaluate (\<lambda>_. ''{}'') (hd (demo_suite bad)) [row_of (demo_row ''allow'')]"

lemma demo_result_passed [simp]: "cr_passed (demo_result bad) \<longleftrightarrow> \<not> bad"
  by (simp add: demo_result_def demo_suite_def refund_case_def demo_row_def row_of_def eval_Evaluate_def evaluateMustInclude_def
      evaluateMustNotInclude_def evaluatePolicyOutcome_def evaluateMustNotContainInArgs_def Let_def)

lemma demo_run: "runner_Run (audit_env demo_agent) base background (hd (demo_suite bad)) demo_log =
    Some (Ret [row_of (demo_row ''allow'')], demo_log)"
proof -
  obtain n where f: "audit_fuel auditPollTimeout auditPollInterval = Suc n" by (simp add: audit_fuel_def)
  have l: "session_trace ''s1'' (aw_table (fst demo_log)) = [row_of (demo_row ''allow'')]"
    by (simp add: session_trace_def demo_log_def demo_writer_def demo_row_def)
  have h: "last_is (ec_outcome (hd (demo_suite bad))) [row_of (demo_row ''allow'')]"
    by (simp add: last_is_def demo_suite_def refund_case_def row_of_def demo_row_def)
  show ?thesis by (simp add: runner_Run_def demo_trigger f l h)
qed

lemma demo_served:
  "makeEvalHandler (\<lambda>_. ''{}'') (case_executor_of (demo_platform bad down) ''http://agent'') (demo_suite bad) ''application/json'' demo_log =
     (JsonResults (summarizeResults [demo_result bad]), demo_log)"
proof -
  obtain c where c: "demo_suite bad = [c]" "hd (demo_suite bad) = c" by (simp add: demo_suite_def)
  have "case_executor_of (demo_platform bad down) url c demo_log = (Ret [row_of (demo_row ''allow'')], demo_log)" for url
    using demo_run [of _ bad] by (simp add: case_executor_of_def demo_platform_def returned_def c(2))
  then show ?thesis by (simp add: c(1) makeEvalHandler_def runEvalCase_def demo_result_def)
qed

lemma demo_start:
  fixes bad :: bool and down :: "goerr option"
  defines "P \<equiv> demo_platform bad down"
  obtains cfg where "fst (eval_LoadConfig (rp_env P)) = Ret cfg" "el_agent cfg = ''http://agent''" "rp_look P ''docker'' = None"
    "resolveSuitePath [] = Ret defaultSuitePath" "LoadSuite (rp_yaml P) (rp_file P) defaultSuitePath = Ret (demo_suite bad)"
    "orchestrated (orch_Up (rp_look P) (rp_exec P)) cfg demo_log = (None, demo_log)"
    "openPostgresPool (rp_pool P) (rp_ping P) (rp_close P) (el_dsn cfg) demo_log = (Ret True, demo_log)"
    "rp_args_text P = (\<lambda>_. ''{}'')" "rp_close P = id"
    "fst (orchestrated (orch_Down (rp_look P) (rp_exec P)) cfg demo_log) =
       map_option (EWrap ''docker compose down failed'') down"
proof -
  have c: "fst (eval_LoadConfig (rp_env P)) = Ret \<lparr>el_dsn = ''pg'', el_compose = defaultComposeFilePath, el_agent = ''http://agent'', el_skip = False\<rparr>"
    by (simp add: P_def demo_platform_def eval_LoadConfig_def envStringWithInfoNotice_def)
  have s: "LoadSuite (rp_yaml P) (rp_file P) defaultSuitePath = Ret (demo_suite bad)"
    by (simp add: P_def demo_platform_def LoadSuite_def LoadSuiteFromReader_def demo_suite_def check_case_def refund_case_def
        allowedPolicyOutcomes_def Let_def)
  show thesis
    by (rule that [OF c _ _ _ s])
      (simp_all add: P_def demo_platform_def resolveSuitePath_def orchestrated_def orch_Up_def orch_Down_def runCompose_def
        openPostgresPool_def NewOrchestrator_def defaultComposeFilePath_def split: option.splits)
qed

lemma demo_exit:
  fixes bad :: bool and down :: "goerr option"
  defines "P \<equiv> demo_platform bad down"
  assumes run: "\<And>cfg path suite w1 w2 rep w3. fst (eval_LoadConfig (rp_env P)) = Ret cfg \<Longrightarrow> rp_look P ''docker'' = None \<Longrightarrow>
      resolveSuitePath [] = Ret path \<Longrightarrow> LoadSuite (rp_yaml P) (rp_file P) path = Ret suite \<Longrightarrow>
      orchestrated (orch_Up (rp_look P) (rp_exec P)) cfg demo_log = (None, w1) \<Longrightarrow>
      openPostgresPool (rp_pool P) (rp_ping P) (rp_close P) (el_dsn cfg) w1 = (Ret True, w2) \<Longrightarrow>
      makeEvalHandler (rp_args_text P) (case_executor_of P (el_agent cfg)) suite ''application/json'' w2 = (JsonResults rep, w3) \<Longrightarrow>
      fst (eval_run (main_deps P []) demo_log) =
        Ret (if er_passed rep \<and> fst (orchestrated (orch_Down (rp_look P) (rp_exec P)) cfg (rp_close P w3)) = None then 0 else 1)"
  shows "fst (eval_run (main_deps P []) demo_log) = Ret (if \<not> bad \<and> down = None then 0 else 1)"
proof -
  obtain cfg where c: "fst (eval_LoadConfig (rp_env P)) = Ret cfg" "el_agent cfg = ''http://agent''" "rp_look P ''docker'' = None"
    "resolveSuitePath [] = Ret defaultSuitePath" "LoadSuite (rp_yaml P) (rp_file P) defaultSuitePath = Ret (demo_suite bad)"
    "orchestrated (orch_Up (rp_look P) (rp_exec P)) cfg demo_log = (None, demo_log)"
    "openPostgresPool (rp_pool P) (rp_ping P) (rp_close P) (el_dsn cfg) demo_log = (Ret True, demo_log)"
    "rp_args_text P = (\<lambda>_. ''{}'')" "rp_close P = id"
    "fst (orchestrated (orch_Down (rp_look P) (rp_exec P)) cfg demo_log) = map_option (EWrap ''docker compose down failed'') down"
    unfolding P_def by (rule demo_start)
  have v: "makeEvalHandler (rp_args_text P) (case_executor_of P (el_agent cfg)) (demo_suite bad) ''application/json'' demo_log =
      (JsonResults (summarizeResults [demo_result bad]), demo_log)"
    unfolding c(2,8) unfolding P_def by (rule demo_served)
  from run [OF c(1,3-7) v] show ?thesis
    by (simp add: c(9,10) summarizeResults_def passed_count_def split: if_splits)
qed

theorem command_line_and_service_agree_witness:
  "fst (eval_run (main_deps (demo_platform False None) []) demo_log) = Ret 0 \<and>
   fst (eval_run (main_deps (demo_platform True None) []) demo_log) = Ret 1 \<and>
   fst (eval_run (main_deps (demo_platform False (Some (EMsg ''exit status 1''))) []) demo_log) = Ret 1"
  using demo_exit [OF command_line_and_service_agree] by simp


end
