(* ===== verification/Mock_Lark.thy ===== *)
theory Mock_Lark
  imports Lark_Notifier
begin

text \<open>
  \<open>examples/mock-lark/main.go\<close>: the stand-in for Lark in the demonstrations. It answers the token and the
  message requests of the notifier and presses the Approve button of every card it is sent. SHA-256 is a
  parameter, as in the gateway's webhook; the pause of 50 ms before the press is not modelled. A member that occurs twice in an object is taken to be decoded afresh.
\<close>

section \<open>The card\<close>

text \<open>A \<open>map[string]string\<close>; a \<open>null\<close> gives the empty string.\<close>

fun decode_string_members :: "(string \<times> json) list \<Rightarrow> (string \<times> string) list \<Rightarrow> (string \<times> string) list option" where
  "decode_string_members [] m = Some m"
| "decode_string_members ((k, v) # kvs) m =
     (case decode_str v [] of None \<Rightarrow> None | Some s \<Rightarrow> decode_string_members kvs (map_put k s m))"

definition decode_string_map :: "json \<Rightarrow> (string \<times> string) list \<Rightarrow> (string \<times> string) list option" where
  "decode_string_map v m =
     (case v of JNull \<Rightarrow> Some [] | JObj kvs \<Rightarrow> decode_string_members kvs m | _ \<Rightarrow> None)"

fun decode_elements :: "(json \<Rightarrow> 'a option) \<Rightarrow> json list \<Rightarrow> 'a list option" where
  "decode_elements f [] = Some []"
| "decode_elements f (v # vs) =
     (case f v of None \<Rightarrow> None | Some x \<Rightarrow> map_option ((#) x) (decode_elements f vs))"

definition decode_slice :: "(json \<Rightarrow> 'a option) \<Rightarrow> json \<Rightarrow> 'a list option" where
  "decode_slice f v = (case v of JNull \<Rightarrow> Some [] | JArr vs \<Rightarrow> decode_elements f vs | _ \<Rightarrow> None)"

record card_element =
  ce_tag :: string
  ce_actions :: "(string \<times> string) list list"

definition button_field :: "string \<Rightarrow> json \<Rightarrow> (string \<times> string) list \<Rightarrow> (string \<times> string) list option" where
  "button_field k v m = (if key_is ''value'' k then decode_string_map v m else Some m)"

definition element_field :: "string \<Rightarrow> json \<Rightarrow> card_element \<Rightarrow> card_element option" where
  "element_field k v e =
     (if key_is ''tag'' k then map_option (\<lambda>s. e\<lparr>ce_tag := s\<rparr>) (decode_str v (ce_tag e))
      else if key_is ''actions'' k
      then map_option (\<lambda>xs. e\<lparr>ce_actions := xs\<rparr>) (decode_slice (\<lambda>x. decode_struct button_field x []) v)
      else Some e)"

definition card_field :: "string \<Rightarrow> json \<Rightarrow> card_element list \<Rightarrow> card_element list option" where
  "card_field k v es =
     (if key_is ''elements'' k
      then decode_slice (\<lambda>x. decode_struct element_field x \<lparr>ce_tag = [], ce_actions = []\<rparr>) v
      else Some es)"

text \<open>The first button of the first action element that has one.\<close>

fun first_button :: "card_element list \<Rightarrow> string" where
  "first_button [] = []"
| "first_button (e # es) =
     (if ce_tag e \<noteq> ''action'' then first_button es
      else (case ce_actions e of
              [] \<Rightarrow> first_button es
            | value # _ \<Rightarrow> the_default [] (map_of value ''ticket_id'')))"

definition extractTicketID :: "string \<Rightarrow> string go" where
  "extractTicketID msgBody =
     (case unmarshal_struct (one_string ''content'') (parse_json msgBody) [] of
        None \<Rightarrow> Fail (EWrap ''unmarshal message'' EJson)
      | Some content \<Rightarrow>
          (case unmarshal_struct card_field (parse_json content) [] of
             None \<Rightarrow> Fail (EWrap ''unmarshal card'' EJson)
           | Some es \<Rightarrow> Ret (first_button es)))"

section \<open>The handlers\<close>

record mock_lark =
  ml_gateway :: string
  ml_token :: string
  ml_sha256 :: "string \<Rightarrow> 8 word list"

definition handleTenantToken :: json where
  "handleTenantToken =
     JObj [(''code'', JNum (Lit (itoa 0))), (''msg'', JStr ''ok''), (''tenant_access_token'', JStr ''mock-tenant-token''),
           (''expire'', JNum (Lit (itoa 7200)))]"

definition computeSignature :: "(string \<Rightarrow> 8 word list) \<Rightarrow> string \<Rightarrow> string \<Rightarrow> string \<Rightarrow> string \<Rightarrow> string" where
  "computeSignature sha token ts nonce body = hex_bytes (sha (token @ ts @ nonce @ body))"

definition approve_payload :: "string \<Rightarrow> json" where
  "approve_payload ticket =
     JObj [(''open_id'', JStr ''ou_mock-user''),
           (''action'', JObj [(''tag'', JStr ''button''),
              (''value'', JObj [(''ticket_id'', JStr ticket), (''action'', JStr ''approve'')])])]"

text \<open>The signed request to \<open>/lark/actions\<close> at the time \<open>now\<close>, in seconds.\<close>

definition sendApproveAction :: "mock_lark \<Rightarrow> string \<Rightarrow> int \<Rightarrow> string \<times> lark_request" where
  "sendApproveAction M ticket now =
     (let ts = itoa now; nonce = ''mock-nonce-'' @ ts; body = marshal (approve_payload ticket)
      in (ml_gateway M @ ''/lark/actions'',
          \<lparr>wr_body = body, wr_read_err = None, wr_timestamp = ts, wr_nonce = nonce,
           wr_signature = computeSignature (ml_sha256 M) (ml_token M) ts nonce body\<rparr>))"

text \<open>The reply and the ticket the goroutine is started for, if any.\<close>

definition handleSendMessage :: "string go \<Rightarrow> (int \<times> string) \<times> string option" where
  "handleSendMessage body =
     (case body of
        Ret msg \<Rightarrow>
          (let ticket = (case extractTicketID msg of Ret t \<Rightarrow> t | _ \<Rightarrow> [])
           in ((200, marshal (JObj [(''code'', JNum (Lit (itoa 0))), (''msg'', JStr ''ok'')])),
               if ticket \<noteq> [] then Some ticket else None))
      | _ \<Rightarrow> ((400, ''bad request'' @ [CHR 10]), None))"

section \<open>Facts\<close>

lemma field_keys:
  "one_string ''content'' ''receive_id'' v x = Some x" "one_string ''content'' ''msg_type'' v x = Some x"
  "card_field ''config'' v es = Some es"
  "card_field ''elements'' v es = decode_slice (\<lambda>x. decode_struct element_field x \<lparr>ce_tag = [], ce_actions = []\<rparr>) v"
  "element_field ''text'' v e = Some e"
  "element_field ''tag'' (JStr s) e = Some (e\<lparr>ce_tag := s\<rparr>)"
  "element_field ''actions'' v e =
     map_option (\<lambda>xs. e\<lparr>ce_actions := xs\<rparr>) (decode_slice (\<lambda>x. decode_struct button_field x []) v)"
  "button_field ''tag'' v m = Some m" "button_field ''text'' v m = Some m" "button_field ''type'' v m = Some m"
  "button_field ''value'' v m = decode_string_map v m"
  by (simp_all add: one_string_def card_field_def element_field_def button_field_def key_eval decode_str_def)

lemma button_decodes:
  "decode_struct button_field (larkCardButton label ty ticket act) [] = Some [(''action'', act), (''ticket_id'', ticket)]"
  by (simp add: larkCardButton_def decode_struct_def field_keys decode_string_map_def button_value_def decode_str_def)

text \<open>The card the gateway sends has the ticket on its first button.\<close>

lemma card_ticket:
  "map_option first_button (unmarshal_struct card_field (Some (approval_card ticket txt)) []) = Some ticket"
  by (simp add: approval_card_def unmarshal_struct_def decode_struct_def [of card_field] decode_struct_def [of element_field]
      field_keys decode_slice_def button_decodes)

lemma card_printable: "printable ffmt maxNestingDepth (approval_card ticket txt)"
  by (simp add: approval_card_def larkCardButton_def larkCardText_def button_value_def maxNestingDepth_def)

lemma card_read:
  "utf8 ticket \<Longrightarrow> parse_json (marshal (approval_card ticket txt)) = Some (approval_card ticket (valid_bytes txt))"
  by (simp only: parse_json_text [OF card_printable])
    (simp add: approval_card_def larkCardButton_def larkCardText_def button_value_def utf8_def)

text \<open>The message embeds the text of the card in a string, which is valid whatever the call's arguments are.\<close>

lemma message_read:
  "\<exists>chat. parse_json (marshal (hq_body (message_request L c token ticket t))) =
     Some (JObj [(''receive_id'', JStr chat), (''msg_type'', JStr ''interactive''),
                 (''content'', JStr (marshal (approval_card ticket (card_text L t))))])"
proof -
  have "utf8 (marshal (approval_card ticket (card_text L t)))" by (rule utf8_json_text(1) [OF card_printable])
  moreover have "printable (\<lambda>_. []) maxNestingDepth (hq_body (message_request L c token ticket t))"
    by (simp add: message_request_def maxNestingDepth_def)
  ultimately show ?thesis
    by (intro exI [of _ "valid_bytes (lc_chat c)"], subst parse_json_text)
      (simp_all add: message_request_def utf8_def del: json_text.simps)
qed

lemma message_ticket:
  assumes "utf8 ticket"
  shows "extractTicketID (marshal (hq_body (message_request L c token ticket t))) = Ret ticket"
proof -
  obtain chat where m: "parse_json (marshal (hq_body (message_request L c token ticket t))) =
     Some (JObj [(''receive_id'', JStr chat), (''msg_type'', JStr ''interactive''),
                 (''content'', JStr (marshal (approval_card ticket (card_text L t))))])"
    using message_read by blast
  show ?thesis
    using card_ticket [of ticket "valid_bytes (card_text L t)"]
    by (auto simp: extractTicketID_def m card_read [OF assms] unmarshal_struct_def [of "one_string ''content''"]
        decode_struct_def [of "one_string ''content''"] field_keys one_string_key simp del: json_text.simps)
qed

lemma payload_decodes:
  "challenge_of (Some (approve_payload ticket)) = None"
  "\<exists>e. decode_envelope (Some (approve_payload ticket)) = Some e \<and>
     normalise e = ([], ''ou_mock-user'', \<lparr>ca_tag = ''button'', ca_value = \<lparr>av_ticket = ticket, av_action = ''approve''\<rparr>\<rparr>)"
  by (simp_all add: approve_payload_def challenge_of_def decode_envelope_def unmarshal_struct_def
      decode_struct_def [of challenge_field] decode_struct_def [of envelope_field] decode_struct_def [of action_field]
      decode_struct_def [of value_field] challenge_field_keys envelope_field_keys action_field_keys value_field_keys
      empty_envelope_def empty_action_def normalise_def)

lemma delta_near:
  assumes "\<bar>a - b\<bar> \<le> 300"
  shows "timestamp_delta a b \<le> larkReplayWindowSeconds"
proof -
  have "wrap64 (a - b) = a - b" "wrap64 (- (a - b)) = - (a - b)" using assms by (auto intro!: wrap64_id)
  with assms show ?thesis by (auto simp: timestamp_delta_def Let_def larkReplayWindowSeconds_def)
qed

text \<open>The press for a ticket is accepted and recorded.\<close>

lemma press_recorded:
  assumes "ticket \<noteq> []" and "utf8 ticket" and "wh_token H = ml_token M" and "wh_sha256 H = ml_sha256 M"
    and "\<bar>wh_now H w - now\<bar> \<le> 300" and "0 \<le> now" and "now < 2 ^ 62"
  shows "webhook_ServeHTTP H (snd (sendApproveAction M ticket now)) w = record_decision H ticket ''approved'' ''ou_mock-user'' w"
proof -
  let ?q = "snd (sendApproveAction M ticket now)"
  have q: "wr_read_err ?q = None" "wr_timestamp ?q = itoa now" "wr_body ?q = marshal (approve_payload ticket)"
    "wr_signature ?q = computeLarkSignature (ml_sha256 M) (ml_token M) (wr_timestamp ?q) (wr_nonce ?q) (wr_body ?q)"
    by (simp_all add: sendApproveAction_def Let_def computeSignature_def computeLarkSignature_def del: json_text.simps)
  have p: "parse_json (marshal (approve_payload ticket)) = Some (approve_payload ticket)"
    by (rule parse_marshal) (use assms(2) in \<open>simp add: readable_def approve_payload_def maxNestingDepth_def utf8_def\<close>)
  have "parse_int64 (itoa now) = Some now"
    by (rule parse_int64_itoa) (use assms(6,7) in \<open>simp_all add: int64_min_def int64_max_def\<close>)
  moreover have "itoa now \<noteq> []" by (simp add: itoa_def)
  ultimately have "authentic H ?q tok w" for tok
    using delta_near [OF assms(5)] q(4) assms(3,4) by (simp add: authentic_def q(2) del: parse_int64.simps)
  then have a: "lark_refusal H ?q tok w = None" for tok by (simp add: lark_refusal_None)
  from payload_decodes(2) [of ticket] obtain e where "decode_envelope (Some (approve_payload ticket)) = Some e"
    "normalise e = ([], ''ou_mock-user'', \<lparr>ca_tag = ''button'', ca_value = \<lparr>av_ticket = ticket, av_action = ''approve''\<rparr>\<rparr>)"
    by blast
  with assms(1) show ?thesis
    by (simp add: webhook_ServeHTTP_def q(1,3) p payload_decodes(1) lark_callback_def a route_action_def status_of_action_def
        del: json_text.simps)
qed

lemma card_pressed:
  "ticket \<noteq> [] \<Longrightarrow> utf8 ticket \<Longrightarrow>
   snd (handleSendMessage (Ret (marshal (hq_body (message_request L c token ticket t))))) = Some ticket"
  by (simp add: handleSendMessage_def message_ticket del: json_text.simps)

text \<open>An instance for examples.\<close>

definition demo_mock :: mock_lark where
  "demo_mock = \<lparr>ml_gateway = ''http://gw'', ml_token = ''tok'', ml_sha256 = (\<lambda>_. [])\<rparr>"

end
