(* ===== verification/Held_Call.thy ===== *)
theory Held_Call
  imports Gateway Mock_Lark
begin

text \<open>
  A held call from end to end, over the gateway, its webhook and the stand-in for Lark: the card of the call makes the mock press
  Approve, the callback records the approval and publishes it, the wait receives what was published and the call goes on.
\<close>

text \<open>What a subscriber of a channel receives of what a webhook did.\<close>

fun channel_messages :: "string \<Rightarrow> webhook_event list \<Rightarrow> string list" where
  "channel_messages ch [] = []"
| "channel_messages ch (WhPublish c m # l) = (if c = ch then m # channel_messages ch l else channel_messages ch l)"
| "channel_messages ch (WhUpdate i st u ok # l) = channel_messages ch l"

definition held_note :: "ctx \<Rightarrow> string \<Rightarrow> raw \<Rightarrow> ticket_record" where
  "held_note c tool args =
     \<lparr>tr_session = SessionIDFromContext c, tr_turn = TurnIDFromContext c, tr_tool = tool, tr_args = args, tr_expires = 0\<rparr>"

text \<open>The ticket store with the ticket of a held call.\<close>

definition with_ticket :: "string \<Rightarrow> ticket_record \<Rightarrow> ticket_store \<Rightarrow> ticket_store" where
  "with_ticket i r s =
     s\<lparr>ts_ids := tl (ts_ids s), ts_rows := map_put i \<lparr>row_rec = r, row_status = ''pending'', row_by = None\<rparr> (ts_rows s)\<rparr>"

lemma ts_insert_new:
  assumes "ts_faults s = []" "ts_ids s = i # is'" "map_of (ts_rows s) i = None" "tr_args r \<noteq> None"
  shows "ts_insert r s = (Ret i, with_ticket i r s)"
  using assms by (simp add: ts_insert_def next_fault_def with_ticket_def Let_def)

lemma gw_wait_signal:
  assumes "0 < half (sl_ttl (gd_locker D))" "gw_signals w = map BrMessage (''approved'' # ms) # rest"
  shows "gw_wait D c ticket sid tid w = (Ret \<lparr>ad_approved = True, ad_ticket = ticket\<rparr>, w\<lparr>gw_signals := rest\<rparr>)"
  using assms
  by (simp add: gw_wait_def WaitForDecision_def gw_bridge_def NewRedisApprovalBridge_def returned_def)

lemma gw_holds:
  assumes "req_method r = ''tools/call''" and "injected c r = Ret p1" and "parseToolCallParams p1 = Ret (tool, args)"
    and "fst (IncrementAndGet (SessionIDFromContext c) (TurnIDFromContext c) (gw_budget w)) \<le> pol_max_calls (gd_policy D)"
    and "Evaluate (gd_policy D) tool args = Ret d" "dec_action d = ActionApprovalRequired"
    and "ts_faults (gw_tickets w) = []" "ts_ids (gw_tickets w) = ticket # ids" "map_of (ts_rows (gw_tickets w)) ticket = None"
    and "0 < half (sl_ttl (gd_locker D))" "gw_signals w = map BrMessage (''approved'' # ms) # rest"
  obtains w2 where "pl_run (gw_pipeline D) c r w = gw_forward D c (r\<lparr>req_params := p1\<rparr>) w2"
    "gw_net w2 = gw_net w" "gw_forwarder w2 = gw_forwarder w" "gw_notes w2 = gw_notes w @ [(ticket, held_note c tool args)]"
    "gw_tickets w2 = with_ticket ticket (held_note c tool args\<lparr>tr_expires := gw_clock w + approval_window\<rparr>) (gw_tickets w)"
    "gw_audits w2 = gw_audits w @ [gate_record c tool args ''approvalRequired'' []]"
proof -
  define w1 where "w1 = gw_emit (LevelInfo, ''mcp request'', log_attrs c r) w"
  obtain n b where i: "IncrementAndGet (SessionIDFromContext c) (TurnIDFromContext c) (gw_budget w) = (n, b)"
    by (metis prod.exhaust)
  define w3 where "w3 = logDecision (gw_gate D) c ''approvalRequired'' tool
      (gw_write_audit (gate_record c tool args ''approvalRequired'' []) (w1\<lparr>gw_budget := b\<rparr>))"
  have w3: "gw_tickets w3 = gw_tickets w" "gw_clock w3 = gw_clock w" "gw_signals w3 = gw_signals w" "gw_notes w3 = gw_notes w"
      "gw_net w3 = gw_net w" "gw_forwarder w3 = gw_forwarder w"
      "gw_audits w3 = gw_audits w @ [gate_record c tool args ''approvalRequired'' []]"
    by (simp_all add: w3_def w1_def logDecision_def gw_emit_def gw_write_audit_def gw_audits_def written_append)
  let ?t = "held_note c tool args\<lparr>tr_expires := gw_clock w + approval_window\<rparr>"
  define w2 where "w2 = w3\<lparr>gw_tickets := with_ticket ticket ?t (gw_tickets w),
      gw_notes := gw_notes w @ [(ticket, held_note c tool args)], gw_signals := rest\<rparr>"
  have "args \<noteq> None" using parseToolCallParams_Ret [OF assms(3)] by blast
  then have "ts_insert ?t (gw_tickets w) = (Ret ticket, with_ticket ticket ?t (gw_tickets w))"
    by (intro ts_insert_new [OF assms(7-9)]) (simp add: held_note_def)
  moreover have "gw_wait D c ticket sid tid v = (Ret \<lparr>ad_approved = True, ad_ticket = ticket\<rparr>, v\<lparr>gw_signals := rest\<rparr>)"
    if "gw_signals v = gw_signals w" for sid tid v
    using gw_wait_signal [OF assms(10)] assms(11) that by metis
  moreover have "ge_now (gw_gate D) = gw_clock" by simp
  ultimately have "gate_approval (gw_gate D) tool args c (r\<lparr>req_params := p1\<rparr>) w3 = (Ret None, r\<lparr>req_params := p1\<rparr>, w2)"
    using w3 by (simp add: gate_approval_def gate_ticket_def held_note_def w2_def Let_def)
  moreover have "gw_budget w1 = gw_budget w" by (simp add: w1_def gw_emit_def)
  ultimately have "gate_handle (gw_gate D) (gd_policy D) c (r\<lparr>req_params := p1\<rparr>) w1 = (Ret None, r\<lparr>req_params := p1\<rparr>, w2)"
    using assms(1-6) i by (simp add: gate_handle_def gate_call_def gate_decide_def w3_def Let_def)
  with assms(1,2) have "pl_run (gw_pipeline D) c r w = gw_forward D c (r\<lparr>req_params := p1\<rparr>) w2"
    by (simp add: gw_run ContextInjector_Handle_def injected_def w1_def)
  then show thesis
    by (rule that) (use w3 in \<open>simp_all add: w2_def gw_audits_def\<close>)
qed

text \<open>The callback on the ticket: it is approved, and the approval is published on the channel of the ticket.\<close>

lemma decision_published:
  assumes "ts_faults s = []" "map_of (ts_rows s) ticket = Some row" "row_status row = ''pending''"
    and "record_decision (watched (gateway_webhook token sha now pub)) ticket ''approved'' user ([], (s, k, lg)) =
      (rep, (hooks, (s2, k2, lg2)))"
  shows "rp_status rep = 200 \<and> channel_messages (approval_channel ticket) hooks = [''approved''] \<and>
    ticket_status s2 ticket = Some ''approved''"
proof -
  let ?s = "s\<lparr>ts_rows := map_put ticket (row\<lparr>row_status := ''approved'', row_by := Some user\<rparr>) (ts_rows s)\<rparr>"
  have u: "ts_update_status ticket ''approved'' user s = (None, ?s)"
    using assms(1-3) by (simp add: ts_update_status_def next_fault_def ticket_statuses_def Let_def)
  obtain e k1 where "pub (''approvals:'' @ ticket) ''approved'' k = (e, k1)" by (metis prod.exhaust)
  with u assms(4) show ?thesis
    by (cases e)
      (auto simp: record_decision_def watched_def gateway_webhook_def NewLarkWebhookHandler_def json_reply_def
        approval_channel_def ticket_status_def Let_def)
qed

text \<open>
  C3. A held call that is approved runs, end to end: when the policy wants an approval and the ticket was inserted, the
  notification that is sent is the card of that ticket, the mock presses Approve for it, the callback is answered with 200, and the
  wait, which receives what the callback published on the ticket's channel, lets the call go to the upstream with its ids
  added, after the audit record; the ticket is then approved.
\<close>

theorem held_call_runs_after_press:
  assumes "req_method r = ''tools/call''" and "injected c r = Ret p1" and "parseToolCallParams p1 = Ret (tool, args)"
    and "fst (IncrementAndGet (SessionIDFromContext c) (TurnIDFromContext c) (gw_budget w)) \<le> pol_max_calls (gd_policy D)"
    and "Evaluate (gd_policy D) tool args = Ret d" and "dec_action d = ActionApprovalRequired"
    and "ts_faults (gw_tickets w) = []" and "ts_ids (gw_tickets w) = ticket # ids"
    and "map_of (ts_rows (gw_tickets w)) ticket = None" and "ticket \<noteq> []" and "utf8 ticket"
    and "0 < half (sl_ttl (gd_locker D))"
    and "handleSendMessage (Ret (marshal (hq_body (message_request L lc tok ticket (held_note c tool args))))) = (ack, Some pressed)"
    and "webhook_ServeHTTP (watched (gateway_webhook (ml_token M) (ml_sha256 M) now pub)) (snd (sendApproveAction M pressed t))
      ([], (with_ticket ticket (held_note c tool args\<lparr>tr_expires := gw_clock w + approval_window\<rparr>) (gw_tickets w), k, lg)) =
      (rep, (hooks, (s2, k2, lg2)))"
    and "\<bar>now k - t\<bar> \<le> 300" and "0 \<le> t" and "t < 2 ^ 62"
    and "gw_signals w = map BrMessage (channel_messages (approval_channel ticket) hooks) # rest"
  shows "rp_status rep = 200 \<and> ticket_status s2 ticket = Some ''approved'' \<and>
    (\<exists>w2. pl_run (gw_pipeline D) c r w = gw_forward D c (r\<lparr>req_params := p1\<rparr>) w2 \<and>
       gw_net w2 = gw_net w \<and> gw_forwarder w2 = gw_forwarder w \<and>
       gw_notes w2 = gw_notes w @ [(ticket, held_note c tool args)] \<and>
       gw_audits w2 = gw_audits w @ [gate_record c tool args ''approvalRequired'' []])"
proof -
  let ?H = "gateway_webhook (ml_token M) (ml_sha256 M) now pub"
  let ?s = "with_ticket ticket (held_note c tool args\<lparr>tr_expires := gw_clock w + approval_window\<rparr>) (gw_tickets w)"
  have p: "pressed = ticket" using assms(13) card_pressed [OF assms(10,11)] by (metis option.inject snd_conv)
  have H: "wh_token (watched ?H) = ml_token M" "wh_sha256 (watched ?H) = ml_sha256 M" "wh_now (watched ?H) ([], (?s, k, lg)) = now k"
    by (simp_all add: gateway_webhook_def NewLarkWebhookHandler_def)
  have "record_decision (watched ?H) ticket ''approved'' ''ou_mock-user'' ([], (?s, k, lg)) = (rep, (hooks, (s2, k2, lg2)))"
    using assms(14) press_recorded [OF assms(10,11) H(1,2) _ assms(16,17), of "([], (?s, k, lg))"] H(3) assms(15)
    by (simp add: p)
  from decision_published [OF _ _ _ this] assms(7)
  have o: "rp_status rep = 200" "channel_messages (approval_channel ticket) hooks = [''approved'']" "ticket_status s2 ticket = Some ''approved''"
    by (simp_all add: with_ticket_def)
  then have "gw_signals w = map BrMessage (''approved'' # []) # rest" using assms(18) by simp
  from gw_holds [OF assms(1-9,12) this] o(1,3) show ?thesis by metis
qed

text \<open>The witness: a refund of the example policy, held, pressed and forwarded.\<close>

definition held_request :: rpc_request where
  "held_request = twin_request (twin_arguments ''create_refund'' (JObj []) (JObj []))"

definition holding_gateway :: "(mem_state, (http_req \<times> http_resp go) list \<times> http_resp list) gateway" where
  "holding_gateway =
     demo_gateway\<lparr>gw_tickets := \<lparr>ts_rows = [], ts_faults = [], ts_ids = [''a1'']\<rparr>, gw_signals := [[BrMessage ''approved'']]\<rparr>"

theorem held_call_runs_after_press_witness:
  "\<exists>p1 w2. injected background held_request = Ret p1 \<and>
     pl_run (gw_pipeline demo_deps) background held_request holding_gateway =
       gw_forward demo_deps background (held_request\<lparr>req_params := p1\<rparr>) w2 \<and>
     gw_notes w2 = [(''a1'', held_note background ''create_refund'' (Some (JObj [])))]"
proof -
  let ?H = "gateway_webhook (ml_token demo_mock) (ml_sha256 demo_mock) (\<lambda>_. 1700000000) (\<lambda>ch m k. (None, k))"
  let ?L = "\<lparr>lh_transport = logged demo_transport, lh_text = (\<lambda>v. ''{}'')\<rparr>" and ?lc = "NewLarkClient ''app'' ''secret'' ''chat'' []"
  let ?n = "held_note background ''create_refund'' (Some (JObj []))"
  let ?s = "with_ticket ''a1'' (?n\<lparr>tr_expires := gw_clock holding_gateway + approval_window\<rparr>) (gw_tickets holding_gateway)"
  have r: "req_method held_request = ''tools/call''"
    "req_params held_request = Some (twin_arguments ''create_refund'' (JObj []) (JObj []))"
    by (simp_all add: held_request_def)
  obtain p1 where p: "injected background held_request = Ret p1" "parseToolCallParams p1 = Ret (''create_refund'', Some (JObj []))"
    using twin_injected(2) [OF r(2)] twin_parse(3) [of "''create_refund''"] by auto
  have g: "gw_budget holding_gateway = []" "gw_notes holding_gateway = []" "gw_tickets holding_gateway = \<lparr>ts_rows = [], ts_faults = [], ts_ids = [''a1'']\<rparr>"
    "gw_signals holding_gateway = [[BrMessage ''approved'']]" "half (sl_ttl (gd_locker demo_deps)) = 30000000000"
    by (simp_all add: holding_gateway_def demo_gateway_def demo_deps_def NewSessionLocker_def half_def)
  have m: "utf8 ''a1''" by (simp add: utf8_def)
  obtain ack where a: "handleSendMessage (Ret (marshal (hq_body (message_request ?L ?lc ''t'' ''a1'' ?n)))) = (ack, Some ''a1'')"
    using card_pressed [OF _ m, of ?L ?lc "''t''" ?n] by (metis list.distinct(1) prod.collapse)
  obtain rep hooks s2 k2 lg2 where h: "webhook_ServeHTTP (watched ?H) (snd (sendApproveAction demo_mock ''a1'' 1700000000)) ([], (?s, (), [])) =
      (rep, (hooks, (s2, k2, lg2)))"
    by (metis prod.exhaust)
  have "record_decision (watched ?H) ''a1'' ''approved'' ''ou_mock-user'' ([], (?s, (), [])) = (rep, (hooks, (s2, k2, lg2)))"
    using h press_recorded [of "''a1''" "watched ?H" demo_mock "([], (?s, (), []))" 1700000000] m
    by (simp add: gateway_webhook_def NewLarkWebhookHandler_def)
  from decision_published [OF _ _ _ this] have "channel_messages (approval_channel ''a1'') hooks = [''approved'']"
    by (simp add: with_ticket_def g)
  with held_call_runs_after_press [where D = demo_deps and w = holding_gateway and ids = "[]" and rest = "[]" and d = "\<lparr>dec_action = ActionApprovalRequired, dec_redact = []\<rparr>",
      OF r(1) p _ _ _ _ _ _ _ m _ a h]
  have "\<exists>w2. pl_run (gw_pipeline demo_deps) background held_request holding_gateway =
       gw_forward demo_deps background (held_request\<lparr>req_params := p1\<rparr>) w2 \<and> gw_notes w2 = [(''a1'', ?n)]"
    by (simp add: g first_of_turn demo_refund) blast
  with p(1) show ?thesis by blast
qed

end
