(* ===== verification/Mock_Slack.thy ===== *)
theory Mock_Slack
  imports Mock_Lark
begin

text \<open>
  \<open>examples/mock-slack/main.go\<close>: the stand-in for Slack, which presses the Approve button of a Block Kit
  message with a signed form. HMAC-SHA256 is a parameter; the pause of 50 ms before the press is not modelled. The
  gateway speaks the protocol of Lark: the theorems show that this mock finds no ticket in what the gateway
  sends, and that the gateway refuses what the mock sends.
\<close>

section \<open>The message\<close>

text \<open>A \<open>map[string]json.RawMessage\<close>; of repeated members the last counts.\<close>

definition decode_raw_map :: "json \<Rightarrow> (string \<times> json) list option" where
  "decode_raw_map v =
     (case v of
        JNull \<Rightarrow> Some []
      | JObj kvs \<Rightarrow> Some (fold (\<lambda>(k, x). map_put k x) kvs [])
      | _ \<Rightarrow> None)"

definition blocks_field :: "string \<Rightarrow> json \<Rightarrow> (string \<times> json) list list \<Rightarrow> (string \<times> json) list list option" where
  "blocks_field k v bs = (if key_is ''blocks'' k then decode_slice decode_raw_map v else Some bs)"

text \<open>A member of a block that is decoded as a string, empty when it is absent.\<close>

definition string_member :: "string \<Rightarrow> (string \<times> json) list \<Rightarrow> string option" where
  "string_member k b = (case map_of b k of None \<Rightarrow> Some [] | Some v \<Rightarrow> decode_str v [])"

fun slack_ticket :: "(string \<times> json) list list \<Rightarrow> string go" where
  "slack_ticket [] = Ret []"
| "slack_ticket (b # bs) =
     (if string_member ''type'' b \<noteq> Some ''actions'' then slack_ticket bs
      else (case (case map_of b ''elements'' of None \<Rightarrow> Some [] | Some v \<Rightarrow> decode_slice decode_raw_map v) of
              None \<Rightarrow> Fail EJson
            | Some [] \<Rightarrow> Ret []
            | Some (e # _) \<Rightarrow> (case string_member ''value'' e of None \<Rightarrow> Fail EJson | Some s \<Rightarrow> Ret s)))"

definition slack_extractTicketID :: "string \<Rightarrow> string go" where
  "slack_extractTicketID body =
     (case unmarshal_struct blocks_field (parse_json body) [] of
        None \<Rightarrow> Fail EJson
      | Some bs \<Rightarrow> slack_ticket bs)"

text \<open>The reply and the ticket the goroutine is started for, if any.\<close>

definition handleChatPostMessage :: "string go \<Rightarrow> (int \<times> string) \<times> string option" where
  "handleChatPostMessage body =
     (case body of
        Ret b \<Rightarrow>
          (let ticket = (case slack_extractTicketID b of Ret t \<Rightarrow> t | _ \<Rightarrow> [])
           in ((200, marshal (JObj [(''ok'', JBool True)])), if ticket \<noteq> [] then Some ticket else None))
      | _ \<Rightarrow> ((400, ''bad request'' @ [CHR 10]), None))"

section \<open>The press\<close>

definition signPayload :: "(string \<Rightarrow> string \<Rightarrow> 8 word list) \<Rightarrow> string \<Rightarrow> string \<Rightarrow> string \<Rightarrow> string" where
  "signPayload hmac secret timestamp body = ''v0='' @ hex_bytes (hmac secret (''v0:'' @ timestamp @ '':'' @ body))"

text \<open>\<open>url.QueryEscape\<close>.\<close>

definition unreserved :: "char \<Rightarrow> bool" where
  "unreserved c =
     (is_digit c \<or> (CHR ''a'' \<le> c \<and> c \<le> CHR ''z'') \<or> (CHR ''A'' \<le> c \<and> c \<le> CHR ''Z'') \<or> c \<in> set ''-_.~'')"

definition escape_query_char :: "char \<Rightarrow> string" where
  "escape_query_char c =
     (if unreserved c then [c] else if c = CHR '' '' then ''+''
      else CHR ''%'' # map to_upper_char (hex_byte (word_of_nat (byte c))))"

definition QueryEscape :: "string \<Rightarrow> string" where
  "QueryEscape s = concat (map escape_query_char s)"

definition slack_payload :: "string \<Rightarrow> json" where
  "slack_payload ticket =
     JObj [(''type'', JStr ''block_actions''), (''user'', JObj [(''id'', JStr ''mock-user'')]),
           (''actions'', JArr [JObj [(''action_id'', JStr ''approval_approve''), (''value'', JStr ticket)]])]"

definition slack_sendApproveAction ::
  "(string \<Rightarrow> string \<Rightarrow> 8 word list) \<Rightarrow> string \<Rightarrow> string \<Rightarrow> string \<Rightarrow> int \<Rightarrow> string \<times> (string \<times> string) list \<times> string" where
  "slack_sendApproveAction hmac gateway secret ticket now =
     (let body = ''payload='' @ QueryEscape (marshal (slack_payload ticket)); ts = itoa now
      in (gateway @ ''/slack/actions'',
          [(''Content-Type'', ''application/x-www-form-urlencoded''), (''X-Slack-Request-Timestamp'', ts),
           (''X-Slack-Signature'', signPayload hmac secret ts body)], body))"

section \<open>The form is read back\<close>

text \<open>\<open>url.QueryUnescape\<close>, as a receiver of the form applies it.\<close>

fun QueryUnescape :: "string \<Rightarrow> string option" where
  "QueryUnescape [] = Some []"
| "QueryUnescape (c # s) =
     (if c = CHR ''%'' then
        (case s of
           a # b # r \<Rightarrow>
             (case (hex_val a, hex_val b) of
                (Some i, Some j) \<Rightarrow> map_option ((#) (char_of (i * 16 + j))) (QueryUnescape r)
              | _ \<Rightarrow> None)
         | _ \<Rightarrow> None)
      else map_option ((#) (if c = CHR ''+'' then CHR '' '' else c)) (QueryUnescape s))"

lemma hex_val_upper:
  assumes "d < 16"
  shows "hex_val (to_upper_char (hex_digit d)) = Some d"
proof -
  have b: "byte (hex_digit d) = (if d < 10 then 48 + d else 87 + d)" using assms by (auto simp: hex_digit_def)
  have "byte (to_upper_char (hex_digit d)) = (if d < 10 then 48 + d else 55 + d)"
    using assms b by (simp add: to_upper_char_def less_eq_char_def split: if_splits)
  with assms show ?thesis by (auto simp: hex_val_def)
qed

lemma unescape_char: "QueryUnescape (escape_query_char c @ s) = map_option ((#) c) (QueryUnescape s)"
proof -
  have "\<not> unreserved (CHR ''%'')" "\<not> unreserved (CHR ''+'')" by code_simp+
  then have "unreserved c \<Longrightarrow> c \<noteq> CHR ''%'' \<and> c \<noteq> CHR ''+''" by auto
  moreover have "byte c div 16 < 16" using byte_less [of c] by (simp add: less_mult_imp_div_less)
  moreover have "char_of (byte c div 16 * 16 + byte c mod 16) = c" by simp
  ultimately show ?thesis
    using byte_less [of c] by (simp add: escape_query_char_def hex_byte_def hex_val_upper unat_of_nat)
qed

theorem query_roundtrip: "QueryUnescape (QueryEscape s) = Some s"
  by (induction s) (simp_all add: QueryEscape_def unescape_char)

section \<open>Against the gateway\<close>

lemma blocks_absent:
  "blocks_field ''receive_id'' v bs = Some bs" "blocks_field ''msg_type'' v bs = Some bs" "blocks_field ''content'' v bs = Some bs"
  by (simp_all add: blocks_field_def key_eval)

text \<open>A text that starts with a letter other than those of the literals is no JSON.\<close>

lemma payload_no_json: "parse_json (''payload='' @ s) = None"
  by (simp add: parse_json_def is_space_def begin_value_def is_digit_def digit_val_def scan_failed)

lemma card_presses_nothing:
  "handleChatPostMessage (Ret (marshal (hq_body (message_request L c token ticket t)))) =
      ((200, marshal (JObj [(''ok'', JBool True)])), None)"
proof -
  obtain chat where m: "parse_json (marshal (hq_body (message_request L c token ticket t))) =
     Some (JObj [(''receive_id'', JStr chat), (''msg_type'', JStr ''interactive''),
                 (''content'', JStr (marshal (approval_card ticket (card_text L t))))])"
    using message_read by blast
  have "slack_extractTicketID (marshal (hq_body (message_request L c token ticket t))) = Ret []"
    by (simp add: slack_extractTicketID_def m unmarshal_struct_def decode_struct_def blocks_absent del: json_text.simps)
  then show ?thesis by (simp add: handleChatPostMessage_def del: json_text.simps)
qed

text \<open>
  Neither direction works, even if the form reached the callback handler: the message of a held call makes it
  press nothing, and the form that it posts for a ticket, whatever its headers, is refused by the callback handler with
  400 and changes nothing but the log.
\<close>

theorem mock_slack_decides_nothing:
  assumes "wr_body q = snd (snd (slack_sendApproveAction hmac gateway secret ticket now))" and "wr_read_err q = None"
  shows "handleChatPostMessage (Ret (marshal (hq_body (message_request L c token ticket t)))) =
      ((200, marshal (JObj [(''ok'', JBool True)])), None) \<and>
    webhook_ServeHTTP H q w =
      (bad_request, wh_log H (LevelError, ''lark webhook: unmarshal payload failed'', [(''error'', LStr (err_text EJson))]) w)"
proof
  show "handleChatPostMessage (Ret (marshal (hq_body (message_request L c token ticket t)))) =
      ((200, marshal (JObj [(''ok'', JBool True)])), None)"
    by (rule card_presses_nothing)
  have "parse_json (wr_body q) = None"
    unfolding assms(1) by (simp add: slack_sendApproveAction_def Let_def payload_no_json [simplified] del: json_text.simps)
  then show "webhook_ServeHTTP H q w =
      (bad_request, wh_log H (LevelError, ''lark webhook: unmarshal payload failed'', [(''error'', LStr (err_text EJson))]) w)"
    using assms(2) by (simp add: webhook_ServeHTTP_def challenge_of_def decode_envelope_def unmarshal_struct_def)
qed

theorem mock_slack_decides_nothing_witness:
  "fst (webhook_ServeHTTP demo_webhook
     \<lparr>wr_body = snd (snd (slack_sendApproveAction (\<lambda>_ _. []) ''http://gw'' ''secret'' ''a1'' 1700000000)), wr_read_err = None,
      wr_timestamp = [], wr_nonce = [], wr_signature = []\<rparr> (demo_store, [])) = bad_request"
proof -
  let ?b = "snd (snd (slack_sendApproveAction (\<lambda>_ _. []) ''http://gw'' ''secret'' ''a1'' 1700000000))"
  let ?q = "\<lparr>wr_body = ?b, wr_read_err = None, wr_timestamp = [], wr_nonce = [], wr_signature = []\<rparr>"
  have "wr_body ?q = ?b" "wr_read_err ?q = None" by (simp_all del: json_text.simps)
  from mock_slack_decides_nothing [where H = demo_webhook and w = "(demo_store, [])", OF this, THEN conjunct2]
  show ?thesis by (simp del: json_text.simps)
qed

text \<open>The mock presses for the message it was written for.\<close>

definition block_kit :: "string \<Rightarrow> json" where
  "block_kit ticket =
     JObj [(''blocks'', JArr [JObj [(''type'', JStr ''section'')],
        JObj [(''type'', JStr ''actions''), (''elements'', JArr [JObj [(''type'', JStr ''button''), (''value'', JStr ticket)]])]])]"

lemma block_kit_pressed:
  assumes "utf8 ticket" "ticket \<noteq> []"
  shows "snd (handleChatPostMessage (Ret (marshal (block_kit ticket)))) = Some ticket"
proof -
  have "parse_json (marshal (block_kit ticket)) = Some (block_kit ticket)"
    by (rule parse_marshal) (use assms(1) in \<open>simp add: readable_def block_kit_def maxNestingDepth_def utf8_def\<close>)
  moreover have "blocks_field ''blocks'' v bs = decode_slice decode_raw_map v" for v bs by (simp add: blocks_field_def key_eval)
  ultimately have "slack_extractTicketID (marshal (block_kit ticket)) = Ret ticket"
    by (simp add: slack_extractTicketID_def unmarshal_struct_def decode_struct_def block_kit_def decode_slice_def decode_raw_map_def
        string_member_def decode_str_def del: json_text.simps)
  with assms(2) show ?thesis by (simp add: handleChatPostMessage_def del: json_text.simps)
qed

end
