(* ===== verification/Gateway_Http.thy ===== *)
theory Gateway_Http
  imports Gateway Serve_Mux Mock_Slack
begin

text \<open>
  The HTTP side of the gateway: the routes and the listener of \<open>server.go\<close>, what its handlers read of a request, and the
  webhook of \<open>main.go\<close> on the gateway's state. A request is anything a client can send: method, path, headers and
  body; the theorems are about all of them.
\<close>

section \<open>Requests\<close>

text \<open>The headers are those of the message in their order; the fields about the connection are what the handlers see of it: an error
  of reading the body, the cancellation of the request, whether the writer can flush and what the stream's loop receives.\<close>

record http_request =
  ht_method :: string
  ht_path :: string
  ht_headers :: "(string \<times> string) list"
  ht_body :: string
  ht_read_err :: "goerr option"
  ht_ctx_err :: "goerr option"
  ht_flusher :: bool
  ht_stream :: "stream_event list"

text \<open>\<open>textproto.CanonicalMIMEHeaderKey\<close>: a name with a byte that no header name has is left alone.\<close>

definition header_byte :: "char \<Rightarrow> bool" where
  "header_byte c =
     (is_digit c \<or> (CHR ''a'' \<le> c \<and> c \<le> CHR ''z'') \<or> (CHR ''A'' \<le> c \<and> c \<le> CHR ''Z'') \<or>
      c \<in> set (''!#$%&*+-.^_|~`'' @ [CHR 39]))"

fun canonical_header :: "bool \<Rightarrow> string \<Rightarrow> string" where
  "canonical_header upper [] = []"
| "canonical_header upper (c # s) =
     (if upper then to_upper_char c else to_lower_char c) # canonical_header (c = CHR ''-'') s"

definition CanonicalMIMEHeaderKey :: "string \<Rightarrow> string" where
  "CanonicalMIMEHeaderKey s = (if list_all header_byte s then canonical_header True s else s)"

definition header_get :: "http_request \<Rightarrow> string \<Rightarrow> string" where
  "header_get q name =
     the_default [] (map_of (map (map_prod CanonicalMIMEHeaderKey id) (ht_headers q)) (CanonicalMIMEHeaderKey name))"

definition mcpSessionIDHeader :: string where "mcpSessionIDHeader = ''Mcp-Session-Id''"

definition gateway_request_of :: "config \<Rightarrow> http_request \<Rightarrow> gateway_request" where
  "gateway_request_of cfg q =
     \<lparr>gq_body = ht_body q, gq_session = header_get q mcpSessionIDHeader,
      gq_turn = header_get q (cfg_turn_header cfg), gq_ctx_err = ht_ctx_err q\<rparr>"

definition lark_request_of :: "http_request \<Rightarrow> lark_request" where
  "lark_request_of q =
     \<lparr>wr_body = ht_body q, wr_read_err = ht_read_err q, wr_timestamp = header_get q ''X-Lark-Request-Timestamp'',
      wr_nonce = header_get q ''X-Lark-Request-Nonce'', wr_signature = header_get q ''X-Lark-Signature''\<rparr>"

section \<open>The server\<close>

datatype route = RouteMCPPost | RouteMCPGet | RouteMCPDelete | RouteLark

definition mcpRoutePath :: string where "mcpRoutePath = ''/mcp''"

definition NewServer :: "route mux go" where
  "NewServer =
     mux_register [(''POST '' @ mcpRoutePath, RouteMCPPost), (''GET '' @ mcpRoutePath, RouteMCPGet),
                   (''DELETE '' @ mcpRoutePath, RouteMCPDelete)] []"

definition SetWebhookHandler :: "'h option \<Rightarrow> route mux \<Rightarrow> route mux go" where
  "SetWebhookHandler handler mux =
     (case handler of None \<Rightarrow> Ret mux | Some _ \<Rightarrow> mux_handle ''POST /lark/actions'' RouteLark mux)"

definition approvalWriteTimeout :: int where "approvalWriteTimeout = 6 * minute"

record http_listener =
  ls_addr :: string
  ls_write_timeout :: int

definition httpServer :: "config \<Rightarrow> http_listener" where
  "httpServer cfg = \<lparr>ls_addr = '':'' @ itoa (cfg_port cfg), ls_write_timeout = approvalWriteTimeout\<rparr>"

section \<open>The gateway behind it\<close>

record ('k, 'n) http_gateway =
  hg_deps :: "('k, 'n) gateway_deps"
  hg_config :: config
  hg_sha256 :: "string \<Rightarrow> 8 word list"
  hg_publish :: "string \<Rightarrow> string \<Rightarrow> 'k \<Rightarrow> goerr option \<times> 'k"

text \<open>\<open>realRedisPublisher.Publish\<close>: the client's command, of which the error is returned.\<close>

definition realRedisPublisher_Publish ::
  "('k, 'n) http_gateway \<Rightarrow> string \<Rightarrow> string \<Rightarrow> ('k, 'n) gateway \<Rightarrow> goerr option \<times> ('k, 'n) gateway" where
  "realRedisPublisher_Publish H ch m = gw_on_redis (hg_publish H ch m)"

definition gw_webhook :: "('k, 'n) http_gateway \<Rightarrow> ('k, 'n) gateway webhook_env" where
  "gw_webhook H =
     NewLarkWebhookHandler (cfg_lark_token (hg_config H)) (hg_sha256 H) (\<lambda>w. gw_clock w div second)
       (\<lambda>i st b w. case ts_update_status i st b (gw_tickets w) of (e, s1) \<Rightarrow> (e, w\<lparr>gw_tickets := s1\<rparr>))
       (realRedisPublisher_Publish H) gw_emit"

definition gateway_mux :: "('k, 'n) http_gateway \<Rightarrow> route mux go" where
  "gateway_mux H = go_bind NewServer (SetWebhookHandler (Some (gw_webhook H)))"

text \<open>\<open>newGatewayServer\<close>, the server of the tests: no gate, no guard and no audit.\<close>

definition newGatewayServer :: "('k, 'n) gateway_deps \<Rightarrow> ('k, 'n) gateway server_env" where
  "newGatewayServer D =
     \<lparr>sv_pipeline = Some (pl_use (pl_use \<lparr>pl_handlers = [], pl_terminal = gw_forward D\<rparr>
        (RequestLogger_Handle gw_emit)) ContextInjector_Handle),
      sv_guard = None, sv_forwarder = Some (gw_forward D), sv_audit = None, sv_log = gw_emit,
      sv_rand = gw_next_rand, sv_now = gw_clock\<rparr>"

datatype http_answer =
    AnMcp "string option" gateway_reply
  | AnStream get_reply
  | AnLark http_reply
  | AnMux "route mux_result"

text \<open>\<open>ServeHTTP\<close> of the server: the mux finds the handler, or answers itself. The panics of the handlers of
  \<open>/mcp\<close> are recovered in \<open>server_ServeHTTP\<close>; the other handlers have none.\<close>

definition gateway_ServeHTTP ::
  "('k, 'n) http_gateway \<Rightarrow> route mux \<Rightarrow> http_request \<Rightarrow> ('k, 'n) gateway server_state \<Rightarrow>
   http_answer \<times> ('k, 'n) gateway server_state" where
  "gateway_ServeHTTP H mux q s =
     (let V = gw_server (hg_deps H); g = gateway_request_of (hg_config H) q
      in case mux_find (ht_method q) (ht_path q) mux of
           MuxHandler RouteMCPPost \<Rightarrow>
             (case server_ServeHTTP V MPost g s of (hdr, rep, s1) \<Rightarrow> (AnMcp hdr rep, s1))
         | MuxHandler RouteMCPDelete \<Rightarrow>
             (case server_ServeHTTP V MDelete g s of (hdr, rep, s1) \<Rightarrow> (AnMcp hdr rep, s1))
         | MuxHandler RouteMCPGet \<Rightarrow> (AnStream (handleMCPGet g (ht_flusher q) (ht_stream q) s), s)
         | MuxHandler RouteLark \<Rightarrow>
             (case webhook_ServeHTTP (gw_webhook H) (lark_request_of q) (ss_world s) of
                (rep, w1) \<Rightarrow> (AnLark rep, s\<lparr>ss_world := w1\<rparr>))
         | other \<Rightarrow> (AnMux other, s))"

fun http_serve_all :: "('k, 'n) http_gateway \<Rightarrow> route mux \<Rightarrow> http_request list \<Rightarrow> ('k, 'n) gateway server_state \<Rightarrow>
    http_answer list \<times> ('k, 'n) gateway server_state" where
  "http_serve_all H mux [] s = ([], s)"
| "http_serve_all H mux (q # qs) s =
     (case gateway_ServeHTTP H mux q s of
        (a, s1) \<Rightarrow> (case http_serve_all H mux qs s1 of (as, s2) \<Rightarrow> (a # as, s2)))"

section \<open>The routes\<close>

definition gateway_routes :: "route mux" where
  "gateway_routes =
     [(\<lparr>pt_method = ''POST'', pt_path = ''/mcp''\<rparr>, RouteMCPPost), (\<lparr>pt_method = ''GET'', pt_path = ''/mcp''\<rparr>, RouteMCPGet),
      (\<lparr>pt_method = ''DELETE'', pt_path = ''/mcp''\<rparr>, RouteMCPDelete),
      (\<lparr>pt_method = ''POST'', pt_path = ''/lark/actions''\<rparr>, RouteLark)]"

lemma routes_disjoint:
  "\<not> conflicts \<lparr>pt_method = ''GET'', pt_path = ''/mcp''\<rparr> \<lparr>pt_method = ''POST'', pt_path = ''/mcp''\<rparr>"
  "\<not> conflicts \<lparr>pt_method = ''DELETE'', pt_path = ''/mcp''\<rparr> \<lparr>pt_method = ''POST'', pt_path = ''/mcp''\<rparr>"
  "\<not> conflicts \<lparr>pt_method = ''DELETE'', pt_path = ''/mcp''\<rparr> \<lparr>pt_method = ''GET'', pt_path = ''/mcp''\<rparr>"
  "\<not> conflicts \<lparr>pt_method = ''POST'', pt_path = ''/lark/actions''\<rparr> \<lparr>pt_method = m, pt_path = ''/mcp''\<rparr>"
  by (simp_all add: conflicts_def compare_patterns_def compare_methods_def compare_paths_def covers_def ends_slash_def)

lemma gateway_mux_routes: "gateway_mux H = Ret gateway_routes"
  by (simp add: gateway_mux_def NewServer_def SetWebhookHandler_def mux_handle_def parse_pattern_def mcpRoutePath_def
      routes_disjoint gateway_routes_def)

text \<open>Registering the webhook a second time panics.\<close>

lemma webhook_registered_once: "SetWebhookHandler (Some h) gateway_routes = Panic m \<longleftrightarrow> m = ''pattern '' @ go_quote ''POST /lark/actions'' @ '' conflicts''"
  by (auto simp: SetWebhookHandler_def mux_handle_def parse_pattern_def gateway_routes_def conflicts_def compare_patterns_def
      compare_methods_def compare_paths_def)

definition gateway_route :: "string \<Rightarrow> string \<Rightarrow> route mux_result" where
  "gateway_route q p =
     (if p = ''/mcp'' then
        (if q = ''POST'' then MuxHandler RouteMCPPost
         else if q = ''GET'' \<or> q = ''HEAD'' then MuxHandler RouteMCPGet
         else if q = ''DELETE'' then MuxHandler RouteMCPDelete
         else MuxNotAllowed [''DELETE'', ''GET'', ''HEAD'', ''POST''])
      else if p = ''/lark/actions'' then
        (if q = ''POST'' then MuxHandler RouteLark else MuxNotAllowed [''POST''])
      else MuxNotFound)"

lemma gateway_covers: "covers ''/mcp'' p \<longleftrightarrow> p = ''/mcp''" "covers ''/lark/actions'' p \<longleftrightarrow> p = ''/lark/actions''"
  by (simp_all add: covers_def ends_slash_def)

lemma gateway_tree:
  "tree_match q p gateway_routes =
     (case gateway_route q p of
        MuxHandler RouteMCPPost \<Rightarrow> Some (\<lparr>pt_method = ''POST'', pt_path = ''/mcp''\<rparr>, RouteMCPPost)
      | MuxHandler RouteMCPGet \<Rightarrow> Some (\<lparr>pt_method = ''GET'', pt_path = ''/mcp''\<rparr>, RouteMCPGet)
      | MuxHandler RouteMCPDelete \<Rightarrow> Some (\<lparr>pt_method = ''DELETE'', pt_path = ''/mcp''\<rparr>, RouteMCPDelete)
      | MuxHandler RouteLark \<Rightarrow> Some (\<lparr>pt_method = ''POST'', pt_path = ''/lark/actions''\<rparr>, RouteLark)
      | _ \<Rightarrow> None)"
  by (simp add: tree_match_def longest_match_def gateway_routes_def gateway_covers gateway_route_def)

lemma no_slash_redirect: "\<not> slash_redirect q p gateway_routes"
  by (simp add: slash_redirect_def gateway_tree gateway_route_def)

lemma gateway_routed:
  "mux_find q path gateway_routes =
     (if path = ''*'' then MuxBadRequest
      else if q \<noteq> ''CONNECT'' \<and> cleanPath path \<noteq> path then MuxRedirect (cleanPath path)
      else gateway_route q path)"
proof -
  have m: "matching_methods ''/mcp'' gateway_routes = [''DELETE'', ''GET'', ''HEAD'', ''POST'']"
    "matching_methods ''/lark/actions'' gateway_routes = [''POST'']"
    by (simp_all add: matching_methods_def gateway_routes_def gateway_covers)
  have n: "p \<noteq> ''/mcp'' \<Longrightarrow> p \<noteq> ''/lark/actions'' \<Longrightarrow> matching_methods p gateway_routes = []" for p
    by (simp add: matching_methods_def gateway_routes_def gateway_covers ends_slash_def)
  show ?thesis
    by (auto simp: mux_find_def no_slash_redirect gateway_tree gateway_route_def m n Let_def)
qed

text \<open>
  The routes: whatever the method and the path, the gateway's mux answers as the table says. A request of
  \<open>/mcp\<close> goes to the handler of its method, \<open>HEAD\<close> to that of \<open>GET\<close>, one of \<open>/lark/actions\<close> to the webhook if
  it is a \<open>POST\<close>; other methods are refused with the methods that are allowed, other paths are not found, and a path that is not
  clean is redirected.
\<close>

theorem gateway_mux_table:
  "\<exists>mux. gateway_mux H = Ret mux \<and>
     mux_find q path mux =
       (if path = ''*'' then MuxBadRequest
        else if q \<noteq> ''CONNECT'' \<and> cleanPath path \<noteq> path then MuxRedirect (cleanPath path)
        else gateway_route q path)"
  by (simp add: gateway_mux_routes gateway_routed)

section \<open>What a request of \<open>/mcp\<close> does\<close>

text \<open>The guard's locks, the random bytes and the log do not matter for what follows.\<close>

definition gw_quiet :: "('k, 'n) gateway \<Rightarrow> ('k, 'n) gateway \<Rightarrow> bool" where
  "gw_quiet w v = (v = w\<lparr>gw_redis := gw_redis v, gw_rand := gw_rand v, gw_log := gw_log v\<rparr>)"

lemma gw_quiet_refl [simp]: "gw_quiet w w"
  by (simp add: gw_quiet_def)

lemma gw_quiet_trans: "gw_quiet a b \<Longrightarrow> gw_quiet b c \<Longrightarrow> gw_quiet a c"
  by (cases a; cases b; cases c) (simp add: gw_quiet_def)

lemma gw_quiet_steps [simp]:
  "gw_quiet w (w\<lparr>gw_redis := k\<rparr>)" "gw_quiet w (w\<lparr>gw_rand := x\<rparr>)" "gw_quiet w (gw_emit y w)"
  by (simp_all add: gw_quiet_def gw_emit_def)

lemma gw_quiet_on_redis [simp]: "gw_quiet w (snd (gw_on_redis f w))"
  by (simp add: gw_on_redis_def split: prod.splits)

lemma gw_quiet_rand [simp]: "gw_quiet w (snd (gw_next_rand w))"
  by (simp add: gw_next_rand_def split: list.splits)

lemma gw_quiet_fields:
  assumes "gw_quiet w v"
  shows "gw_budget v = gw_budget w" "gw_audit v = gw_audit w" "gw_tickets v = gw_tickets w" "gw_forwarder v = gw_forwarder w"
    "gw_net v = gw_net w" "gw_signals v = gw_signals w" "gw_audits v = gw_audits w" "gw_clock v = gw_clock w"
  using assms by (cases w; cases v; simp add: gw_quiet_def gw_audits_def)+

definition quiet_around :: "rpc_request \<times> ('k, 'n) gateway \<Rightarrow> rpc_request \<times> ('k, 'n) gateway \<Rightarrow> bool" where
  "quiet_around a b = (fst b = fst a \<and> gw_quiet (snd a) (snd b))"

lemma quiet_around_with_request:
  "(\<And>w. gw_quiet w (snd (f w))) \<Longrightarrow> quiet_around rw (snd (with_request f rw))"
  by (simp add: with_request_def quiet_around_def case_prod_beta)

lemma gw_quiet_rand_then: "gw_quiet w (snd (case gw_next_rand w of (b, w1) \<Rightarrow> gw_on_redis (f b) w1))"
  using gw_quiet_trans [OF gw_quiet_rand gw_quiet_on_redis] by (simp add: case_prod_beta)

interpretation guarded: guard_frame "guard_with_request (gw_guard D)" quiet_around
proof unfold_locales
  show "quiet_around w w" for w :: "rpc_request \<times> ('a, 'b) gateway" by (simp add: quiet_around_def)
  show "quiet_around w w2" if "quiet_around w w1" "quiet_around w1 w2" for w w1 w2 :: "rpc_request \<times> ('a, 'b) gateway"
    using that gw_quiet_trans by (fastforce simp: quiet_around_def)
qed (simp_all add: guard_with_request_def gw_guard_def quiet_around_with_request gw_quiet_rand_then)

lemma gw_server_simps [simp]:
  "sv_pipeline (gw_server D) = Some (gw_pipeline D)" "sv_guard (gw_server D) = Some (gw_guard D)"
  "sv_forwarder (gw_server D) = Some (gw_forward D)" "sv_audit (gw_server D) = Some gw_write_audit"
  "sv_log (gw_server D) = gw_emit" "sv_rand (gw_server D) = gw_next_rand" "sv_now (gw_server D) = gw_clock"
  by (simp_all add: gw_server_def)

lemma gw_runPipeline:
  assumes "runPipeline (gw_server D) (gw_pipeline D) sid tool c r w = (out, r1, w1)"
  obtains (kept) "gw_quiet w w1"
  | (ran) wa o2 wb where "gw_quiet w wa" "pl_run (gw_pipeline D) c r wa = (o2, r1, wb)" "gw_quiet wb w1"
proof -
  from assms have "guard_Execute (guard_with_request (gw_guard D)) c sid (TurnIDFromContext c) tool
      (run_on (gw_pipeline D) c) (r, w) = (out, (r1, w1))"
    by (auto simp: runPipeline_def split: prod.splits)
  from guarded.execute_around [OF this] show thesis
    using that unfolding around_def quiet_around_def
    by (auto simp: run_on_def split: prod.splits)
qed

text \<open>The log entry and the \<open>upstream_error\<close> record of a call.\<close>

definition late_records :: "audit_record list \<Rightarrow> bool" where
  "late_records xs = (xs = [] \<or> (\<exists>x. xs = [x] \<and> au_decision x = ''upstream_error''))"

definition gw_closed :: "('k, 'n) gateway \<Rightarrow> ('k, 'n) gateway \<Rightarrow> bool" where
  "gw_closed w v = (\<exists>xs. late_records xs \<and> gw_quiet (w\<lparr>gw_audit := gw_audit w @ map AuWrite xs\<rparr>) v)"

lemma gw_closed_quiet: "gw_quiet w v \<Longrightarrow> gw_closed w v"
  by (auto simp: gw_closed_def late_records_def intro!: exI [of _ "[]"])

lemma log_call_quiet: "gw_quiet w (log_call (gw_server D) c r resp err w)"
  by (simp add: log_call_def)

lemma refuse_call_quiet: "gw_quiet (ss_world s) (ss_world (snd (refuse_call (gw_server D) c r code msg s)))"
  by (simp add: refuse_call_def log_call_quiet)

lemma call_failed_closed: "gw_closed (ss_world s) (ss_world (snd (call_failed (gw_server D) c sid tool args r e s)))"
proof -
  define x where "x = \<lparr>au_session = sid, au_turn = TurnIDFromContext c, au_tool = tool, au_args = args,
      au_decision = ''upstream_error'', au_reason = err_text e\<rparr>"
  define w1 where "w1 = log_call (gw_server D) c r None (Some e) (ss_world s)"
  have w1: "gw_quiet (ss_world s) w1" by (simp add: w1_def log_call_quiet)
  have "ss_world (snd (call_failed (gw_server D) c sid tool args r e s)) \<in> {w1, gw_write_audit x w1}"
    by (auto simp: call_failed_def Let_def w1_def x_def split: option.splits)
  moreover from w1 have "gw_closed (ss_world s) w1" by (rule gw_closed_quiet)
  moreover have "gw_closed (ss_world s) (gw_write_audit x w1)"
    unfolding gw_closed_def
    by (rule exI [of _ "[x]"], cases "ss_world s", cases w1)
      (use w1 in \<open>simp add: late_records_def gw_quiet_def gw_write_audit_def x_def\<close>)
  ultimately show ?thesis by auto
qed

lemma call_answered_closed: "gw_closed (ss_world s) (ss_world (snd (call_answered (gw_server D) c r resp s)))"
  by (simp add: call_answered_def gw_closed_quiet log_call_quiet)

definition called_tool :: "rpc_request \<Rightarrow> string \<times> raw" where
  "called_tool r =
     (if req_method r = ''tools/call'' then (case parseToolCallParams (req_params r) of Ret x \<Rightarrow> x | _ \<Rightarrow> ([], None)) else ([], None))"

lemma handleCall_after:
  assumes "handleCall (gw_server D) (gw_pipeline D) sid c r s = (rep, s')"
    and r: "runPipeline (gw_server D) (gw_pipeline D) sid (fst (called_tool r)) c r (ss_world s) = (out, r1, w1)"
  shows "gw_closed w1 (ss_world s')"
proof -
  obtain tool args where t: "called_tool r = (tool, args)" by (metis prod.exhaust)
  have "ss_world s' = w1 \<or> (\<exists>e. s' = snd (call_failed (gw_server D) c sid tool args r1 e (s\<lparr>ss_world := w1\<rparr>))) \<or>
      (\<exists>resp. s' = snd (call_answered (gw_server D) c r1 resp (s\<lparr>ss_world := w1\<rparr>)))"
    using assms t by (cases out) (auto simp: handleCall_def called_tool_def Let_def split: prod.splits, metis snd_conv, metis snd_conv)
  then show ?thesis
    using call_failed_closed [of "s\<lparr>ss_world := w1\<rparr>" D c sid tool args r1] call_answered_closed [of "s\<lparr>ss_world := w1\<rparr>" D c r1]
      gw_closed_quiet [of w1 w1] by auto
qed

lemma handleCall_world:
  assumes "handleCall (gw_server D) (gw_pipeline D) sid c r s = (rep, s')"
  obtains tool out r1 w1 where "runPipeline (gw_server D) (gw_pipeline D) sid tool c r (ss_world s) = (out, r1, w1)"
    "gw_closed w1 (ss_world s')"
  using handleCall_after [OF assms] by (metis prod.exhaust)

lemma requestContext_quiet:
  assumes "requestContext (gw_server D) g sid w = (out, w1)"
  shows "gw_quiet w w1 \<and> (\<forall>c. out = Ret c \<longrightarrow> SessionIDFromContext c = sid \<and> (gq_turn g \<noteq> [] \<longrightarrow> TurnIDFromContext c = gq_turn g))"
proof -
  have "gw_quiet w v" if "gw_next_rand w = (x, v)" for x v using gw_quiet_rand [of w] that by simp
  with assms show ?thesis
  by (auto simp: requestContext_def Let_def go_simps WithTurnID_def WithSessionID_def SessionIDFromContext_def TurnIDFromContext_def
      split: prod.splits if_splits)
qed

lemma initialize_world:
  assumes "handleInitialize (gw_server D) g r s = (hdr, rep, s')"
  shows "gw_quiet (ss_world s) (ss_world s') \<or>
    (\<exists>c w1 out r1. gw_quiet (ss_world s) w1 \<and> gw_forward D c r w1 = (out, r1, ss_world s'))"
proof -
  obtain rand w1 where w1: "gw_next_rand (ss_world s) = (rand, w1)" by (metis prod.exhaust)
  with gw_quiet_rand [of "ss_world s"] have q: "gw_quiet (ss_world s) w1" by simp
  obtain o1 reg where c: "sr_Create rand (gw_clock w1) (ss_sessions s) = (o1, reg)" by (metis prod.exhaust)
  show ?thesis
  proof (cases o1)
    case (Ret se)
    obtain out r1 w2 where f: "gw_forward D (background\<lparr>ctx_err := gq_ctx_err g\<rparr>) r w1 = (out, r1, w2)" by (metis prod.exhaust)
    with assms w1 c Ret have "ss_world s' = w2"
      by (cases out) (auto simp: handleInitialize_def writeInitializeResponse_def split: option.splits)
    with q f show ?thesis by auto
  qed (use assms w1 c q in \<open>auto simp: handleInitialize_def\<close>)
qed

lemma post_cases:
  assumes "handleMCPPost (gw_server D) g s = (hdr, rep, s')"
  obtains (quiet) "gw_quiet (ss_world s) (ss_world s')"
  | (init) r c w1 out r1 where "decodeJSONRPCRequest (gq_body g) = Some r" "req_method r = ''initialize''"
      "gw_quiet (ss_world s) w1" "gw_forward D c r w1 = (out, r1, ss_world s')"
  | (call) r c sid tool w1 out r1 w2 where "decodeJSONRPCRequest (gq_body g) = Some r" "req_method r \<noteq> ''initialize''"
      "validatedSessionID g s = Some sid" "SessionIDFromContext c = sid" "gq_turn g \<noteq> [] \<Longrightarrow> TurnIDFromContext c = gq_turn g"
      "gw_quiet (ss_world s) w1" "runPipeline (gw_server D) (gw_pipeline D) sid tool c r w1 = (out, r1, w2)"
      "gw_closed w2 (ss_world s')"
proof (cases "decodeJSONRPCRequest (gq_body g)")
  case None
  with assms quiet show thesis by (simp add: handleMCPPost_def)
next
  case (Some r)
  show thesis
  proof (cases "req_method r = ''initialize''")
    case True
    with assms Some initialize_world [of D g r s hdr rep s'] quiet init [OF Some True] show thesis
      by (auto simp: handleMCPPost_def)
  next
    case False
    obtain o1 w1 where 1: "requestContext (gw_server D) g (gq_session g) (ss_world s) = (o1, w1)" by (metis prod.exhaust)
    note q1 = requestContext_quiet [OF 1, THEN conjunct1]
    show thesis
    proof (cases "\<exists>c. o1 = Ret c \<and> validatedSessionID g (s\<lparr>ss_world := w1\<rparr>) \<noteq> None")
      case False
      with assms Some 1 \<open>req_method r \<noteq> ''initialize''\<close> have "ss_world s' = w1 \<or>
          (\<exists>c code msg. s' = snd (refuse_call (gw_server D) c r code msg (s\<lparr>ss_world := w1\<rparr>)))"
        by (cases o1) (auto simp: handleMCPPost_def Let_def, metis snd_conv)
      with q1 refuse_call_quiet [of "s\<lparr>ss_world := w1\<rparr>" D] gw_quiet_trans show thesis by (intro quiet) fastforce
    next
      case True
      then obtain c sid where c: "o1 = Ret c" "validatedSessionID g (s\<lparr>ss_world := w1\<rparr>) = Some sid" by auto
      moreover have "validatedSessionID g (s\<lparr>ss_world := w1\<rparr>) = validatedSessionID g s" by (simp add: validatedSessionID_def cong: option.case_cong)
      ultimately have sid: "validatedSessionID g s = Some sid" by simp
      obtain o2 w2 where 2: "requestContext (gw_server D) g sid w1 = (o2, w2)" by (metis prod.exhaust)
      note q2 = gw_quiet_trans [OF q1 requestContext_quiet [OF 2, THEN conjunct1]]
      show thesis
      proof (cases o2)
        case (Ret c2)
        obtain rep1 s1 where h: "handleCall (gw_server D) (gw_pipeline D) sid c2 r (s\<lparr>ss_world := w2\<rparr>) = (rep1, s1)"
          by (metis prod.exhaust)
        with assms Some False 1 2 c Ret have "s' = s1" by (simp add: handleMCPPost_def Let_def)
        with h obtain tool out r1 w3 where "runPipeline (gw_server D) (gw_pipeline D) sid tool c2 r w2 = (out, r1, w3)"
            "gw_closed w3 (ss_world s')"
          by (auto elim: handleCall_world)
        with call [OF Some False sid _ _ q2] requestContext_quiet [OF 2] Ret show thesis by blast
      qed (use assms Some False 1 2 c q2 quiet in \<open>auto simp: handleMCPPost_def Let_def\<close>)
    qed
  qed
qed

lemma gw_closed_fields:
  assumes "gw_closed w v"
  shows "gw_tickets v = gw_tickets w" "gw_net v = gw_net w" "\<exists>xs. late_records xs \<and> gw_audits v = gw_audits w @ xs"
proof -
  from assms obtain xs where x: "late_records xs" "gw_quiet (w\<lparr>gw_audit := gw_audit w @ map AuWrite xs\<rparr>) v"
    by (auto simp: gw_closed_def)
  have "written (map AuWrite xs) = xs" by (induction xs) simp_all
  with gw_quiet_fields [OF x(2)] x(1) show "gw_tickets v = gw_tickets w" "gw_net v = gw_net w"
    "\<exists>xs. late_records xs \<and> gw_audits v = gw_audits w @ xs"
    by (auto simp: gw_audits_def written_append)
qed

lemma gateway_handlers:
  assumes "mux_find q p gateway_routes = MuxHandler h"
  shows "h = RouteMCPPost \<and> q = ''POST'' \<and> p = ''/mcp'' \<or> h = RouteMCPGet \<and> q \<in> {''GET'', ''HEAD''} \<and> p = ''/mcp'' \<or>
    h = RouteMCPDelete \<and> q = ''DELETE'' \<and> p = ''/mcp'' \<or> h = RouteLark \<and> q = ''POST'' \<and> p = ''/lark/actions''"
  using assms gateway_routed [of q p]
  by (auto simp: gateway_route_def split: if_splits)

lemma serve_cases:
  assumes "gateway_ServeHTTP H gateway_routes q s = (ans, s')"
  obtains (other) "ss_world s' = ss_world s"
  | (post) hdr rep where "ht_method q = ''POST''" "ht_path q = ''/mcp''"
      "handleMCPPost (gw_server (hg_deps H)) (gateway_request_of (hg_config H) q) s = (hdr, rep, s')"
  | (lark) rep where "ht_method q = ''POST''" "ht_path q = ''/lark/actions''"
      "webhook_ServeHTTP (gw_webhook H) (lark_request_of q) (ss_world s) = (rep, ss_world s')"
proof (cases "mux_find (ht_method q) (ht_path q) gateway_routes")
  case (MuxHandler h)
  note h = gateway_handlers [OF this]
  show thesis
  proof (cases h)
    case RouteMCPPost
    with h have q: "ht_method q = ''POST''" "ht_path q = ''/mcp''" by auto
    obtain hdr rep s1 where p: "handleMCPPost (gw_server (hg_deps H)) (gateway_request_of (hg_config H) q) s = (hdr, rep, s1)"
      by (metis prod.exhaust)
    with assms MuxHandler RouteMCPPost have "s1 = s'"
      by (cases rep) (auto simp: gateway_ServeHTTP_def server_ServeHTTP_def Let_def)
    with p show thesis by (intro post [OF q]) simp
  next
    case RouteMCPDelete
    with assms MuxHandler show thesis
      by (intro other) (auto simp: gateway_ServeHTTP_def server_ServeHTTP_def handleMCPDelete_def Let_def split: option.splits)
  next
    case RouteLark
    with h have q: "ht_method q = ''POST''" "ht_path q = ''/lark/actions''" by auto
    with assms MuxHandler RouteLark lark [OF q] show thesis
      by (auto simp: gateway_ServeHTTP_def Let_def split: prod.splits)
  qed (use assms MuxHandler other in \<open>auto simp: gateway_ServeHTTP_def Let_def\<close>)
qed (use assms other in \<open>auto simp: gateway_ServeHTTP_def Let_def\<close>)

lemma record_decision_keeps:
  assumes "\<And>i st u w. Q w \<Longrightarrow> Q (snd (wh_update H i st u w))" "\<And>ch m w. Q w \<Longrightarrow> Q (snd (wh_publish H ch m w))"
    "\<And>x w. Q w \<Longrightarrow> Q (wh_log H x w)" "Q w"
  shows "Q (snd (record_decision H ticket st user w))"
proof -
  obtain e w1 where u: "wh_update H ticket st user w = (e, w1)" by (metis prod.exhaust)
  obtain e2 w2 where p: "wh_publish H (''approvals:'' @ ticket) st w1 = (e2, w2)" by (metis prod.exhaust)
  have "Q w1" using assms(1) [OF assms(4), of ticket st user] u by simp
  moreover from this have "Q w2" using assms(2) [of w1 "''approvals:'' @ ticket" st] p by simp
  ultimately show ?thesis using u p assms(3) by (cases e; cases e2) (simp_all add: record_decision_def Let_def)
qed

lemma webhook_keeps:
  assumes "\<And>i st u w. Q w \<Longrightarrow> Q (snd (wh_update H i st u w))" "\<And>ch m w. Q w \<Longrightarrow> Q (snd (wh_publish H ch m w))"
    "\<And>x w. Q w \<Longrightarrow> Q (wh_log H x w)" "Q w"
  shows "Q (snd (webhook_ServeHTTP H q w))"
  using record_decision_keeps [of Q H w, OF assms] assms(3,4)
  by (auto simp: webhook_ServeHTTP_def lark_callback_def route_action_def Let_def split: option.splits prod.splits)

lemma gw_webhook_simps [simp]:
  "wh_token (gw_webhook H) = cfg_lark_token (hg_config H)" "wh_log (gw_webhook H) = gw_emit"
  "wh_update (gw_webhook H) i st b w = (case ts_update_status i st b (gw_tickets w) of (e, s1) \<Rightarrow> (e, w\<lparr>gw_tickets := s1\<rparr>))"
  "wh_publish (gw_webhook H) ch m = gw_on_redis (hg_publish H ch m)"
  by (simp_all add: gw_webhook_def NewLarkWebhookHandler_def realRedisPublisher_Publish_def)

lemma webhook_unsent: "gw_same w (snd (webhook_ServeHTTP (gw_webhook H) q w))"
  by (rule webhook_keeps [where Q = "gw_same w"])
    (auto simp: gw_same_def gw_on_redis_def gw_emit_def split: prod.splits)

section \<open>Properties\<close>


section \<open>Tickets\<close>

text \<open>What inserting a ticket and marking one as expired keep, every request of \<open>/mcp\<close> keeps.\<close>

locale ticket_frame =
  fixes P :: "ticket_store \<Rightarrow> bool"
  assumes insert_keeps: "P t \<Longrightarrow> P (snd (ts_insert r t))"
    and expire_keeps: "P t \<Longrightarrow> P (snd (ts_update_status i ''expired'' [] t))"
begin

lemma bridge: "bridge_frame (gw_bridge D) (\<lambda>w. P (gw_tickets w))"
proof unfold_locales
  show "P (gw_tickets (snd (be_update (gw_bridge D) i ''expired'' [] w)))" if "P (gw_tickets w)" for i w
    using expire_keeps [OF that, of i] by (simp add: gw_bridge_simps case_prod_beta)
qed (simp_all add: gw_bridge_simps gw_on_redis_def gw_emit_def split: prod.splits)

lemma wait_keeps: "gw_wait D c i s t w = (out, w') \<Longrightarrow> P (gw_tickets w) \<Longrightarrow> P (gw_tickets w')"
  using bridge_frame.WaitForDecision_frame [OF bridge]
  by (fastforce simp: gw_wait_def returned_def Let_def split: option.splits)

lemma gate: "gate_frame (gw_gate D) (\<lambda>w. P (gw_tickets w))"
proof unfold_locales
  show "P (gw_tickets w1)" if "P (gw_tickets w)" "ge_insert (gw_gate D) tr w = (tid, w1)" for tr tid w w1
    using that insert_keeps [OF that(1), of tr] by (auto split: prod.splits)
qed (auto simp: gw_emit_def gw_write_audit_def wait_keeps split: prod.splits)

lemma run_keeps:
  assumes "pl_run (gw_pipeline D) c r w = (out, r', w')" "P (gw_tickets w)"
  shows "P (gw_tickets w')"
proof -
  define w1 where "w1 = gw_emit (LevelInfo, ''mcp request'', log_attrs c r) w"
  have w1: "P (gw_tickets w1)" using assms(2) by (simp add: w1_def gw_emit_def)
  have g: "P (gw_tickets w2)" if "gate_handle (gw_gate D) (gd_policy D) c r1 w1 = (o2, r2, w2)" for r1 o2 r2 w2
    using gate_frame.handle_frame [OF gate _ that] w1 by simp
  have f: "gw_tickets w3 = gw_tickets w2" if "gw_forward D c r2 w2 = (o3, r3, w3)" for r2 w2 o3 r3 w3
    using that by (auto simp: gw_forward_def split: prod.splits)
  from assms(1) show ?thesis
    using w1 g f by (fastforce simp: gw_run w1_def ContextInjector_Handle_def split: prod.splits go.splits option.splits if_splits)
qed

lemma post_keeps:
  assumes "handleMCPPost (gw_server D) g s = (hdr, rep, s')" "P (gw_tickets (ss_world s))"
  shows "P (gw_tickets (ss_world s'))"
  using assms(1)
proof (cases rule: post_cases)
  case quiet
  with assms(2) gw_quiet_fields(3) [OF quiet] show ?thesis by simp
next
  case (init r c w1 out r1)
  then have "gw_tickets (ss_world s') = gw_tickets w1"
    by (auto simp: gw_forward_def dest: arg_cong [where f = gw_tickets] split: prod.splits)
  with assms(2) gw_quiet_fields(3) [OF init(3)] show ?thesis by simp
next
  case (call r c sid tool w1 out r1 w2)
  note t = gw_quiet_fields(3) [OF call(6)] gw_closed_fields(1) [OF call(8)]
  from call(7) show ?thesis
  proof (cases rule: gw_runPipeline)
    case kept
    with gw_quiet_fields(3) [OF kept] t assms(2) show ?thesis by simp
  next
    case (ran wa o2 wb)
    have "P (gw_tickets wa)" using gw_quiet_fields(3) [OF ran(1)] t assms(2) by simp
    from run_keeps [OF ran(2) this] gw_quiet_fields(3) [OF ran(3)] t show ?thesis by simp
  qed
qed

end

lemma ts_expire_status:
  "ticket_status (snd (ts_update_status i ''expired'' [] t)) j \<in> {ticket_status t j, Some ''expired''}"
  using ts_update_status_ok [of i "''expired''" "[]" t] ts_update_status_err [of i "''expired''" "[]" t]
  by (cases "ts_update_status i ''expired'' [] t"; cases "fst (ts_update_status i ''expired'' [] t)") auto

lemma ts_insert_status: "ticket_status (snd (ts_insert r t)) j \<in> {ticket_status t j, Some ''pending''}"
  by (cases "next_fault (ts_faults t)"; cases "ts_ids t")
    (auto simp: ts_insert_def ticket_status_def Let_def split: option.splits)

interpretation decided: ticket_frame "\<lambda>t. x \<noteq> ''pending'' \<and> ticket_status t i = Some x"
  by unfold_locales (auto simp: ts_insert_keeps intro: tickets.decided_stays)

interpretation undecided_by_mcp: ticket_frame "\<lambda>t. ticket_status t i \<notin> {Some ''approved'', Some ''denied''}"
proof unfold_locales
  show "ticket_status (snd (ts_insert r t)) i \<notin> {Some ''approved'', Some ''denied''}"
    if "ticket_status t i \<notin> {Some ''approved'', Some ''denied''}" for r t
    using that ts_insert_status [of r t i] by auto
  show "ticket_status (snd (ts_update_status j ''expired'' [] t)) i \<notin> {Some ''approved'', Some ''denied''}"
    if "ticket_status t i \<notin> {Some ''approved'', Some ''denied''}" for j t
    using that ts_expire_status [of j t i] by auto
qed

interpretation http_hook: webhook_world "gw_webhook H" "\<lambda>w. ticket_status (gw_tickets w)"
  by unfold_locales
    (auto simp: gw_on_redis_def gw_emit_def split: prod.splits dest: ts_update_status_ok ts_update_status_err)

text \<open>
  C21. Decisions are final: a ticket that is approved, denied, expired or cancelled stays so through every sequence of HTTP requests that
  clients and Lark send to the gateway.
\<close>

theorem http_decisions_final:
  assumes "gateway_mux H = Ret mux" and "ticket_status (gw_tickets (ss_world s)) i = Some x" and "x \<noteq> ''pending''"
  shows "ticket_status (gw_tickets (ss_world (snd (http_serve_all H mux qs s)))) i = Some x"
proof -
  have step: "ticket_status (gw_tickets (ss_world s')) i = Some x"
    if "gateway_ServeHTTP H gateway_routes q s = (ans, s')" "ticket_status (gw_tickets (ss_world s)) i = Some x" for q s ans s'
    using that(1)
  proof (cases rule: serve_cases)
    case (post hdr rep)
    from decided.post_keeps [OF post(3)] that(2) assms(3) show ?thesis by simp
  next
    case (lark rep)
    from http_hook.serve_decided [OF that(2) assms(3), of H "lark_request_of q"] lark(3) show ?thesis by simp
  qed (use that(2) in simp)
  have "mux = gateway_routes" using assms(1) by (simp add: gateway_mux_routes)
  then show ?thesis
    using assms(2)
  proof (induction qs arbitrary: s)
    case (Cons q qs)
    obtain a s1 where a: "gateway_ServeHTTP H mux q s = (a, s1)" by (metis prod.exhaust)
    with step Cons.prems have "ticket_status (gw_tickets (ss_world s1)) i = Some x" by blast
    from Cons.IH [OF Cons.prems(1) this] a show ?case by (simp add: case_prod_beta)
  qed simp
qed

text \<open>
  C2. Only Lark's callback decides: if a request, whatever it is, makes a ticket approved or denied, then it is a \<open>POST\<close> of
  \<open>/lark/actions\<close> that is authentic, its payload names that ticket and the button of that decision, and the ticket
  was pending. In particular no caller of \<open>/mcp\<close> approves its own calls.
\<close>

theorem only_callbacks_decide:
  assumes "gateway_mux H = Ret mux" and "gateway_ServeHTTP H mux q s = (ans, s')"
    and "ticket_status (gw_tickets (ss_world s')) i = Some st" and "st = ''approved'' \<or> st = ''denied''"
    and "ticket_status (gw_tickets (ss_world s)) i \<noteq> Some st"
  shows "ht_method q = ''POST'' \<and> ht_path q = ''/lark/actions'' \<and> ticket_status (gw_tickets (ss_world s)) i = Some ''pending'' \<and>
    (\<exists>e token user act. decode_envelope (parse_json (ht_body q)) = Some e \<and> normalise e = (token, user, act) \<and>
       authentic (gw_webhook H) (lark_request_of q) token (ss_world s) \<and>
       av_ticket (ca_value act) = i \<and> status_of_action (av_action (ca_value act)) = Some st)"
proof -
  from assms(1,2) have "gateway_ServeHTTP H gateway_routes q s = (ans, s')" by (simp add: gateway_mux_routes)
  then show ?thesis
  proof (cases rule: serve_cases)
    case (post hdr rep)
    have "ticket_status (gw_tickets (ss_world s)) i \<notin> {Some ''approved'', Some ''denied''}"
    proof
      assume "ticket_status (gw_tickets (ss_world s)) i \<in> {Some ''approved'', Some ''denied''}"
      then obtain y where y: "y = ''approved'' \<or> y = ''denied''" "ticket_status (gw_tickets (ss_world s)) i = Some y" by blast
      then have "y \<noteq> ''pending''" by auto
      with decided.post_keeps [OF post(3), of y i] y(2) assms(3,5) show False by simp
    qed
    from undecided_by_mcp.post_keeps [OF post(3), of i] this assms(3,4) show ?thesis by auto
  next
    case (lark rep)
    with assms(3,5) have "ticket_status (gw_tickets (snd (webhook_ServeHTTP (gw_webhook H) (lark_request_of q) (ss_world s)))) i
        \<noteq> ticket_status (gw_tickets (ss_world s)) i" by simp
    from http_hook.serve_changes [OF this] lark assms(3) show ?thesis by (auto simp: lark_request_of_def)
  qed (use assms(3,5) in simp)
qed

text \<open>The witness: a call of a session, by a policy that allows everything.\<close>

definition open_deps :: "(mem_state, (http_req \<times> http_resp go) list \<times> http_resp list) gateway_deps" where
  "open_deps = demo_deps\<lparr>gd_policy := \<lparr>pol_rules = [], pol_max_calls = 5, pol_default = ActionAllow, pol_classes = []\<rparr>\<rparr>"

definition demo_http_gateway :: "(mem_state, (http_req \<times> http_resp go) list \<times> http_resp list) http_gateway" where
  "demo_http_gateway =
     \<lparr>hg_deps = open_deps, hg_config = demo_config, hg_sha256 = (\<lambda>s. []), hg_publish = (\<lambda>ch m k. (None, k))\<rparr>"

definition demo_http_call :: http_request where
  "demo_http_call =
     \<lparr>ht_method = ''POST'', ht_path = ''/mcp'', ht_headers = [(''mcp-session-id'', ''s1''), (''X-MCP-Turn-ID'', ''t1'')],
      ht_body = marshal (encode_request (twin_request (twin_names ''create_refund'' []))),
      ht_read_err = None, ht_ctx_err = None, ht_flusher = True, ht_stream = []\<rparr>"

definition open_session :: "(mem_state, (http_req \<times> http_resp go) list \<times> http_resp list) gateway server_state" where
  "open_session = demo_server_state\<lparr>ss_sessions := [(''s1'', \<lparr>se_id = ''s1'', se_created = 0\<rparr>)]\<rparr>"

lemma demo_http_decoded: "decodeJSONRPCRequest (ht_body demo_http_call) = Some (twin_request (twin_names ''create_refund'' []))"
  unfolding demo_http_call_def http_request.simps
  by (subst decode_request_text)
    (simp_all add: encode_request_def reread_request_def maxNestingDepth_def twin_names_def twin_request_def demo_call_def opt_field_def)

lemma demo_http_fields:
  "header_get demo_http_call mcpSessionIDHeader = ''s1''" "header_get demo_http_call ''X-Mcp-Turn-Id'' = ''t1''"
  by code_simp+

lemma open_deps_simps [simp]:
  "gd_policy open_deps = \<lparr>pol_rules = [], pol_max_calls = 5, pol_default = ActionAllow, pol_classes = []\<rparr>"
  "gd_transport open_deps = logged demo_transport" "hg_deps demo_http_gateway = open_deps" "hg_config demo_http_gateway = demo_config"
  "ss_world open_session = demo_gateway"
  by (simp_all add: open_deps_def demo_http_gateway_def open_session_def demo_server_state_def)

definition s1_t1 :: ctx where
  "s1_t1 = WithTurnID (WithSessionID background ''s1'') ''t1''"

lemma demo_http_runs:
  obtains rep s' where "handleMCPPost (gw_server open_deps) (gateway_request_of demo_config demo_http_call) open_session = (None, rep, s')"
    "gw_net (ss_world s') \<noteq> gw_net demo_gateway"
proof -
  let ?r = "twin_request (twin_names ''create_refund'' [])" and ?g = "gateway_request_of demo_config demo_http_call"
  let ?p1 = "Some (JObj [(''Name'', JStr []), (''_meta'', new_meta s1_t1), (''name'', JStr ''create_refund'')])"
  have inj: "injected s1_t1 ?r = Ret ?p1" by (rule twin_injected) simp
  have par: "parseToolCallParams ?p1 = Ret (''create_refund'', Some JNull)" by (rule twin_parse(1)) simp
  have ev: "Evaluate (gd_policy open_deps) ''create_refund'' (Some JNull) = Ret \<lparr>dec_action = ActionAllow, dec_redact = []\<rparr>"
    by (simp add: Evaluate_def)
  obtain w2 where w2: "pl_run (gw_pipeline open_deps) s1_t1 ?r demo_gateway = gw_forward open_deps s1_t1 (?r\<lparr>req_params := ?p1\<rparr>) w2"
      "gw_net w2 = gw_net demo_gateway"
    using gw_allows [OF _ inj par _ ev, of demo_gateway] by (simp add: first_of_turn) metis
  obtain l n where l: "gw_net w2 = (l, n)" by (cases "gw_net w2")
  have t: "tr_build demo_transport u = None" "gd_transport open_deps = logged demo_transport" for u by simp_all
  obtain out w3 x rest where f: "gw_forward open_deps s1_t1 (?r\<lparr>req_params := ?p1\<rparr>) w2 = (out, ?r\<lparr>req_params := ?p1\<rparr>, w3)"
      "fst (gw_net w3) = l @ x # rest"
    using forward_first [OF t(1) l t(2)] by metis
  from f(2) l w2(2) have n: "gw_net w3 \<noteq> gw_net demo_gateway" by (metis append_self_conv fst_conv list.distinct(1))
  have tool: "fst (called_tool ?r) = []" by (simp add: called_tool_def twin_parse(2))
  have run: "runPipeline (gw_server open_deps) (gw_pipeline open_deps) ''s1'' (fst (called_tool ?r)) s1_t1 ?r (ss_world open_session) =
      (recovered out, ?r\<lparr>req_params := ?p1\<rparr>, w3)"
    unfolding tool by (subst runPipeline_unguarded) (simp_all add: w2(1) f(1))
  obtain rep s' where h: "handleCall (gw_server open_deps) (gw_pipeline open_deps) ''s1'' s1_t1 ?r open_session = (rep, s')"
    by (metis prod.exhaust)
  have c: "requestContext (gw_server open_deps) ?g ''s1'' demo_gateway = (Ret s1_t1, demo_gateway)"
    by (simp add: requestContext_def gateway_request_of_def demo_config_def demo_http_fields s1_t1_def Let_def)
      (simp add: demo_http_call_def background_def)
  have v: "validatedSessionID ?g open_session = Some ''s1''"
    by (simp add: validatedSessionID_def gateway_request_of_def demo_http_fields sr_Get_def open_session_def)
  have g: "gq_body ?g = ht_body demo_http_call" "gq_session ?g = ''s1''" by (simp_all add: gateway_request_of_def demo_http_fields)
  have same: "open_session\<lparr>ss_world := demo_gateway\<rparr> = open_session" by (simp add: open_session_def demo_server_state_def)
  have "handleMCPPost (gw_server open_deps) ?g open_session = (None, rep, s')"
    by (simp add: handleMCPPost_def g demo_http_decoded c v h same Let_def)
  moreover from gw_closed_fields(2) [OF handleCall_after [OF h run]] n have "gw_net (ss_world s') \<noteq> gw_net demo_gateway" by simp
  ultimately show thesis by (rule that)
qed


definition with_tickets :: "ticket_store \<Rightarrow> (mem_state, (http_req \<times> http_resp go) list \<times> http_resp list) gateway server_state" where
  "with_tickets t = open_session\<lparr>ss_world := demo_gateway\<lparr>gw_tickets := t\<rparr>\<rparr>"

lemma with_tickets_simps [simp]: "gw_tickets (ss_world (with_tickets t)) = t"
  by (simp add: with_tickets_def)

theorem http_decisions_final_witness:
  "ticket_status (gw_tickets (ss_world (snd (http_serve_all demo_http_gateway gateway_routes [demo_http_call] (with_tickets demo_store))))) ''a1'' =
     Some ''denied''"
  by (rule http_decisions_final [OF gateway_mux_routes]) (simp_all add: demo_store_def ticket_status_def)

definition demo_http_press :: http_request where
  "demo_http_press =
     \<lparr>ht_method = ''POST'', ht_path = ''/lark/actions'', ht_headers = [],
      ht_body = wr_body (demo_press (flat_callback ''d'' ''ou_1'' (button_value ''b2'' ''approve''))),
      ht_read_err = None, ht_ctx_err = None, ht_flusher = True, ht_stream = []\<rparr>"

definition pending_store :: ticket_store where
  "pending_store =
     \<lparr>ts_rows = [(''b2'', \<lparr>row_rec = demo_ticket, row_status = ''pending'', row_by = None\<rparr>)], ts_faults = [], ts_ids = []\<rparr>"

theorem only_callbacks_decide_witness:
  "\<exists>ans s'. gateway_ServeHTTP demo_http_gateway gateway_routes demo_http_press (with_tickets pending_store) = (ans, s') \<and>
     ticket_status (gw_tickets (ss_world s')) ''b2'' = Some ''approved'' \<and>
     (\<exists>token. authentic (gw_webhook demo_http_gateway) (lark_request_of demo_http_press) token (ss_world (with_tickets pending_store)))"
proof -
  let ?H = "gw_webhook demo_http_gateway" and ?q = "lark_request_of demo_http_press" and ?w = "ss_world (with_tickets pending_store)"
  have q: "wr_timestamp ?q = []" "wr_read_err ?q = None"
    "parse_json (wr_body ?q) = Some (flat_callback (wh_token ?H) ''ou_1'' (button_value ''b2'' ''approve''))"
    by (simp_all add: lark_request_of_def demo_http_press_def header_get_def demo_press_read demo_config_def)
  have m: "mux_find (ht_method demo_http_press) (ht_path demo_http_press) gateway_routes = MuxHandler RouteLark"
    using gateway_routed [of "''POST''" "''/lark/actions''"]
    by (simp add: gateway_route_def cleanPath_def ends_slash_def demo_http_press_def)
  have u: "ts_update_status ''b2'' ''approved'' ''ou_1'' pending_store = (None, pending_store\<lparr>ts_rows :=
      [(''b2'', \<lparr>row_rec = demo_ticket, row_status = ''approved'', row_by = Some ''ou_1''\<rparr>)]\<rparr>)"
    by (simp add: ts_update_status_def pending_store_def next_fault_def ticket_statuses_def Let_def)
  have "webhook_ServeHTTP ?H ?q ?w = record_decision ?H ''b2'' ''approved'' ''ou_1'' ?w"
    by (rule button_recorded [where act = "''approve''" and cb = flat_callback]) (simp_all add: q)
  moreover obtain rep w' where r: "record_decision ?H ''b2'' ''approved'' ''ou_1'' ?w = (rep, w')" by (metis prod.exhaust)
  moreover from http_hook.record_decision_status [of demo_http_gateway "''b2''" "''approved''" "''ou_1''" ?w] r u
  have t: "ticket_status (gw_tickets w') ''b2'' = Some ''approved''" by (simp add: ticket_status_def)
  ultimately have s: "gateway_ServeHTTP demo_http_gateway gateway_routes demo_http_press (with_tickets pending_store) =
      (AnLark rep, (with_tickets pending_store)\<lparr>ss_world := w'\<rparr>)"
    by (simp add: gateway_ServeHTTP_def m)
  have "\<exists>token. authentic ?H ?q token ?w"
    using only_callbacks_decide [OF gateway_mux_routes s, of "''b2''" "''approved''"] t
    by (auto simp: pending_store_def ticket_status_def)
  with s t show ?thesis by auto
qed

text \<open>
  The mock of Slack does not work with the gateway: the message of a held call makes it press nothing, and the path it posts its
  form to is one the gateway does not have, so that the press, whatever it carries, is answered with 404 and changes
  nothing.
\<close>

theorem mock_slack_is_not_served:
  assumes "gateway_mux H = Ret mux" and "ht_method q = ''POST''"
    and "fst (slack_sendApproveAction hmac gateway secret i now) = gateway @ ht_path q"
  shows "handleChatPostMessage (Ret (marshal (hq_body (message_request L c token ticket t)))) =
      ((200, marshal (JObj [(''ok'', JBool True)])), None) \<and>
    gateway_ServeHTTP H mux q s = (AnMux MuxNotFound, s)"
proof
  show "handleChatPostMessage (Ret (marshal (hq_body (message_request L c token ticket t)))) =
      ((200, marshal (JObj [(''ok'', JBool True)])), None)"
    by (rule card_presses_nothing)
  have "ht_path q = ''/slack/actions''" using assms(3) by (simp add: slack_sendApproveAction_def Let_def)
  moreover have "cleanPath ''/slack/actions'' = ''/slack/actions''" by (simp add: cleanPath_def ends_slash_def)
  ultimately have "mux_find (ht_method q) (ht_path q) gateway_routes = MuxNotFound"
    using gateway_routed [of "ht_method q" "ht_path q"] assms(2) by (simp add: gateway_route_def)
  moreover have "mux = gateway_routes" using assms(1) by (simp add: gateway_mux_routes)
  ultimately show "gateway_ServeHTTP H mux q s = (AnMux MuxNotFound, s)" by (simp add: gateway_ServeHTTP_def)
qed

theorem mock_slack_is_not_served_witness:
  "gateway_ServeHTTP demo_http_gateway gateway_routes (demo_http_press\<lparr>ht_path := ''/slack/actions''\<rparr>) open_session =
     (AnMux MuxNotFound, open_session)"
proof -
  let ?q = "demo_http_press\<lparr>ht_path := ''/slack/actions''\<rparr>"
  have q: "ht_method ?q = ''POST''" "fst (slack_sendApproveAction (\<lambda>_ _. []) ''http://gw'' ''s'' ''b2'' 0) = ''http://gw'' @ ht_path ?q"
    by (simp_all add: slack_sendApproveAction_def demo_http_press_def Let_def)
  from mock_slack_is_not_served [OF gateway_mux_routes q] show ?thesis by (rule conjunct2)
qed

section \<open>The write timeout\<close>

text \<open>
  The phases of a held call: two locks, the approval, the exchange with the upstream. With the default durations their sum is within the
  write timeout, after which a reply is lost; with the three exchanges of a renewed upstream session it is not.
\<close>

lemma write_timeout_default:
  assumes "fst (LoadConfig env) = Ret cfg"
    and "env ''LOCK_ACQUIRE_TIMEOUT'' = []" "env ''APPROVAL_TIMEOUT'' = []" "env ''UPSTREAM_TIMEOUT'' = []"
  shows "2 * cfg_acquire_timeout cfg + cfg_approval_timeout cfg + cfg_upstream_timeout cfg \<le> ls_write_timeout (httpServer cfg)"
    "ls_write_timeout (httpServer cfg) < 2 * cfg_acquire_timeout cfg + cfg_approval_timeout cfg + 3 * cfg_upstream_timeout cfg"
proof -
  from assms have "cfg_acquire_timeout cfg = 5 * second" "cfg_approval_timeout cfg = 5 * minute" "cfg_upstream_timeout cfg = 30 * second"
    by (auto simp: LoadConfig_def Let_def go_simps envDuration_def split: if_splits)
  then show "2 * cfg_acquire_timeout cfg + cfg_approval_timeout cfg + cfg_upstream_timeout cfg \<le> ls_write_timeout (httpServer cfg)"
    "ls_write_timeout (httpServer cfg) < 2 * cfg_acquire_timeout cfg + cfg_approval_timeout cfg + 3 * cfg_upstream_timeout cfg"
    by (simp_all add: httpServer_def approvalWriteTimeout_def minute_def second_def)
qed

section \<open>The server of the tests\<close>

text \<open>Its pipeline has no gate: a call whose ids could be added is forwarded.\<close>

lemma test_server_forwards:
  assumes "req_method r = ''tools/call''" and "injected c r = Ret p1"
  shows "map_option (\<lambda>p. pl_run p c r w) (sv_pipeline (newGatewayServer D)) =
    Some (gw_forward D c (r\<lparr>req_params := p1\<rparr>) (gw_emit (LevelInfo, ''mcp request'', log_attrs c r) w))"
  using assms
  by (simp add: newGatewayServer_def pl_run_def pl_use_def RequestLogger_Handle_def ContextInjector_Handle_def injected_def)

end
