(* ===== verification/Fake_Servers.thy ===== *)
theory Fake_Servers
  imports Json_Parse
begin

text \<open>
  \<open>examples/fake-mcp-servers\<close>: the MCP servers of the demonstrations. The MCP SDK, which decodes the arguments of a call into
  the parameters of the tool's handler and sends the result, is not modelled: a call is a tool with its decoded
  parameters, a result the list of its text contents. \<open>%q\<close> of a string is \<open>go_quote\<close>.
\<close>

type_synonym call_result = "string list"

definition cannedJSONResult :: "string \<Rightarrow> call_result" where
  "cannedJSONResult payload = [payload]"

section \<open>Stripe\<close>

record create_charge_params =
  cc_amount :: int
  cc_currency :: string
  cc_customer :: string

record get_customer_params =
  gc_customer :: string

record refund_params =
  rf_amount :: int
  rf_customer :: string

record delete_record_params =
  dr_customer :: string

record message_params =
  mp_channel :: string
  mp_message :: string

definition createChargeHandler :: "create_charge_params \<Rightarrow> call_result" where
  "createChargeHandler p = cannedJSONResult ''{\"id\":\"ch_fake_001\",\"status\":\"succeeded\"}''"

definition getCustomerHandler :: "get_customer_params \<Rightarrow> call_result" where
  "getCustomerHandler p = cannedJSONResult (''{\"id\":'' @ go_quote (gc_customer p) @ '',\"name\":\"Test Customer\"}'')"

definition refundSmallHandler :: "refund_params \<Rightarrow> call_result" where
  "refundSmallHandler p =
     cannedJSONResult (''{\"ok\":true,\"tool\":\"refund_small\",\"amount\":'' @ itoa (rf_amount p) @
       '',\"customer_id\":'' @ go_quote (rf_customer p) @ ''}'')"

definition refundLargeHandler :: "refund_params \<Rightarrow> call_result" where
  "refundLargeHandler p =
     cannedJSONResult (''{\"ok\":true,\"tool\":\"refund_large\",\"amount\":'' @ itoa (rf_amount p) @
       '',\"customer_id\":'' @ go_quote (rf_customer p) @ ''}'')"

definition deleteRecordHandler :: "delete_record_params \<Rightarrow> call_result" where
  "deleteRecordHandler p =
     cannedJSONResult (''{\"ok\":true,\"tool\":\"delete_record\",\"customer_id\":'' @ go_quote (dr_customer p) @
       '',\"deleted\":true}'')"

definition stripe_sendMessageHandler :: "message_params \<Rightarrow> call_result" where
  "stripe_sendMessageHandler p =
     cannedJSONResult (''{\"ok\":true,\"tool\":\"send_lark_message\",\"channel\":'' @ go_quote (mp_channel p) @
       '',\"message\":'' @ go_quote (mp_message p) @ ''}'')"

text \<open>The tools that \<open>main\<close> registers: a call, its handler, and its name and description.\<close>

datatype stripe_call =
    CreateCharge create_charge_params
  | GetCustomer get_customer_params
  | RefundSmall refund_params
  | RefundLarge refund_params
  | DeleteRecord delete_record_params
  | StripeMessage message_params

fun stripe_handle :: "stripe_call \<Rightarrow> call_result" where
  "stripe_handle (CreateCharge p) = createChargeHandler p"
| "stripe_handle (GetCustomer p) = getCustomerHandler p"
| "stripe_handle (RefundSmall p) = refundSmallHandler p"
| "stripe_handle (RefundLarge p) = refundLargeHandler p"
| "stripe_handle (DeleteRecord p) = deleteRecordHandler p"
| "stripe_handle (StripeMessage p) = stripe_sendMessageHandler p"

fun stripe_tool :: "stripe_call \<Rightarrow> string \<times> string" where
  "stripe_tool (CreateCharge p) = (''create_charge'', ''Create a Stripe charge (fake, always succeeds)'')"
| "stripe_tool (GetCustomer p) = (''get_customer'', ''Retrieve a Stripe customer (fake)'')"
| "stripe_tool (RefundSmall p) = (''refund_small'', ''Process a small refund (demo contract)'')"
| "stripe_tool (RefundLarge p) = (''refund_large'', ''Process a large refund after approval (demo contract)'')"
| "stripe_tool (DeleteRecord p) = (''delete_record'', ''Delete a customer record (demo contract)'')"
| "stripe_tool (StripeMessage p) = (''send_lark_message'', ''Send a Lark message (demo contract)'')"

section \<open>Zendesk\<close>

record create_ticket_params =
  ct_subject :: string
  ct_description :: string
  ct_customer :: string

record close_ticket_params =
  cl_ticket :: string

datatype zendesk_call = CreateTicket create_ticket_params | CloseTicket close_ticket_params

fun zendesk_handle :: "zendesk_call \<Rightarrow> call_result" where
  "zendesk_handle (CreateTicket p) = [''{\"id\":\"tkt_fake_001\",\"status\":\"open\"}'']"
| "zendesk_handle (CloseTicket p) = [''{\"id\":'' @ go_quote (cl_ticket p) @ '',\"status\":\"closed\"}'']"

fun zendesk_tool :: "zendesk_call \<Rightarrow> string \<times> string" where
  "zendesk_tool (CreateTicket p) = (''create_ticket'', ''Create a Zendesk support ticket (fake, always succeeds)'')"
| "zendesk_tool (CloseTicket p) = (''close_ticket'', ''Close a Zendesk support ticket (fake)'')"

section \<open>Slack\<close>

text \<open>The state is the list of the calls received, which the mutex protects.\<close>

definition sendSlackMessageHandler :: "message_params \<Rightarrow> json list \<Rightarrow> call_result \<times> json list" where
  "sendSlackMessageHandler p calls =
     ([''{\"ok\":true}''], calls @ [JObj [(''channel'', JStr (mp_channel p)), (''message'', JStr (mp_message p))]])"

text \<open>Status, content type and body; the encoder ends its text with a line feed.\<close>

definition inspectHandler :: "string \<Rightarrow> json list \<Rightarrow> int \<times> string \<times> string" where
  "inspectHandler httpMethod calls =
     (if httpMethod \<noteq> ''GET'' then (405, ''text/plain; charset=utf-8'', ''method not allowed'' @ [CHR 10])
      else (200, ''application/json'', marshal (JObj [(''calls'', JArr calls)]) @ [CHR 10]))"

definition slack_tool :: "string \<times> string" where
  "slack_tool = (''send_slack_message'', ''Send a Slack message (fake, always succeeds)'')"

section \<open>Go's quotes and those of JSON\<close>

text \<open>The characters that \<open>%q\<close> writes as JSON does.\<close>

definition json_quotable :: "char \<Rightarrow> bool" where
  "json_quotable c = ((32 \<le> byte c \<or> c \<in> {CHR 8, CHR 9, CHR 10, CHR 12, CHR 13}) \<and> byte c \<noteq> 127)"

lemma quote_char_multi:
  assumes "\<not> byte c < 128"
  shows "quote_char c = [c]" "json_quotable c"
proof -
  have "c \<notin> {CHR 34, CHR 92, CHR 7, CHR 8, CHR 12, CHR 10, CHR 13, CHR 9, CHR 11}" using assms by auto
  with assms show "quote_char c = [c]" "json_quotable c" by (simp_all add: quote_char_def json_quotable_def)
qed

lemma quote_multi: "list_all (\<lambda>c. \<not> byte c < 128) s \<Longrightarrow> concat (map quote_char s) = s \<and> list_all json_quotable s"
  by (induction s) (simp_all add: quote_char_multi)

lemma unquote_escaped:
  "e \<noteq> CHR ''u'' \<Longrightarrow> unquote (CHR 92 # e # s) = (case map_of unescape e of None \<Rightarrow> None | Some d \<Rightarrow> map_option ((#) d) (unquote s))"
  by (simp add: unquote.simps(2))

lemma quote_char_cases:
  assumes "byte c < 128"
  obtains (short) e where "quote_char c = [CHR 92, e]" "e \<noteq> CHR ''u''" "map_of unescape e = (if json_quotable c then Some c else None)"
    | (hex) "quote_char c = [CHR 92, CHR ''x''] @ hex_byte (word_of_nat (byte c))" "\<not> json_quotable c"
    | (plain) "quote_char c = [c]" "32 \<le> byte c" "c \<noteq> CHR 34" "c \<noteq> CHR 92" "json_quotable c"
proof -
  show thesis
  proof (cases "c \<in> {CHR 34, CHR 92, CHR 7, CHR 8, CHR 12, CHR 10, CHR 13, CHR 9, CHR 11}")
    case True
    then have "\<exists>e. quote_char c = [CHR 92, e] \<and> e \<noteq> CHR ''u'' \<and> map_of unescape e = (if json_quotable c then Some c else None)"
      by (elim insertE emptyE) (simp_all add: quote_char_def unescape_def json_quotable_def)
    then show thesis using short by blast
  next
    case special: False
    then have c: "quote_char c = (if byte c < 32 \<or> byte c = 127 then [CHR 92, CHR ''x''] @ hex_byte (word_of_nat (byte c)) else [c])"
      "json_quotable c \<longleftrightarrow> \<not> (byte c < 32 \<or> byte c = 127)"
      by (auto simp: quote_char_def json_quotable_def)
    show thesis
    proof (cases "byte c < 32 \<or> byte c = 127")
      case True
      with c show thesis by (intro hex) simp_all
    next
      case False
      with c special show thesis by (intro plain) simp_all
    qed
  qed
qed

lemma unquote_quote_char:
  assumes "byte c < 128"
  shows "unquote (quote_char c @ s) = (if json_quotable c then map_option ((#) c) (unquote s) else None)"
  using assms
proof (cases rule: quote_char_cases)
  case (short e)
  then show ?thesis by (simp add: unquote_escaped)
next
  case hex
  then show ?thesis by (simp add: unquote_escaped unescape_def)
next
  case plain
  with assms show ?thesis by (simp add: unquote_plain)
qed

lemma unquote_quoted:
  assumes "utf8 s"
  shows "unquote (concat (map quote_char s)) = (if list_all json_quotable s then Some s else None)"
  using assms
proof (induction s rule: runes_induct)
  case (ascii c s)
  then show ?case by (simp add: unquote_quote_char utf8_def)
next
  case (rune c d r s)
  then have "utf8 s" by (simp add: utf8_def valid_bytes_rune)
  moreover have "list_all (\<lambda>c. \<not> byte c < 128) (d # r)" using rune(2,3) by (auto simp: is_cont_def list_all_iff)
  ultimately show ?case
    using rune quote_multi [of "d # r"] by (simp add: quote_char_multi unquote_rune)
next
  case (bad c s)
  with not_valid_bad [OF bad(1)] show ?case by (simp add: utf8_def)
qed simp

lemma scan_quote_char: "foldl scan_step (MStr key acc False, k) (quote_char c) = (MStr key (acc @ quote_char c) False, k)"
proof (cases "byte c < 128")
  case True
  then show ?thesis
  proof (cases rule: quote_char_cases)
    case hex
    then show ?thesis
      using scan_escaped [OF hex_byte_quote_free, of key acc k "CHR ''x''" "word_of_nat (byte c)"] by simp
  qed simp_all
next
  case False
  then have "c \<noteq> CHR 34" "c \<noteq> CHR 92" by auto
  with False show ?thesis by (simp add: quote_char_multi)
qed

lemma scan_quote_chars:
  "foldl scan_step (MStr key acc False, k) (concat (map quote_char s)) = (MStr key (acc @ concat (map quote_char s)) False, k)"
  by (induction s arbitrary: acc) (simp_all add: scan_quote_char)

lemma scan_go_quote:
  "utf8 s \<Longrightarrow> foldl scan_step (MValue, k) (go_quote s) =
     (if list_all json_quotable s then complete_value (JStr s) k else (MFail, []))"
  by (simp add: go_quote_def is_space_def begin_value_def scan_quote_chars end_string_def unquote_quoted)

lemma scan_failed_state: "foldl scan_step (MFail, []) s = (MFail, [])"
  by (induction s) simp_all

lemma scan_itoa: "foldl scan_step (MValue, k) (itoa i) = (MNum (itoa i), k)"
proof -
  obtain c t where "itoa i = c # t" "c = CHR ''-'' \<or> is_digit c" "list_all num_char (itoa i)"
    using valid_number_chars [OF valid_number_itoa] by blast
  then show ?thesis by (simp add: not_special scan_digits)
qed

text \<open>A member after a value, and the values of the answers.\<close>

lemma scan_member:
  "foldl scan_step (MNext, FObj kvs [] # k) '','' = (MKey, FObj kvs [] # k)"
  "foldl scan_step (MNum (itoa i), FObj kvs key # k) '','' = (MKey, FObj (kvs @ [(key, JNum (Lit (itoa i)))]) [] # k)"
  "foldl scan_step (MColon, k) '':'' = (MValue, k)"
  by (simp_all add: is_space_def not_num_char)

lemma scan_close: "foldl scan_step (MNext, [FObj kvs []]) ''}'' = (MDone (JObj kvs), [])"
  by (simp add: is_space_def)

lemma scan_true: "foldl scan_step (MValue, FObj kvs m # k) ''true'' = (MNext, FObj (kvs @ [(m, JBool True)]) [] # k)"
  by (simp add: is_space_def begin_value_def)

lemmas scan_parts = scan_member scan_key scan_quoted(1) scan_close scan_true

lemma scan_open: "foldl scan_step (MValue, []) ''{'' = (MKeyFirst, [FObj [] []])"
  by (simp add: is_space_def begin_value_def open_frame_def maxNestingDepth_def)

text \<open>The starts of the answers, which do not depend on the parameters.\<close>

lemma scan_start_tool:
  "foldl scan_step (MValue, []) (''{'' @ quote_json ''ok'' @ '':'' @ ''true'' @ '','' @ quote_json ''tool'' @ '':'' @ quote_json tool @
     '','' @ quote_json m @ '':'') =
   (MValue, [FObj [(''ok'', JBool True), (''tool'', JStr (valid_bytes tool))] (valid_bytes m)])"
proof -
  have "valid_bytes ''ok'' = ''ok''" "valid_bytes ''tool'' = ''tool''" by (simp_all add: valid_bytes_ascii)
  then show ?thesis by (simp only: foldl_append scan_parts scan_open complete_value.simps) simp
qed

lemma scan_answers:
  "foldl scan_step (MValue, []) ''{\"id\":'' = (MValue, [FObj [] ''id''])"
  "foldl scan_step (MValue, []) ''{\"ok\":true,\"tool\":\"refund_small\",\"amount\":'' =
     (MValue, [FObj [(''ok'', JBool True), (''tool'', JStr ''refund_small'')] ''amount''])"
  "foldl scan_step (MValue, []) ''{\"ok\":true,\"tool\":\"refund_large\",\"amount\":'' =
     (MValue, [FObj [(''ok'', JBool True), (''tool'', JStr ''refund_large'')] ''amount''])"
  "foldl scan_step (MValue, []) ''{\"ok\":true,\"tool\":\"delete_record\",\"customer_id\":'' =
     (MValue, [FObj [(''ok'', JBool True), (''tool'', JStr ''delete_record'')] ''customer_id''])"
  "foldl scan_step (MValue, []) ''{\"ok\":true,\"tool\":\"send_lark_message\",\"channel\":'' =
     (MValue, [FObj [(''ok'', JBool True), (''tool'', JStr ''send_lark_message'')] ''channel''])"
proof -
  have "''{\"id\":'' = ''{'' @ quote_json ''id'' @ '':''" by (simp add: quote_json_plain plain_def)
  then show "foldl scan_step (MValue, []) ''{\"id\":'' = (MValue, [FObj [] ''id''])"
    by (simp only: foldl_append scan_parts scan_open) (simp add: valid_bytes_ascii)
qed (use scan_start_tool [of "''refund_small''" "''amount''"] scan_start_tool [of "''refund_large''" "''amount''"]
    scan_start_tool [of "''delete_record''" "''customer_id''"] scan_start_tool [of "''send_lark_message''" "''channel''"]
  in \<open>simp_all add: quote_json_plain plain_def del: foldl.simps\<close>)

text \<open>The ends of the answers.\<close>

lemma scan_ends:
  "foldl scan_step (MNum (itoa i), FObj kvs key # k) '',\"customer_id\":'' =
     (MValue, FObj (kvs @ [(key, JNum (Lit (itoa i)))]) ''customer_id'' # k)"
  "foldl scan_step (MNext, FObj kvs [] # k) '',\"message\":'' = (MValue, FObj kvs ''message'' # k)"
  "foldl scan_step (MNext, [FObj kvs []]) '',\"deleted\":true}'' = (MDone (JObj (kvs @ [(''deleted'', JBool True)])), [])"
  "foldl scan_step (MNext, [FObj kvs []]) '',\"name\":\"Test Customer\"}'' =
     (MDone (JObj (kvs @ [(''name'', JStr ''Test Customer'')])), [])"
  "foldl scan_step (MNext, [FObj kvs []]) '',\"status\":\"closed\"}'' = (MDone (JObj (kvs @ [(''status'', JStr ''closed'')])), [])"
proof -
  have e: "'',\"customer_id\":'' = '','' @ quote_json ''customer_id'' @ '':''" "'',\"message\":'' = '','' @ quote_json ''message'' @ '':''"
    "'',\"deleted\":true}'' = '','' @ quote_json ''deleted'' @ '':'' @ ''true'' @ ''}''"
    "'',\"name\":\"Test Customer\"}'' = '','' @ quote_json ''name'' @ '':'' @ quote_json ''Test Customer'' @ ''}''"
    "'',\"status\":\"closed\"}'' = '','' @ quote_json ''status'' @ '':'' @ quote_json ''closed'' @ ''}''"
    by (simp_all add: quote_json_plain plain_def)
  show "foldl scan_step (MNum (itoa i), FObj kvs key # k) '',\"customer_id\":'' =
     (MValue, FObj (kvs @ [(key, JNum (Lit (itoa i)))]) ''customer_id'' # k)"
    unfolding e(1) by (simp only: foldl_append scan_parts) simp
  show "foldl scan_step (MNext, FObj kvs [] # k) '',\"message\":'' = (MValue, FObj kvs ''message'' # k)"
    unfolding e(2) by (simp only: foldl_append scan_parts) simp
  show "foldl scan_step (MNext, [FObj kvs []]) '',\"deleted\":true}'' = (MDone (JObj (kvs @ [(''deleted'', JBool True)])), [])"
    unfolding e(3) by (simp only: foldl_append scan_parts) simp
  show "foldl scan_step (MNext, [FObj kvs []]) '',\"name\":\"Test Customer\"}'' =
     (MDone (JObj (kvs @ [(''name'', JStr ''Test Customer'')])), [])"
    unfolding e(4) by (simp only: foldl_append scan_parts complete_value.simps) simp
  show "foldl scan_step (MNext, [FObj kvs []]) '',\"status\":\"closed\"}'' = (MDone (JObj (kvs @ [(''status'', JStr ''closed'')])), [])"
    unfolding e(5) by (simp only: foldl_append scan_parts complete_value.simps) simp
qed

lemmas scan_texts = parse_json_def foldl_append scan_answers scan_ends scan_close scan_go_quote scan_itoa scan_failed_state

section \<open>Properties\<close>

text \<open>What an answer says, and the strings it quotes.\<close>

fun stripe_answer :: "stripe_call \<Rightarrow> json" where
  "stripe_answer (CreateCharge p) = JObj [(''id'', JStr ''ch_fake_001''), (''status'', JStr ''succeeded'')]"
| "stripe_answer (GetCustomer p) = JObj [(''id'', JStr (gc_customer p)), (''name'', JStr ''Test Customer'')]"
| "stripe_answer (RefundSmall p) =
     JObj [(''ok'', JBool True), (''tool'', JStr ''refund_small''), (''amount'', JNum (Lit (itoa (rf_amount p)))),
           (''customer_id'', JStr (rf_customer p))]"
| "stripe_answer (RefundLarge p) =
     JObj [(''ok'', JBool True), (''tool'', JStr ''refund_large''), (''amount'', JNum (Lit (itoa (rf_amount p)))),
           (''customer_id'', JStr (rf_customer p))]"
| "stripe_answer (DeleteRecord p) =
     JObj [(''ok'', JBool True), (''tool'', JStr ''delete_record''), (''customer_id'', JStr (dr_customer p)),
           (''deleted'', JBool True)]"
| "stripe_answer (StripeMessage p) =
     JObj [(''ok'', JBool True), (''tool'', JStr ''send_lark_message''), (''channel'', JStr (mp_channel p)),
           (''message'', JStr (mp_message p))]"

fun stripe_quoted :: "stripe_call \<Rightarrow> string list" where
  "stripe_quoted (CreateCharge p) = []"
| "stripe_quoted (GetCustomer p) = [gc_customer p]"
| "stripe_quoted (RefundSmall p) = [rf_customer p]"
| "stripe_quoted (RefundLarge p) = [rf_customer p]"
| "stripe_quoted (DeleteRecord p) = [dr_customer p]"
| "stripe_quoted (StripeMessage p) = [mp_channel p, mp_message p]"

lemma stripe_answers:
  assumes "list_all utf8 (stripe_quoted c)"
  shows "\<exists>payload. stripe_handle c = [payload] \<and>
    parse_json payload = (if list_all (list_all json_quotable) (stripe_quoted c) then Some (stripe_answer c) else None)"
proof (cases c)
  case (CreateCharge p)
  have "parse_json ''{\"id\":\"ch_fake_001\",\"status\":\"succeeded\"}'' =
      Some (JObj [(''id'', JStr ''ch_fake_001''), (''status'', JStr ''succeeded'')])"
    using parse_marshal [of "JObj [(''id'', JStr ''ch_fake_001''), (''status'', JStr ''succeeded'')]"]
    by (simp add: quote_json_plain plain_def readable_def maxNestingDepth_def valid_bytes_ascii)
  with CreateCharge show ?thesis by (simp add: createChargeHandler_def cannedJSONResult_def)
next
  case (GetCustomer p)
  with assms show ?thesis
    by (simp add: getCustomerHandler_def cannedJSONResult_def scan_texts del: foldl.simps append.simps; simp)
next
  case (RefundSmall p)
  with assms show ?thesis
    by (simp add: refundSmallHandler_def cannedJSONResult_def scan_texts del: foldl.simps append.simps; simp)
next
  case (RefundLarge p)
  with assms show ?thesis
    by (simp add: refundLargeHandler_def cannedJSONResult_def scan_texts del: foldl.simps append.simps; simp)
next
  case (DeleteRecord p)
  with assms show ?thesis
    by (simp add: deleteRecordHandler_def cannedJSONResult_def scan_texts del: foldl.simps append.simps; simp)
next
  case (StripeMessage p)
  with assms show ?thesis
    by (simp add: stripe_sendMessageHandler_def cannedJSONResult_def scan_texts del: foldl.simps append.simps; simp)
qed

text \<open>The strings for which \<open>quote_char\<close> is exact.\<close>

definition ascii_text :: "string \<Rightarrow> bool" where
  "ascii_text s = list_all (\<lambda>c. byte c < 128) s"

lemma ascii_utf8: "ascii_text s \<Longrightarrow> utf8 s"
  by (simp add: ascii_text_def utf8_def valid_bytes_ascii list_all_iff)

text \<open>
  C25. The answers of the fake Stripe server: one text, which a JSON reader takes for the answer that is meant exactly when the
  strings of the call have no character that Go quotes in its own way (a bell, a vertical tab, another control character without
  a short escape, or DEL); otherwise it is not JSON. The strings are ASCII, where \<open>quote_char\<close> is exact.
\<close>

theorem stripe_answers_iff:
  assumes "list_all ascii_text (stripe_quoted c)"
  shows "\<exists>payload. stripe_handle c = [payload] \<and>
    parse_json payload = (if list_all (list_all json_quotable) (stripe_quoted c) then Some (stripe_answer c) else None)"
  by (rule stripe_answers) (use assms in \<open>simp add: list_all_iff ascii_utf8\<close>)

text \<open>The witness: a customer with a quotation mark is read back, one with a bell is not.\<close>

theorem stripe_answers_iff_witness:
  "(\<exists>p. stripe_handle (GetCustomer \<lparr>gc_customer = ''a'' @ [CHR 34]\<rparr>) = [p] \<and>
      parse_json p = Some (JObj [(''id'', JStr (''a'' @ [CHR 34])), (''name'', JStr ''Test Customer'')])) \<and>
   (\<exists>p. stripe_handle (GetCustomer \<lparr>gc_customer = [CHR 7]\<rparr>) = [p] \<and> parse_json p = None)"
proof
  have "list_all ascii_text (stripe_quoted (GetCustomer \<lparr>gc_customer = ''a'' @ [CHR 34]\<rparr>))" by (simp add: ascii_text_def)
  from stripe_answers_iff [OF this]
  show "\<exists>p. stripe_handle (GetCustomer \<lparr>gc_customer = ''a'' @ [CHR 34]\<rparr>) = [p] \<and>
      parse_json p = Some (JObj [(''id'', JStr (''a'' @ [CHR 34])), (''name'', JStr ''Test Customer'')])"
    by (simp add: json_quotable_def)
  have "list_all ascii_text (stripe_quoted (GetCustomer \<lparr>gc_customer = [CHR 7]\<rparr>))" by (simp add: ascii_text_def)
  from stripe_answers_iff [OF this]
  show "\<exists>p. stripe_handle (GetCustomer \<lparr>gc_customer = [CHR 7]\<rparr>) = [p] \<and> parse_json p = None"
    by (simp add: json_quotable_def)
qed

text \<open>The same for the fake Zendesk server.\<close>

theorem zendesk_answers_iff:
  "zendesk_handle (CreateTicket p) = [marshal (JObj [(''id'', JStr ''tkt_fake_001''), (''status'', JStr ''open'')])]"
  "ascii_text (cl_ticket q) \<Longrightarrow> \<exists>payload. zendesk_handle (CloseTicket q) = [payload] \<and>
     parse_json payload = (if list_all json_quotable (cl_ticket q)
       then Some (JObj [(''id'', JStr (cl_ticket q)), (''status'', JStr ''closed'')]) else None)"
proof -
  show "zendesk_handle (CreateTicket p) = [marshal (JObj [(''id'', JStr ''tkt_fake_001''), (''status'', JStr ''open'')])]"
    by (simp add: quote_json_plain plain_def)
  show "\<exists>payload. zendesk_handle (CloseTicket q) = [payload] \<and>
     parse_json payload = (if list_all json_quotable (cl_ticket q)
       then Some (JObj [(''id'', JStr (cl_ticket q)), (''status'', JStr ''closed'')]) else None)" if "ascii_text (cl_ticket q)"
    using ascii_utf8 [OF that] by (simp add: scan_texts del: foldl.simps append.simps; simp)
qed

fun slack_calls :: "message_params list \<Rightarrow> json list \<Rightarrow> json list" where
  "slack_calls [] calls = calls"
| "slack_calls (p # ps) calls = slack_calls ps (snd (sendSlackMessageHandler p calls))"

definition message_json :: "message_params \<Rightarrow> json" where
  "message_json p = JObj [(''channel'', JStr (mp_channel p)), (''message'', JStr (mp_message p))]"

lemma slack_calls_eq: "slack_calls ps calls = calls @ map message_json ps"
  by (induction ps arbitrary: calls) (simp_all add: sendSlackMessageHandler_def message_json_def)

text \<open>
  The record of the fake Slack server: a reader of what \<open>/inspect\<close> answers finds the messages that were sent, all of them and in
  their order.
\<close>

theorem inspect_lists_calls:
  assumes "list_all (\<lambda>p. utf8 (mp_channel p) \<and> utf8 (mp_message p)) ps"
  shows "parse_json (snd (snd (inspectHandler ''GET'' (slack_calls ps [])))) = Some (JObj [(''calls'', JArr (map message_json ps))])"
proof -
  from assms have "printable_list (\<lambda>_. []) 9998 (map message_json ps)" "reread_list (\<lambda>_. []) (map message_json ps) = map message_json ps"
    by (induction ps) (simp_all add: message_json_def utf8_def)
  then have "readable (JObj [(''calls'', JArr (map message_json ps))])" by (simp add: readable_def maxNestingDepth_def)
  then show ?thesis by (simp add: inspectHandler_def slack_calls_eq parse_encoded del: json_text.simps)
qed

theorem inspect_lists_calls_witness:
  "parse_json (snd (snd (inspectHandler ''GET'' (slack_calls [\<lparr>mp_channel = ''ops'', mp_message = ''hi''\<rparr>] [])))) =
     Some (JObj [(''calls'', JArr [JObj [(''channel'', JStr ''ops''), (''message'', JStr ''hi'')]])])"
  by (subst inspect_lists_calls) (simp_all add: utf8_def message_json_def)

end
