(* ===== verification/Example_Servers.thy ===== *)
theory Example_Servers
  imports Gateway_Http Fake_Servers
begin

text \<open>
  The \<open>main\<close> functions of \<open>examples\<close>: what the servers of the demonstrations need of the environment and which paths they
  serve; and the demonstration over HTTP, from the card that the gateway sends to the ticket that is approved. \<open>log.Fatal\<close>
  is a failure of \<open>main\<close>; the MCP handlers of the fake servers are the SDK's.
\<close>

section \<open>Mock Lark\<close>

datatype lark_mock_route = LmToken | LmMessages | LmHealthz

definition mock_lark_main ::
  "(string \<Rightarrow> string) \<Rightarrow> (string \<Rightarrow> 8 word list) \<Rightarrow> (mock_lark \<times> lark_mock_route mux \<times> string) go" where
  "mock_lark_main env sha =
     (if env ''GATEWAY_URL'' = [] \<or> env ''LARK_VERIFICATION_TOKEN'' = []
      then Fail (EMsg ''GATEWAY_URL and LARK_VERIFICATION_TOKEN are required'')
      else go_bind
        (mux_register [(''/open-apis/auth/v3/tenant_access_token/internal'', LmToken),
                       (''/open-apis/im/v1/messages'', LmMessages), (''/healthz'', LmHealthz)] [])
        (\<lambda>mux. Ret (\<lparr>ml_gateway = env ''GATEWAY_URL'', ml_token = env ''LARK_VERIFICATION_TOKEN'', ml_sha256 = sha\<rparr>, mux, '':8090'')))"

text \<open>Status and body of the reply and the ticket to be pressed, or nothing when the mux answers.\<close>

definition mock_lark_ServeHTTP ::
  "lark_mock_route mux \<Rightarrow> string \<Rightarrow> string \<Rightarrow> string go \<Rightarrow> ((int \<times> string) \<times> string option) option" where
  "mock_lark_ServeHTTP mux q path body =
     (case mux_find q path mux of
        MuxHandler LmToken \<Rightarrow> Some ((200, marshal handleTenantToken), None)
      | MuxHandler LmMessages \<Rightarrow> Some (handleSendMessage body)
      | MuxHandler LmHealthz \<Rightarrow> Some ((200, []), None)
      | _ \<Rightarrow> None)"

section \<open>Mock Slack\<close>

datatype slack_mock_route = SmMessages | SmHealthz

definition mock_slack_main :: "(string \<Rightarrow> string) \<Rightarrow> (string \<times> string \<times> slack_mock_route mux \<times> string) go" where
  "mock_slack_main env =
     (if env ''GATEWAY_URL'' = [] \<or> env ''SLACK_SIGNING_SECRET'' = []
      then Fail (EMsg ''GATEWAY_URL and SLACK_SIGNING_SECRET are required'')
      else go_bind (mux_register [(''/api/chat.postMessage'', SmMessages), (''/healthz'', SmHealthz)] [])
        (\<lambda>mux. Ret (env ''GATEWAY_URL'', env ''SLACK_SIGNING_SECRET'', mux, '':8090'')))"

section \<open>Fake MCP servers\<close>

datatype fake_route = FakeMcp | FakeInspect

text \<open>What \<open>main\<close> gives the SDK and the listener: the server's name and version, its tools in the order of their registration, the
  routes and the address.\<close>

record fake_server =
  fk_name :: string
  fk_version :: string
  fk_tools :: "(string \<times> string) list"
  fk_mux :: "fake_route mux"
  fk_addr :: string

definition stripe_main :: "fake_server go" where
  "stripe_main =
     go_bind (mux_register [(''/mcp'', FakeMcp)] [])
       (\<lambda>mux. Ret \<lparr>fk_name = ''fake-stripe'', fk_version = ''1.0.0'',
          fk_tools = map stripe_tool
            [CreateCharge \<lparr>cc_amount = 0, cc_currency = [], cc_customer = []\<rparr>, GetCustomer \<lparr>gc_customer = []\<rparr>,
             RefundSmall \<lparr>rf_amount = 0, rf_customer = []\<rparr>, RefundLarge \<lparr>rf_amount = 0, rf_customer = []\<rparr>,
             DeleteRecord \<lparr>dr_customer = []\<rparr>, StripeMessage \<lparr>mp_channel = [], mp_message = []\<rparr>],
          fk_mux = mux, fk_addr = '':8082''\<rparr>)"

definition zendesk_main :: "fake_server go" where
  "zendesk_main =
     go_bind (mux_register [(''/mcp'', FakeMcp)] [])
       (\<lambda>mux. Ret \<lparr>fk_name = ''fake-zendesk'', fk_version = ''1.0.0'',
          fk_tools = map zendesk_tool
            [CreateTicket \<lparr>ct_subject = [], ct_description = [], ct_customer = []\<rparr>, CloseTicket \<lparr>cl_ticket = []\<rparr>],
          fk_mux = mux, fk_addr = '':8083''\<rparr>)"

definition slack_main :: "fake_server go" where
  "slack_main =
     go_bind (mux_register [(''/mcp'', FakeMcp), (''/inspect'', FakeInspect)] [])
       (\<lambda>mux. Ret \<lparr>fk_name = ''fake-slack'', fk_version = ''1.0.0'', fk_tools = [slack_tool], fk_mux = mux, fk_addr = '':8084''\<rparr>)"

text \<open>A call names its tool: the names a server registers differ, and every call is one of them.\<close>

lemma fake_mux_alone: "mux_register [(''/mcp'', FakeMcp)] [] = Ret [(\<lparr>pt_method = [], pt_path = ''/mcp''\<rparr>, FakeMcp)]"
  by (simp add: mux_handle_def parse_pattern_def)

lemma stripe_tools_distinct:
  assumes "stripe_main = Ret S"
  shows "distinct (map fst (fk_tools S))" "stripe_tool c \<in> set (fk_tools S)"
proof -
  from assms have t: "fk_tools S =
      [stripe_tool (CreateCharge \<lparr>cc_amount = 0, cc_currency = [], cc_customer = []\<rparr>), stripe_tool (GetCustomer \<lparr>gc_customer = []\<rparr>),
       stripe_tool (RefundSmall \<lparr>rf_amount = 0, rf_customer = []\<rparr>), stripe_tool (RefundLarge \<lparr>rf_amount = 0, rf_customer = []\<rparr>),
       stripe_tool (DeleteRecord \<lparr>dr_customer = []\<rparr>), stripe_tool (StripeMessage \<lparr>mp_channel = [], mp_message = []\<rparr>)]"
    unfolding stripe_main_def fake_mux_alone by auto
  show "distinct (map fst (fk_tools S))" unfolding t by simp
  show "stripe_tool c \<in> set (fk_tools S)" unfolding t by (cases c) simp_all
qed

lemma zendesk_tools_distinct:
  assumes "zendesk_main = Ret S"
  shows "distinct (map fst (fk_tools S))" "zendesk_tool c \<in> set (fk_tools S)"
proof -
  from assms have t: "fk_tools S =
      [zendesk_tool (CreateTicket \<lparr>ct_subject = [], ct_description = [], ct_customer = []\<rparr>), zendesk_tool (CloseTicket \<lparr>cl_ticket = []\<rparr>)]"
    unfolding zendesk_main_def fake_mux_alone by auto
  show "distinct (map fst (fk_tools S))" unfolding t by simp
  show "zendesk_tool c \<in> set (fk_tools S)" unfolding t by (cases c) simp_all
qed

section \<open>What is served\<close>

lemma mains_start:
  "is_ret (mock_lark_main env sha) \<longleftrightarrow> env ''GATEWAY_URL'' \<noteq> [] \<and> env ''LARK_VERIFICATION_TOKEN'' \<noteq> []"
  "is_ret (mock_slack_main env) \<longleftrightarrow> env ''GATEWAY_URL'' \<noteq> [] \<and> env ''SLACK_SIGNING_SECRET'' \<noteq> []"
  "is_ret stripe_main" "is_ret zendesk_main" "is_ret slack_main"
  by (simp_all add: mock_lark_main_def mock_slack_main_def stripe_main_def zendesk_main_def slack_main_def mux_handle_def
      parse_pattern_def conflicts_def compare_patterns_def compare_methods_def compare_paths_def covers_def ends_slash_def)

text \<open>The two requests of the notifier, with the mock's address and \<open>/open-apis\<close> for its base, reach their handlers with any method.\<close>

lemma mock_lark_routed:
  assumes "mock_lark_main env sha = Ret (M, mux, addr)" and "q \<noteq> ''CONNECT''"
  shows "mux_find q ''/open-apis/auth/v3/tenant_access_token/internal'' mux = MuxHandler LmToken"
    "mux_find q ''/open-apis/im/v1/messages'' mux = MuxHandler LmMessages"
    "ml_gateway M = env ''GATEWAY_URL'' \<and> ml_token M = env ''LARK_VERIFICATION_TOKEN'' \<and> ml_sha256 M = sha"
proof -
  let ?a = "\<lparr>pt_method = [], pt_path = ''/open-apis/auth/v3/tenant_access_token/internal''\<rparr>"
    and ?b = "\<lparr>pt_method = [], pt_path = ''/open-apis/im/v1/messages''\<rparr>" and ?c = "\<lparr>pt_method = [], pt_path = ''/healthz''\<rparr>"
  from assms(1) have m: "mux = [(?a, LmToken), (?b, LmMessages), (?c, LmHealthz)]"
    and M: "M = \<lparr>ml_gateway = env ''GATEWAY_URL'', ml_token = env ''LARK_VERIFICATION_TOKEN'', ml_sha256 = sha\<rparr>"
    by (auto simp: mock_lark_main_def mux_handle_def parse_pattern_def conflicts_def compare_patterns_def compare_methods_def
        compare_paths_def covers_def ends_slash_def split: if_splits)
  have c: "cleanPath (pt_path ?a) = pt_path ?a" "cleanPath (pt_path ?b) = pt_path ?b"
    by (simp_all add: cleanPath_def ends_slash_def)
  have t: "tree_match q (pt_path ?a) mux = Some (?a, LmToken)" "tree_match q (pt_path ?b) mux = Some (?b, LmMessages)"
    by (auto simp: tree_match_def longest_match_def m covers_def ends_slash_def)
  show "mux_find q ''/open-apis/auth/v3/tenant_access_token/internal'' mux = MuxHandler LmToken"
    using assms(2) c(1) t(1) by (simp add: mux_find_def slash_redirect_def Let_def)
  show "mux_find q ''/open-apis/im/v1/messages'' mux = MuxHandler LmMessages"
    using assms(2) c(2) t(2) by (simp add: mux_find_def slash_redirect_def Let_def)
  show "ml_gateway M = env ''GATEWAY_URL'' \<and> ml_token M = env ''LARK_VERIFICATION_TOKEN'' \<and> ml_sha256 M = sha" by (simp add: M)
qed

section \<open>The demonstration over HTTP\<close>

text \<open>The request of \<open>http.NewRequest\<close> for the gateway's address and the path after it.\<close>

definition approve_request :: "mock_lark \<Rightarrow> string \<Rightarrow> int \<Rightarrow> http_request" where
  "approve_request M ticket now =
     (case sendApproveAction M ticket now of
        (url, a) \<Rightarrow>
          \<lparr>ht_method = ''POST'', ht_path = drop (length (ml_gateway M)) url,
           ht_headers = [(''Content-Type'', ''application/json''), (''X-Lark-Request-Timestamp'', wr_timestamp a),
                         (''X-Lark-Request-Nonce'', wr_nonce a), (''X-Lark-Signature'', wr_signature a)],
           ht_body = wr_body a, ht_read_err = None, ht_ctx_err = None, ht_flusher = True, ht_stream = []\<rparr>)"

lemma lark_headers:
  "CanonicalMIMEHeaderKey ''Content-Type'' = ''Content-Type''"
  "CanonicalMIMEHeaderKey ''X-Lark-Request-Timestamp'' = ''X-Lark-Request-Timestamp''"
  "CanonicalMIMEHeaderKey ''X-Lark-Request-Nonce'' = ''X-Lark-Request-Nonce''"
  "CanonicalMIMEHeaderKey ''X-Lark-Signature'' = ''X-Lark-Signature''"
  by code_simp+

lemma approve_request_read:
  "lark_request_of (approve_request M ticket now) = snd (sendApproveAction M ticket now)"
  "ht_method (approve_request M ticket now) = ''POST''" "ht_path (approve_request M ticket now) = ''/lark/actions''"
  by (simp_all add: approve_request_def lark_request_of_def header_get_def lark_headers sendApproveAction_def Let_def
      del: json_text.simps)

lemma record_decision_answer:
  "fst (wh_update H ticket st user w) = None \<Longrightarrow> fst (record_decision H ticket st user w) = json_reply ''{}''"
  by (auto simp: record_decision_def Let_def split: prod.splits)

lemma update_answers:
  assumes "ts_faults t = []" and "st \<in> set ticket_statuses"
  shows "fst (ts_update_status i st u t) = None"
  using assms by (auto simp: ts_update_status_def next_fault_def Let_def split: option.splits)

text \<open>
  C24. The demonstration closes the loop over HTTP: started with the gateway's address and verification token, the mock serves the message
  of a held call, whatever the bytes of its arguments, and presses Approve; the gateway routes the press to its webhook,
  accepts it (clocks at most five minutes apart), answers \<open>{}\<close>, and the pending ticket is approved.
\<close>

theorem demo_loop_over_http:
  assumes "mock_lark_main env sha = Ret (M, lmux, addr)" and "gateway_mux H = Ret mux"
    and "cfg_lark_token (hg_config H) = env ''LARK_VERIFICATION_TOKEN''" and "hg_sha256 H = sha"
    and "ticket \<noteq> []" and "utf8 ticket" and "ticket_status (gw_tickets (ss_world s)) ticket = Some ''pending''"
    and "ts_faults (gw_tickets (ss_world s)) = []"
    and "\<bar>gw_clock (ss_world s) div second - now\<bar> \<le> 300" and "0 \<le> now" and "now < 2 ^ 62"
  shows "(\<exists>rep. mock_lark_ServeHTTP lmux ''POST'' ''/open-apis/im/v1/messages''
        (Ret (marshal (hq_body (message_request L c token ticket t)))) = Some (rep, Some ticket)) \<and>
    (\<exists>s'. gateway_ServeHTTP H mux (approve_request M ticket now) s = (AnLark (json_reply ''{}''), s') \<and>
       ticket_status (gw_tickets (ss_world s')) ticket = Some ''approved'')"
proof
  note m = mock_lark_routed [OF assms(1), of "''POST''"]
  show "\<exists>rep. mock_lark_ServeHTTP lmux ''POST'' ''/open-apis/im/v1/messages''
        (Ret (marshal (hq_body (message_request L c token ticket t)))) = Some (rep, Some ticket)"
    using m card_pressed [OF assms(5,6), of L c token t] by (simp add: mock_lark_ServeHTTP_def) (metis prod.collapse)
  let ?W = "gw_webhook H" and ?q = "approve_request M ticket now" and ?w = "ss_world s"
  have r: "webhook_ServeHTTP ?W (lark_request_of ?q) ?w = record_decision ?W ticket ''approved'' ''ou_mock-user'' ?w"
    unfolding approve_request_read
    by (rule press_recorded) (use assms m in \<open>simp_all add: gw_webhook_def NewLarkWebhookHandler_def\<close>)
  have f: "mux_find (ht_method ?q) (ht_path ?q) mux = MuxHandler RouteLark"
    using assms(2) gateway_routed [of "''POST''" "''/lark/actions''"]
    by (simp add: approve_request_read gateway_mux_routes gateway_route_def cleanPath_def ends_slash_def)
  obtain t1 where u: "ts_update_status ticket ''approved'' ''ou_mock-user'' (gw_tickets ?w) = (None, t1)"
    using update_answers [OF assms(8), of "''approved''" ticket "''ou_mock-user''"]
    by (cases "ts_update_status ticket ''approved'' ''ou_mock-user'' (gw_tickets ?w)") (simp add: ticket_statuses_def)
  obtain rep w1 where w1: "record_decision ?W ticket ''approved'' ''ou_mock-user'' ?w = (rep, w1)" by (metis prod.exhaust)
  have "rep = json_reply ''{}''"
    using record_decision_answer [of ?W ticket "''approved''" "''ou_mock-user''" ?w] u w1 by simp
  moreover have "ticket_status (gw_tickets w1) ticket = Some ''approved''"
    using http_hook.record_decision_status [of H ticket "''approved''" "''ou_mock-user''" ?w] u w1
      ts_update_status_ok [OF u] assms(7) by simp
  ultimately show "\<exists>s'. gateway_ServeHTTP H mux ?q s = (AnLark (json_reply ''{}''), s') \<and>
       ticket_status (gw_tickets (ss_world s')) ticket = Some ''approved''"
    by (simp add: gateway_ServeHTTP_def f r w1)
qed

theorem demo_loop_over_http_witness:
  "\<exists>M lmux addr s'. mock_lark_main (\<lambda>k. if k = ''GATEWAY_URL'' then ''http://gw'' else ''d'') (\<lambda>_. []) = Ret (M, lmux, addr) \<and>
     gateway_ServeHTTP demo_http_gateway gateway_routes (approve_request M ''b2'' 100) (with_tickets pending_store) =
       (AnLark (json_reply ''{}''), s') \<and>
     ticket_status (gw_tickets (ss_world s')) ''b2'' = Some ''approved''"
proof -
  let ?env = "\<lambda>k. if k = ''GATEWAY_URL'' then ''http://gw'' else ''d''"
  have "is_ret (mock_lark_main ?env (\<lambda>_. []))" by (simp add: mains_start)
  then obtain M lmux addr where M: "mock_lark_main ?env (\<lambda>_. []) = Ret (M, lmux, addr)"
    by (cases "mock_lark_main ?env (\<lambda>_. [])") auto
  have "gw_clock (ss_world (with_tickets pending_store)) div second = 0"
    by (simp add: with_tickets_def open_session_def demo_server_state_def demo_gateway_def second_def)
  then have "\<exists>s'. gateway_ServeHTTP demo_http_gateway gateway_routes (approve_request M ''b2'' 100) (with_tickets pending_store) =
       (AnLark (json_reply ''{}''), s') \<and> ticket_status (gw_tickets (ss_world s')) ''b2'' = Some ''approved''"
    by (intro demo_loop_over_http [OF M gateway_mux_routes, THEN conjunct2])
      (simp_all add: demo_http_gateway_def demo_config_def utf8_def, simp_all add: pending_store_def ticket_status_def)
  with M show ?thesis by blast
qed

end
