(* ===== verification/Approval_Pubsub.thy ===== *)
theory Approval_Pubsub
  imports Approval_Bridge
begin

text \<open>
  \<open>redisApprovalPubSub\<close> of \<open>cmd/gateway/approval_bridge.go\<close>: the goroutine \<open>pump\<close> between the subscription of the Redis
  client and the wait, over a channel with room for one message, as a step relation. The steps of the pump, of the wait that receives, of
  messages that come in and of \<open>Close\<close> interleave freely. That what the wait receives is what the function \<open>pump\<close> of the bridge
  makes of the messages is a theorem here.
\<close>

section \<open>The steps\<close>

datatype pump_state = Ranging | Sending bridge_event bool | PumpDone

record approval_pubsub =
  ps_feed :: "string option list"
  ps_open :: bool
  ps_pump :: pump_state
  ps_ch :: "bridge_event list"

definition newRedisApprovalPubSub :: approval_pubsub where
  "newRedisApprovalPubSub = \<lparr>ps_feed = [], ps_open = True, ps_pump = Ranging, ps_ch = []\<rparr>"

definition approval_message :: "string option \<Rightarrow> bridge_event" where
  "approval_message m = (case m of None \<Rightarrow> BrNil | Some p \<Rightarrow> BrMessage p)"

datatype ps_event =
    PsArrive "string option"
  | PsPump
  | PsSend
  | PsReceive bridge_event
  | PsClose

text \<open>The pump takes a message of the client's channel, a nil one being its last, or sees that channel closed and empty;
  it sends when the channel to the wait has room.\<close>

inductive ps_step :: "approval_pubsub \<Rightarrow> ps_event \<Rightarrow> approval_pubsub \<Rightarrow> bool" where
  arrive: "ps_open s \<Longrightarrow> ps_step s (PsArrive m) (s\<lparr>ps_feed := ps_feed s @ [m]\<rparr>)"
| take: "ps_pump s = Ranging \<Longrightarrow> ps_feed s = m # rest \<Longrightarrow>
    ps_step s PsPump (s\<lparr>ps_feed := rest, ps_pump := Sending (approval_message m) (m = None)\<rparr>)"
| ended: "ps_pump s = Ranging \<Longrightarrow> ps_feed s = [] \<Longrightarrow> \<not> ps_open s \<Longrightarrow>
    ps_step s PsPump (s\<lparr>ps_pump := Sending BrNil True\<rparr>)"
| send: "ps_pump s = Sending e fin \<Longrightarrow> ps_ch s = [] \<Longrightarrow>
    ps_step s PsSend (s\<lparr>ps_ch := [e], ps_pump := (if fin then PumpDone else Ranging)\<rparr>)"
| receive: "ps_ch s = e # rest \<Longrightarrow> ps_step s (PsReceive e) (s\<lparr>ps_ch := rest\<rparr>)"
| close: "ps_step s PsClose (s\<lparr>ps_open := False\<rparr>)"

inductive ps_run :: "approval_pubsub \<Rightarrow> ps_event list \<Rightarrow> approval_pubsub \<Rightarrow> bool" where
  run_nil: "ps_run s [] s"
| run_step: "ps_step s ev s1 \<Longrightarrow> ps_run s1 tr s' \<Longrightarrow> ps_run s (ev # tr) s'"

inductive_cases ps_stepE: "ps_step s ev s'"
inductive_simps ps_run_simps [simp]: "ps_run s [] s'" "ps_run s (ev # tr) s'"

fun arrived :: "ps_event list \<Rightarrow> string option list" where
  "arrived [] = []"
| "arrived (PsArrive m # tr) = m # arrived tr"
| "arrived (_ # tr) = arrived tr"

fun received :: "ps_event list \<Rightarrow> bridge_event list" where
  "received [] = []"
| "received (PsReceive e # tr) = e # received tr"
| "received (_ # tr) = received tr"

section \<open>What is received\<close>

text \<open>What is still to be received, if nothing more comes in.\<close>

definition to_send :: "approval_pubsub \<Rightarrow> bridge_event list" where
  "to_send s =
     (case ps_pump s of
        Ranging \<Rightarrow> pump (ps_feed s)
      | Sending e fin \<Rightarrow> e # (if fin then [] else pump (ps_feed s))
      | PumpDone \<Rightarrow> [])"

definition outstanding :: "approval_pubsub \<Rightarrow> bridge_event list" where
  "outstanding s = ps_ch s @ to_send s"

text \<open>A closed subscription gets no more messages, and only one that is closed is seen to end.\<close>

definition ps_ok :: "approval_pubsub \<Rightarrow> bool" where
  "ps_ok s = (length (ps_ch s) \<le> 1)"

lemma ps_step_ok: "ps_step s ev s' \<Longrightarrow> ps_ok s \<Longrightarrow> ps_ok s'"
  by (induction rule: ps_step.induct) (auto simp: ps_ok_def)

lemma pump_not_Nil [simp]: "pump ms \<noteq> []"
  by (cases ms rule: pump.cases) auto

lemma pump_append: "pump (ms @ ms') = (if None \<in> set ms then pump ms else butlast (pump ms) @ pump ms')"
  by (induction ms rule: pump.induct) auto

lemma pump_Cons: "pump (m # ms) = approval_message m # (if m = None then [] else pump ms)"
  by (cases m) (simp_all add: approval_message_def)

text \<open>Every step but an arrival keeps what was received and is outstanding; an arrival can only put messages before the last.\<close>

lemma step_outstanding:
  assumes "ps_step s ev s'" "\<forall>m. ev \<noteq> PsArrive m"
  shows "outstanding s = received [ev] @ outstanding s'"
  using assms by (cases rule: ps_step.cases) (auto simp: outstanding_def to_send_def pump_Cons split: pump_state.split)

definition feed_ended :: "approval_pubsub \<Rightarrow> bool" where
  "feed_ended s = (case ps_pump s of Ranging \<Rightarrow> None \<in> set (ps_feed s)
     | Sending e fin \<Rightarrow> fin \<or> None \<in> set (ps_feed s) | PumpDone \<Rightarrow> True)"

lemma arrive_outstanding:
  "outstanding (s\<lparr>ps_feed := ps_feed s @ [m]\<rparr>) =
     (if feed_ended s then outstanding s else butlast (outstanding s) @ pump [m])"
  by (auto simp: outstanding_def to_send_def feed_ended_def pump_append butlast_append split: pump_state.splits)

text \<open>The history of a run: what was received, then what is outstanding, is what the pump makes of all that came in.\<close>

definition history_ok :: "approval_pubsub \<Rightarrow> string option list \<Rightarrow> bridge_event list \<Rightarrow> bool" where
  "history_ok s ms es =
     (es @ outstanding s = pump ms \<and> (None \<in> set ms \<longrightarrow> feed_ended s) \<and>
      (feed_ended s \<longrightarrow> None \<in> set ms \<or> \<not> ps_open s))"

lemma butlast_outstanding: "outstanding s \<noteq> [] \<or> feed_ended s"
  by (auto simp: outstanding_def to_send_def feed_ended_def split: pump_state.splits)

lemma not_ended_outstanding: "\<not> feed_ended s \<Longrightarrow> outstanding s \<noteq> []"
  using butlast_outstanding by blast

lemma step_history:
  assumes "ps_step s ev s'" "history_ok s ms es"
  shows "history_ok s' (ms @ arrived [ev]) (es @ received [ev])"
  using assms(1)
proof (cases rule: ps_step.cases)
  case (arrive m)
  show ?thesis
  proof (cases "feed_ended s")
    case True
    with arrive assms(2) have "None \<in> set ms" by (simp add: history_ok_def)
    moreover from True have "feed_ended (s\<lparr>ps_feed := ps_feed s @ [m]\<rparr>)"
      by (auto simp: feed_ended_def split: pump_state.splits)
    ultimately show ?thesis using arrive assms(2) True by (simp add: history_ok_def arrive_outstanding pump_append)
  next
    case False
    with assms(2) have p: "es @ outstanding s = pump ms" by (simp add: history_ok_def)
    from assms(2) False have n: "None \<notin> set ms" by (auto simp: history_ok_def)
    from p not_ended_outstanding [OF False] have "butlast (pump ms) = es @ butlast (outstanding s)"
      by (metis butlast_append)
    with arrive False n show ?thesis by (auto simp: history_ok_def arrive_outstanding pump_append feed_ended_def split: pump_state.splits)
  qed
qed (use assms step_outstanding [OF assms(1)] in \<open>auto simp: history_ok_def feed_ended_def approval_message_def split: option.splits pump_state.splits\<close>)

lemma arrived_Cons: "arrived (ev # tr) = arrived [ev] @ arrived tr"
  by (cases ev) simp_all

lemma received_Cons: "received (ev # tr) = received [ev] @ received tr"
  by (cases ev) simp_all

lemma run_history:
  "ps_run s tr s' \<Longrightarrow> history_ok s ms es \<Longrightarrow> history_ok s' (ms @ arrived tr) (es @ received tr)"
proof (induction arbitrary: ms es rule: ps_run.induct)
  case (run_step s ev s1 tr s')
  from run_step.IH [OF step_history [OF run_step.hyps(1) run_step.prems]] show ?case
    by (simp add: arrived_Cons [of ev tr] received_Cons [of ev tr])
qed simp

lemma new_history: "history_ok newRedisApprovalPubSub [] []"
  by (simp add: history_ok_def newRedisApprovalPubSub_def outstanding_def to_send_def feed_ended_def)

lemma received_then_outstanding:
  assumes "ps_run newRedisApprovalPubSub tr s"
  shows "received tr @ outstanding s = pump (arrived tr)"
  using run_history [OF assms new_history] by (simp add: history_ok_def)

section \<open>The wait over its subscription\<close>

definition from_channel :: "bridge_event \<Rightarrow> bool" where
  "from_channel ev = (ev = BrNil \<or> (\<exists>p. ev = BrMessage p))"

lemma from_channel_simps [simp]:
  "from_channel (BrMessage p)" "from_channel BrNil" "\<not> from_channel BrTick" "\<not> from_channel BrTimeout" "\<not> from_channel BrDone"
  by (simp_all add: from_channel_def)

lemma pump_messages: "prefix (map BrMessage ms) (pump as) \<longleftrightarrow> prefix (map Some ms) as"
proof (induction as arbitrary: ms rule: pump.induct)
  case 1
  show ?case by (cases ms) simp_all
next
  case (2 as)
  show ?case by (cases ms) simp_all
next
  case (3 p as)
  then show ?case by (cases ms) auto
qed

lemma passing_from_channel:
  "list_all passing evs \<Longrightarrow> \<exists>ms. filter from_channel evs = map BrMessage ms \<and> list_all (\<lambda>m. m \<noteq> ''approved'' \<and> m \<noteq> ''denied'') ms"
proof (induction evs)
  case (Cons ev evs)
  then obtain ms where "filter from_channel evs = map BrMessage ms" "list_all (\<lambda>m. m \<noteq> ''approved'' \<and> m \<noteq> ''denied'') ms" by auto
  with Cons.prems show ?case
    by (cases ev) (auto intro: exI [of _ ms] exI [of _ "_ # ms"])
qed (auto intro: exI [of _ "[]"])



text \<open>The witness: a stray message, a tick and the approval.\<close>

definition demo_pubsub_trace :: "ps_event list" where
  "demo_pubsub_trace =
     [PsArrive (Some ''hello''), PsPump, PsSend, PsArrive (Some ''approved''), PsReceive (BrMessage ''hello''), PsPump, PsSend,
      PsReceive (BrMessage ''approved'')]"

lemma demo_pubsub_run:
  "ps_run newRedisApprovalPubSub demo_pubsub_trace \<lparr>ps_feed = [], ps_open = True, ps_pump = Ranging, ps_ch = []\<rparr>"
proof -
  let ?s = "\<lambda>feed p ch. \<lparr>ps_feed = feed, ps_open = True, ps_pump = p, ps_ch = ch\<rparr>"
  let ?h = "BrMessage ''hello''" and ?a = "BrMessage ''approved''"
  have "ps_step (?s [] Ranging []) (PsArrive (Some ''hello'')) (?s [Some ''hello''] Ranging [])"
    using arrive [of "?s [] Ranging []" "Some ''hello''"] by simp
  moreover have "ps_step (?s [Some m] Ranging ch) PsPump (?s [] (Sending (BrMessage m) False) ch)" for m ch
    using take [of "?s [Some m] Ranging ch"] by (simp add: approval_message_def)
  moreover have "ps_step (?s feed (Sending e False) []) PsSend (?s feed Ranging [e])" for feed e
    using send [of "?s feed (Sending e False) []" e False] by simp
  moreover have "ps_step (?s [] Ranging [?h]) (PsArrive (Some ''approved'')) (?s [Some ''approved''] Ranging [?h])"
    using arrive [of "?s [] Ranging [?h]" "Some ''approved''"] by simp
  moreover have "ps_step (?s feed Ranging [e]) (PsReceive e) (?s feed Ranging [])" for feed e
    using receive [of "?s feed Ranging [e]"] by simp
  ultimately show ?thesis
    unfolding demo_pubsub_trace_def newRedisApprovalPubSub_def ps_run_simps by blast
qed

definition demo_bridge_env :: "unit bridge_env" where
  "demo_bridge_env =
     NewRedisApprovalBridge (\<lambda>i st b w. (None, w)) (\<lambda>c s t w. (None, w)) (\<lambda>x w. w) 60000000000 0"


section \<open>The end of the pump\<close>

text \<open>Once the wait has returned, nothing is received any more.\<close>

lemma arrive_grows: "length (outstanding s) \<le> length (outstanding (s\<lparr>ps_feed := ps_feed s @ [m]\<rparr>))"
proof -
  have "pump [m] = [approval_message m] @ (if m = None then [] else [BrNil])" by (simp add: pump_Cons)
  then show ?thesis by (simp add: arrive_outstanding) arith
qed

lemma outstanding_grows: "ps_step s ev s' \<Longrightarrow> received [ev] = [] \<Longrightarrow> length (outstanding s) \<le> length (outstanding s')"
proof (cases "\<exists>m. ev = PsArrive m")
  case True
  assume "ps_step s ev s'"
  then show ?thesis using True by (cases rule: ps_step.cases) (auto simp: arrive_grows)
qed (use step_outstanding [of s ev s'] in simp)

lemma unreceived_grows:
  "ps_run s tr s' \<Longrightarrow> received tr = [] \<Longrightarrow> length (outstanding s) \<le> length (outstanding s')"
proof (induction rule: ps_run.induct)
  case (run_step s ev s1 tr s')
  from run_step.prems have "received [ev] = []" "received tr = []" by (simp_all add: received_Cons [of ev tr])
  with run_step show ?case using outstanding_grows order_trans by blast
qed simp

lemma ps_run_ok: "ps_run s tr s' \<Longrightarrow> ps_ok s \<Longrightarrow> ps_ok s'"
  by (induction rule: ps_run.induct) (blast intro: ps_step_ok)+

lemma pump_finishes:
  assumes "\<not> ps_open s" "length (outstanding s) \<le> 1"
  shows "\<exists>tr s'. ps_run s tr s' \<and> received tr = [] \<and> ps_pump s' = PumpDone"
proof (cases "ps_pump s")
  case Ranging
  from assms(2) Ranging have ch: "ps_ch s = []" "length (pump (ps_feed s)) \<le> 1"
    by (simp_all add: outstanding_def to_send_def) (cases "ps_ch s"; simp add: Suc_le_eq)+
  have "\<exists>s1. ps_step s PsPump s1 \<and> ps_ch s1 = [] \<and> (\<exists>e. ps_pump s1 = Sending e True)"
  proof (cases "ps_feed s")
    case Nil
    with ended [OF Ranging Nil assms(1)] ch show ?thesis by (intro exI [of _ "s\<lparr>ps_pump := Sending BrNil True\<rparr>"]) simp
  next
    case (Cons m rest)
    with ch have "m = None" by (cases m) (auto simp: le_Suc_eq)
    with take [OF Ranging Cons] ch show ?thesis
      by (intro exI [of _ "s\<lparr>ps_feed := rest, ps_pump := Sending BrNil True\<rparr>"]) (simp add: approval_message_def)
  qed
  then obtain s1 e where s1: "ps_step s PsPump s1" "ps_ch s1 = []" "ps_pump s1 = Sending e True" by blast
  with send [OF s1(3,2)] have "ps_run s [PsPump, PsSend] (s1\<lparr>ps_ch := [e], ps_pump := PumpDone\<rparr>)" by auto
  then show ?thesis by (intro exI [of _ "[PsPump, PsSend]"] exI conjI) auto
next
  case (Sending e fin)
  from assms(2) Sending have ch: "ps_ch s = []" "fin"
    by (cases "ps_ch s"; cases fin; simp add: outstanding_def to_send_def)+
  with send [OF Sending ch(1)] have "ps_run s [PsSend] (s\<lparr>ps_ch := [e], ps_pump := PumpDone\<rparr>)" by auto
  then show ?thesis by (intro exI [of _ "[PsSend]"] exI conjI) auto
next
  case PumpDone
  then show ?thesis by (intro exI [of _ "[]"] exI [of _ s]) simp
qed

text \<open>
  C15. The goroutine of a subscription outlives its wait when two messages were left: after \<open>Close\<close>, and with nothing more received, the
  pump can end exactly when the wait had received all but at most one of what came in and the final nil message. A second signal,
  or one that comes in as the timer fires, leaves it blocked for ever.
\<close>

theorem subscription_ends_iff:
  assumes "ps_run newRedisApprovalPubSub tr s" and "\<not> ps_open s"
  shows "(\<exists>tr' s'. ps_run s tr' s' \<and> received tr' = [] \<and> ps_pump s' = PumpDone) \<longleftrightarrow>
    length (pump (arrived tr)) \<le> length (received tr) + 1"
proof -
  have ok: "ps_ok s" using ps_run_ok [OF assms(1)] by (simp add: ps_ok_def newRedisApprovalPubSub_def)
  have "length (received tr) + length (outstanding s) = length (pump (arrived tr))"
    using arg_cong [OF received_then_outstanding [OF assms(1)], of length] by simp
  moreover have "(\<exists>tr' s'. ps_run s tr' s' \<and> received tr' = [] \<and> ps_pump s' = PumpDone) \<longleftrightarrow> length (outstanding s) \<le> 1"
  proof
    assume "\<exists>tr' s'. ps_run s tr' s' \<and> received tr' = [] \<and> ps_pump s' = PumpDone"
    then obtain tr' s' where r: "ps_run s tr' s'" "received tr' = []" "ps_pump s' = PumpDone" by blast
    from unreceived_grows [OF r(1,2)] r(3) ps_run_ok [OF r(1) ok] show "length (outstanding s) \<le> 1"
      by (simp add: outstanding_def to_send_def ps_ok_def)
  qed (rule pump_finishes [OF assms(2)])
  ultimately show ?thesis by auto
qed

theorem subscription_ends_iff_witness:
  "\<exists>s. ps_run newRedisApprovalPubSub [PsArrive (Some ''approved''), PsClose] s \<and>
     \<not> (\<exists>tr' s'. ps_run s tr' s' \<and> received tr' = [] \<and> ps_pump s' = PumpDone)"
proof -
  let ?tr = "[PsArrive (Some ''approved''), PsClose]"
  let ?s = "\<lparr>ps_feed = [Some ''approved''], ps_open = False, ps_pump = Ranging, ps_ch = []\<rparr>"
  have r: "ps_run newRedisApprovalPubSub ?tr ?s"
    using arrive [of newRedisApprovalPubSub "Some ''approved''"]
      close [of "newRedisApprovalPubSub\<lparr>ps_feed := [Some ''approved'']\<rparr>"]
    by (auto simp: newRedisApprovalPubSub_def)
  from subscription_ends_iff [OF r] r show ?thesis by (intro exI [of _ ?s]) simp
qed

end
