(* ===== verification/Guarded_Calls.thy ===== *)
theory Guarded_Calls
  imports Concurrency_Guard
begin

text \<open>
  Many tool calls at once under \<open>ConcurrencyGuard.Execute\<close>, as a transition system over one Redis: each call goes through the guard step by
  step, a step being one round trip to Redis (which may fail before or after the script ran), and the steps of all calls interleave
  freely with the passing of time. It is timely when no call holds its locks for the time to live. The invariant relates the keys
  to the calls: the lease of a session is at least as long and as often held as the calls that hold it say, and the keys of a turn
  agree with the calls that run in it.
\<close>

section \<open>The transition system\<close>

text \<open>Where a call is; with the time since it got or extended the session's lock, the time since it got the turn's lock and, for a
  write, its token.\<close>

datatype guard_pc =
    Waiting
  | InSession int
  | Running int int string
  | Leaving int
  | Ended

record guarded_call =
  gl_session :: string
  gl_turn :: string
  gl_class :: operation_class
  gl_pc :: guard_pc

fun older :: "int \<Rightarrow> guard_pc \<Rightarrow> guard_pc" where
  "older x (InSession a) = InSession (a + x)"
| "older x (Running a b tok) = Running (a + x) (b + x) tok"
| "older x (Leaving a) = Leaving (a + x)"
| "older x pc = pc"

fun session_age :: "guard_pc \<Rightarrow> int option" where
  "session_age (InSession a) = Some a"
| "session_age (Running a b tok) = Some a"
| "session_age (Leaving a) = Some a"
| "session_age _ = None"

fun turn_age :: "guard_pc \<Rightarrow> (int \<times> string) option" where
  "turn_age (Running a b tok) = Some (b, tok)"
| "turn_age _ = None"

record 'k lock_world =
  lw_redis :: 'k
  lw_calls :: "nat \<Rightarrow> guarded_call option"
  lw_tries :: int

definition move :: "nat \<Rightarrow> guarded_call \<Rightarrow> guard_pc \<Rightarrow> 'k \<Rightarrow> 'k lock_world \<Rightarrow> 'k lock_world" where
  "move i q pc k s = s\<lparr>lw_redis := k, lw_calls := (lw_calls s)(i \<mapsto> q\<lparr>gl_pc := pc\<rparr>)\<rparr>"

definition at_pc :: "'k lock_world \<Rightarrow> nat \<Rightarrow> guarded_call \<Rightarrow> guard_pc \<Rightarrow> bool" where
  "at_pc s i q pc = (lw_calls s i = Some q \<and> gl_pc q = pc)"

definition timely :: "int \<Rightarrow> int \<Rightarrow> (nat \<Rightarrow> guarded_call option) \<Rightarrow> bool" where
  "timely ttl x calls =
     (\<forall>i q. calls i = Some q \<longrightarrow>
        (\<forall>a. session_age (gl_pc q) = Some a \<longrightarrow> a + x < ttl) \<and> (\<forall>b tok. turn_age (gl_pc q) = Some (b, tok) \<longrightarrow> b + x < ttl))"

definition lock_keys_same :: "keyspace \<Rightarrow> keyspace \<Rightarrow> bool" where
  "lock_keys_same v v' =
     ((\<forall>s. v' (sessionLockKey s) = v (sessionLockKey s) \<and> v' (sessionLockRefCountKey s) = v (sessionLockRefCountKey s)) \<and>
      (\<forall>t. v' (turnReadersKey t) = v (turnReadersKey t) \<and> v' (turnWriteLockKey t) = v (turnWriteLockKey t)))"

text \<open>\<open>ok x calls\<close> says when \<open>x\<close> milliseconds may pass. The number of tries is counted, for Redis' integers have 64 bits.\<close>

inductive call_step ::
  "'k redis \<Rightarrow> ('k \<Rightarrow> keyspace) \<Rightarrow> int \<Rightarrow> (int \<Rightarrow> (nat \<Rightarrow> guarded_call option) \<Rightarrow> bool) \<Rightarrow> 'k lock_world \<Rightarrow> 'k lock_world \<Rightarrow> bool"
  for R :: "'k redis" and view :: "'k \<Rightarrow> keyspace" and ttl :: int and ok :: "int \<Rightarrow> (nat \<Rightarrow> guarded_call option) \<Rightarrow> bool" where
  arrive: "lw_calls s i = None \<Longrightarrow>
     call_step R view ttl ok s (s\<lparr>lw_calls := (lw_calls s)(i \<mapsto> \<lparr>gl_session = sid, gl_turn = tid, gl_class = cl, gl_pc = Waiting\<rparr>)\<rparr>)"
| acquire: "at_pc s i q Waiting \<Longrightarrow>
     evalBoolResult R c (sessionLockAcquireScript R (sessionLockKey (gl_session q)) (sessionLockRefCountKey (gl_session q))
       (gl_turn q) ttl) (lw_redis s) = (out, k) \<Longrightarrow>
     call_step R view ttl ok s
       ((move i q (case out of Ret True \<Rightarrow> InSession 0 | Ret False \<Rightarrow> Waiting | _ \<Rightarrow> Ended) k s)\<lparr>lw_tries := lw_tries s + 1\<rparr>)"
| session_busy: "at_pc s i q Waiting \<Longrightarrow> call_step R view ttl ok s (move i q Ended (lw_redis s) s)"
| read_lock: "at_pc s i q (InSession a) \<Longrightarrow> gl_class q = OperationClassRead \<Longrightarrow>
     evalAcquireResult R c (turnReadLockScript R (turnReadersKey (gl_turn q)) (turnWriteLockKey (gl_turn q)) ttl) (lw_redis s) = (out, k) \<Longrightarrow>
     call_step R view ttl ok s
       ((move i q (case out of Ret True \<Rightarrow> Running a 0 [] | Ret False \<Rightarrow> InSession a | _ \<Rightarrow> Leaving a) k s)\<lparr>lw_tries := lw_tries s + 1\<rparr>)"
| write_lock: "at_pc s i q (InSession a) \<Longrightarrow> gl_class q \<noteq> OperationClassRead \<Longrightarrow>
     evalAcquireResult R c (turnWriteLockScript R (turnReadersKey (gl_turn q)) (turnWriteLockKey (gl_turn q)) tok ttl) (lw_redis s) = (out, k) \<Longrightarrow>
     call_step R view ttl ok s
       (move i q (case out of Ret True \<Rightarrow> Running a 0 tok | Ret False \<Rightarrow> InSession a | _ \<Rightarrow> Leaving a) k s)"
| turn_busy: "at_pc s i q (InSession a) \<Longrightarrow> call_step R view ttl ok s (move i q (Leaving a) (lw_redis s) s)"
| extend: "at_pc s i q (Running a b tok) \<Longrightarrow>
     evalBoolResult R c (sessionLockExtendScript R (sessionLockKey (gl_session q)) (sessionLockRefCountKey (gl_session q))
       (gl_turn q) ttl) (lw_redis s) = (out, k) \<Longrightarrow>
     call_step R view ttl ok s (move i q (Running (if out = Ret True then 0 else a) b tok) k s)"
| read_unlock: "at_pc s i q (Running a b tok) \<Longrightarrow> gl_class q = OperationClassRead \<Longrightarrow>
     rw_ReadUnlock R c (gl_turn q) (lw_redis s) = (e, k) \<Longrightarrow> call_step R view ttl ok s (move i q (Leaving a) k s)"
| write_unlock: "at_pc s i q (Running a b tok) \<Longrightarrow> gl_class q \<noteq> OperationClassRead \<Longrightarrow>
     rw_WriteUnlock R c (gl_turn q) tok (lw_redis s) = (e, k) \<Longrightarrow> call_step R view ttl ok s (move i q (Leaving a) k s)"
| release: "at_pc s i q (Leaving a) \<Longrightarrow>
     sl_Release R c (gl_session q) (gl_turn q) (lw_redis s) = (e, k) \<Longrightarrow> call_step R view ttl ok s (move i q Ended k s)"
| passes: "0 \<le> x \<Longrightarrow> ok x (lw_calls s) \<Longrightarrow>
     call_step R view ttl ok s
       (s\<lparr>lw_redis := rd_tick R x (lw_redis s),
          lw_calls := (\<lambda>i. map_option (\<lambda>q. q\<lparr>gl_pc := older x (gl_pc q)\<rparr>) (lw_calls s i))\<rparr>)"
| others: "lock_keys_same (view (lw_redis s)) (view k) \<Longrightarrow> call_step R view ttl ok s (s\<lparr>lw_redis := k\<rparr>)"

section \<open>Who holds what\<close>

type_synonym session_holders = "nat \<Rightarrow> (string \<times> string \<times> int) option"

type_synonym turn_holders = "nat \<Rightarrow> (string \<times> bool \<times> int \<times> string) option"

definition in_session :: "(nat \<Rightarrow> guarded_call option) \<Rightarrow> session_holders" where
  "in_session calls i =
     Option.bind (calls i) (\<lambda>q. map_option (\<lambda>a. (gl_session q, gl_turn q, a)) (session_age (gl_pc q)))"

definition in_turn :: "(nat \<Rightarrow> guarded_call option) \<Rightarrow> turn_holders" where
  "in_turn calls i =
     Option.bind (calls i)
       (\<lambda>q. map_option (\<lambda>(b, tok). (gl_turn q, gl_class q = OperationClassRead, b, tok)) (turn_age (gl_pc q)))"

definition of_session :: "session_holders \<Rightarrow> string \<Rightarrow> nat set" where
  "of_session h s = {i. \<exists>t a. h i = Some (s, t, a)}"

definition readers_in :: "turn_holders \<Rightarrow> string \<Rightarrow> nat set" where
  "readers_in g t = {i. \<exists>b tok. g i = Some (t, True, b, tok)}"

text \<open>A lease that covers the holders of its session.\<close>

definition lease_covers :: "int \<Rightarrow> session_holders \<Rightarrow> string \<Rightarrow> lease option \<Rightarrow> bool" where
  "lease_covers ttl h s lo =
     (case lo of
        None \<Rightarrow> of_session h s = {}
      | Some l \<Rightarrow>
          ls_left l \<le> ttl \<and> int (card (of_session h s)) \<le> ls_count l \<and>
          (\<forall>i t a. h i = Some (s, t, a) \<longrightarrow> ls_owner l = t \<and> ttl - a \<le> ls_left l))"

definition leases_ok :: "int \<Rightarrow> session_holders \<Rightarrow> leases \<Rightarrow> bool" where
  "leases_ok ttl h m = (\<forall>s. lease_covers ttl h s (m s))"

definition sessions_inv :: "int \<Rightarrow> keyspace \<Rightarrow> int \<Rightarrow> session_holders \<Rightarrow> bool" where
  "sessions_inv ttl v n h =
     (coherent n v \<and> finite (dom h) \<and> (\<forall>i s t a. h i = Some (s, t, a) \<longrightarrow> 0 \<le> a \<and> a < ttl) \<and> leases_ok ttl h (leases_of v))"

text \<open>The two keys of a turn agree with its readers and its writer; both have a time to live.\<close>

definition lives :: "int \<Rightarrow> entry \<Rightarrow> bool" where
  "lives ttl e = (\<forall>v t. e = Some (v, t) \<longrightarrow> (\<exists>x. t = Some x \<and> x \<le> ttl))"

definition turn_covers :: "int \<Rightarrow> int \<Rightarrow> turn_holders \<Rightarrow> string \<Rightarrow> entry \<Rightarrow> entry \<Rightarrow> bool" where
  "turn_covers ttl n g t re we =
     (lives ttl re \<and> lives ttl we \<and>
      (\<exists>c. counts re c \<and> int (card (readers_in g t)) \<le> c \<and> c \<le> n) \<and>
      (\<forall>i b tok. g i = Some (t, True, b, tok) \<longrightarrow> (\<exists>v x. re = Some (v, Some x) \<and> ttl - b \<le> x)) \<and>
      (\<forall>i b tok. g i = Some (t, False, b, tok) \<longrightarrow> (\<exists>x. we = Some (tok, Some x) \<and> ttl - b \<le> x)) \<and>
      (\<forall>i b tok j r b' tok'. g i = Some (t, False, b, tok) \<longrightarrow> g j = Some (t, r, b', tok') \<longrightarrow> j = i))"

definition turns_inv :: "int \<Rightarrow> keyspace \<Rightarrow> int \<Rightarrow> turn_holders \<Rightarrow> bool" where
  "turns_inv ttl v n g =
     (n \<le> int64_max \<and> finite (dom g) \<and> (\<forall>i t r b tok. g i = Some (t, r, b, tok) \<longrightarrow> 0 \<le> b \<and> b < ttl) \<and>
      (\<forall>t. turn_covers ttl n g t (v (turnReadersKey t)) (v (turnWriteLockKey t))))"

lemma of_session_finite: "finite (dom h) \<Longrightarrow> finite (of_session h s)"
  by (rule finite_subset [of _ "dom h"]) (auto simp: of_session_def)

lemma readers_in_finite: "finite (dom g) \<Longrightarrow> finite (readers_in g t)"
  by (rule finite_subset [of _ "dom g"]) (auto simp: readers_in_def)

lemma of_session_upd [simp]:
  "of_session (h(i \<mapsto> (s', t, a))) s = (if s' = s then insert i (of_session h s) else of_session h s - {i})"
  "of_session (h(i := None)) s = of_session h s - {i}"
  by (auto simp: of_session_def)

lemma readers_in_upd [simp]:
  "readers_in (g(i \<mapsto> (t', r, b, tok))) t = (if t' = t \<and> r then insert i (readers_in g t) else readers_in g t - {i})"
  "readers_in (g(i := None)) t = readers_in g t - {i}"
  by (auto simp: readers_in_def)

section \<open>The leases of the sessions\<close>

lemma covers_SomeI:
  "ls_left l \<le> ttl \<Longrightarrow> int (card (of_session h s)) \<le> ls_count l \<Longrightarrow>
   (\<And>i t a. h i = Some (s, t, a) \<Longrightarrow> ls_owner l = t \<and> ttl - a \<le> ls_left l) \<Longrightarrow> lease_covers ttl h s (Some l)"
  by (simp add: lease_covers_def)

lemma covers_SomeD:
  assumes "lease_covers ttl h s (Some l)"
  shows "ls_left l \<le> ttl" "int (card (of_session h s)) \<le> ls_count l"
    "h i = Some (s, t, a) \<Longrightarrow> ls_owner l = t \<and> ttl - a \<le> ls_left l"
  using assms by (simp_all add: lease_covers_def)

lemma covers_cong:
  assumes "\<And>j t a. h' j = Some (s, t, a) \<longleftrightarrow> h j = Some (s, t, a)"
  shows "lease_covers ttl h' s lo = lease_covers ttl h s lo"
proof -
  have "of_session h' s = of_session h s" using assms by (simp add: of_session_def)
  with assms show ?thesis by (cases lo) (simp_all add: lease_covers_def)
qed

lemma covers_other:
  assumes "s \<noteq> s'" "\<forall>t a. h i \<noteq> Some (s, t, a)"
  shows "lease_covers ttl (h(i \<mapsto> (s', t, a))) s lo = lease_covers ttl h s lo"
    "lease_covers ttl (h(i := None)) s lo = lease_covers ttl h s lo"
proof -
  show "lease_covers ttl (h(i \<mapsto> (s', t, a))) s lo = lease_covers ttl h s lo" by (rule covers_cong) (use assms in auto)
  show "lease_covers ttl (h(i := None)) s lo = lease_covers ttl h s lo" by (rule covers_cong) (use assms in auto)
qed

lemma covers_renewed:
  assumes "lease_covers ttl h s (Some l)" "\<forall>i s t a. h i = Some (s, t, a) \<longrightarrow> 0 \<le> a"
    and "ls_count l \<le> ls_count l'" "ls_owner l' = ls_owner l" "ls_left l' = ttl"
  shows "lease_covers ttl h s (Some l')"
  using assms by (simp add: lease_covers_def)

lemma covers_joined:
  assumes "lease_covers ttl h s (Some l)" "finite (dom h)" "h i = None" "ls_owner l = t" "ls_left l = ttl"
  shows "lease_covers ttl (h(i \<mapsto> (s, t, 0))) s (Some (l\<lparr>ls_count := ls_count l + 1\<rparr>))"
proof (rule covers_SomeI)
  have "i \<notin> of_session h s" using assms(3) by (simp add: of_session_def)
  then show "int (card (of_session (h(i \<mapsto> (s, t, 0))) s)) \<le> ls_count (l\<lparr>ls_count := ls_count l + 1\<rparr>)"
    using covers_SomeD(2) [OF assms(1)] of_session_finite [OF assms(2), of s] by simp
  show "ls_owner (l\<lparr>ls_count := ls_count l + 1\<rparr>) = t' \<and> ttl - b \<le> ls_left (l\<lparr>ls_count := ls_count l + 1\<rparr>)"
    if "(h(i \<mapsto> (s, t, 0))) j = Some (s, t', b)" for j t' b
    using that covers_SomeD(3) [OF assms(1), of j t' b] assms(4,5) by (cases "j = i") simp_all
qed (use assms(5) in simp)

lemma covers_first:
  assumes "lease_covers ttl h s None"
  shows "lease_covers ttl h s (Some \<lparr>ls_owner = t, ls_count = 1, ls_left = ttl\<rparr>)"
    "lease_covers ttl (h(i \<mapsto> (s, t, 0))) s (Some \<lparr>ls_owner = t, ls_count = 1, ls_left = ttl\<rparr>)"
proof -
  have "of_session h s = {}" using assms by (simp add: lease_covers_def)
  moreover from this have "h j \<noteq> Some (s, t', a)" for j t' a by (auto simp: of_session_def)
  ultimately show "lease_covers ttl h s (Some \<lparr>ls_owner = t, ls_count = 1, ls_left = ttl\<rparr>)"
    "lease_covers ttl (h(i \<mapsto> (s, t, 0))) s (Some \<lparr>ls_owner = t, ls_count = 1, ls_left = ttl\<rparr>)"
    by (simp_all add: lease_covers_def)
qed

lemma acquire_covers:
  assumes "leases_ok ttl h m" "finite (dom h)" "\<forall>i s t a. h i = Some (s, t, a) \<longrightarrow> 0 \<le> a" "h i = None"
    and "lease_acquire ttl s t m = (r, m')"
  shows "leases_ok ttl h m'" "r = 1 \<Longrightarrow> leases_ok ttl (h(i \<mapsto> (s, t, 0))) m'"
proof -
  have c: "lease_covers ttl h s' (m s')" for s' using assms(1) by (simp add: leases_ok_def)
  have same: "m' s' = m s'" if "s' \<noteq> s" for s'
    using assms(5) that by (auto simp: lease_acquire_def split: option.splits if_splits)
  have new: "lease_covers ttl h s (m' s)" "r = 1 \<Longrightarrow> lease_covers ttl (h(i \<mapsto> (s, t, 0))) s (m' s)"
  proof (atomize (full), cases "m s")
    case None
    with assms(5) have "m' s = Some \<lparr>ls_owner = t, ls_count = 1, ls_left = ttl\<rparr>" by (auto simp: lease_acquire_def)
    with covers_first [of ttl h s] c [of s] None
    show "lease_covers ttl h s (m' s) \<and> (r = 1 \<longrightarrow> lease_covers ttl (h(i \<mapsto> (s, t, 0))) s (m' s))" by simp
  next
    case (Some l)
    show "lease_covers ttl h s (m' s) \<and> (r = 1 \<longrightarrow> lease_covers ttl (h(i \<mapsto> (s, t, 0))) s (m' s))"
    proof (cases "ls_owner l = t")
      case True
      with Some assms(5) have m': "m' s = Some (l\<lparr>ls_left := ttl, ls_count := ls_count l + 1\<rparr>)" by (auto simp: lease_acquire_def)
      have "lease_covers ttl h s (Some (l\<lparr>ls_left := ttl\<rparr>))"
        using c [of s] Some by - (rule covers_renewed [where l = l, OF _ assms(3)]; simp)
      from covers_joined [OF this assms(2,4), of t] True
      have "lease_covers ttl (h(i \<mapsto> (s, t, 0))) s (m' s)" by (simp add: m')
      moreover have "lease_covers ttl h s (m' s)"
        using c [of s] Some unfolding m' by - (rule covers_renewed [where l = l, OF _ assms(3)]; simp)
      ultimately show ?thesis by blast
    qed (use c [of s] Some assms(5) in \<open>auto simp: lease_acquire_def\<close>)
  qed
  show "leases_ok ttl h m'" unfolding leases_ok_def
  proof
    show "lease_covers ttl h s' (m' s')" for s' using c [of s'] new(1) same by (cases "s' = s") simp_all
  qed
  show "leases_ok ttl (h(i \<mapsto> (s, t, 0))) m'" if "r = 1"
    unfolding leases_ok_def
  proof
    show "lease_covers ttl (h(i \<mapsto> (s, t, 0))) s' (m' s')" for s'
      using c new(2) [OF that] same covers_other(1) [of s' s h i ttl t 0] assms(4) by (cases "s' = s") simp_all
  qed
qed

lemma covers_left:
  assumes "lease_covers ttl h s lo" "finite (dom h)" "h i = Some (s, t, a)"
  obtains l where "lo = Some l" "ls_owner l = t"
    "lease_covers ttl (h(i := None)) s (Some (l\<lparr>ls_count := ls_count l - 1\<rparr>))"
    "ls_count l \<le> 1 \<Longrightarrow> lease_covers ttl (h(i := None)) s None" "lease_covers ttl (h(i := None)) s (Some l)"
proof -
  have i: "i \<in> of_session h s" using assms(3) by (auto simp: of_session_def)
  from assms(1,3) i obtain l where l: "lo = Some l" "ls_owner l = t" "ls_left l \<le> ttl" "int (card (of_session h s)) \<le> ls_count l"
      "\<forall>i t a. h i = Some (s, t, a) \<longrightarrow> ls_owner l = t \<and> ttl - a \<le> ls_left l"
    by (cases lo) (auto simp: lease_covers_def)
  note f = of_session_finite [OF assms(2), of s]
  have c: "card (of_session h s) = Suc (card (of_session h s - {i}))" using f i by (rule card.remove)
  show thesis
  proof (rule that [OF l(1,2)])
    show "lease_covers ttl (h(i := None)) s (Some (l\<lparr>ls_count := ls_count l - 1\<rparr>))" "lease_covers ttl (h(i := None)) s (Some l)"
      using l(3,4,5) c by (auto simp: lease_covers_def)
    show "lease_covers ttl (h(i := None)) s None" if "ls_count l \<le> 1"
    proof -
      have "card (of_session h s - {i}) = 0" using that l(4) c by linarith
      with f show ?thesis by (simp add: lease_covers_def)
    qed
  qed
qed

lemma release_covers:
  assumes "leases_ok ttl h m" "finite (dom h)" "h i = Some (s, t, a)"
  shows "leases_ok ttl (h(i := None)) m" "leases_ok ttl (h(i := None)) (snd (lease_release s t m))"
proof -
  have c: "lease_covers ttl h s' (m s')" for s' using assms(1) by (simp add: leases_ok_def)
  from covers_left [OF c assms(2,3)] obtain l where l: "m s = Some l" "ls_owner l = t"
    "lease_covers ttl (h(i := None)) s (Some (l\<lparr>ls_count := ls_count l - 1\<rparr>))"
    "ls_count l \<le> 1 \<Longrightarrow> lease_covers ttl (h(i := None)) s None" "lease_covers ttl (h(i := None)) s (Some l)" by blast
  have o: "lease_covers ttl (h(i := None)) s' lo = lease_covers ttl h s' lo" if "s' \<noteq> s" for s' lo
    using covers_other(2) [OF that] assms(3) that by simp
  show "leases_ok ttl (h(i := None)) m" unfolding leases_ok_def
  proof
    show "lease_covers ttl (h(i := None)) s' (m s')" for s' using l(1,5) c [of s'] o [of s' "m s'"] by (cases "s' = s") simp_all
  qed
  show "leases_ok ttl (h(i := None)) (snd (lease_release s t m))" unfolding leases_ok_def
  proof
    show "lease_covers ttl (h(i := None)) s' (snd (lease_release s t m) s')" for s'
      using l c [of s'] o [of s' "m s'"] by (cases "s' = s") (simp_all add: lease_release_def)
  qed
qed

lemma extend_covers:
  assumes "leases_ok ttl h m" "finite (dom h)" "\<forall>i s t a. h i = Some (s, t, a) \<longrightarrow> 0 \<le> a" "h i = Some (s, t, a)"
    and "lease_extend ttl s t m = (r, m')"
  shows "leases_ok ttl h m'" "r = 1 \<Longrightarrow> leases_ok ttl (h(i \<mapsto> (s, t, 0))) m'"
proof -
  have c: "lease_covers ttl h s' (m s')" for s' using assms(1) by (simp add: leases_ok_def)
  from c [of s] assms(4) obtain l where l: "m s = Some l" "ls_owner l = t"
    by (cases "m s") (auto simp: lease_covers_def of_session_def)
  with assms(5) have r: "r = 1" "m' = m(s \<mapsto> l\<lparr>ls_left := ttl\<rparr>)" by (auto simp: lease_extend_def)
  have n: "lease_covers ttl h s (Some (l\<lparr>ls_left := ttl\<rparr>))"
    using c [of s] l by - (rule covers_renewed [where l = l, OF _ assms(3)]; simp)
  have i: "i \<in> of_session h s" using assms(4) by (auto simp: of_session_def)
  have "lease_covers ttl (h(i \<mapsto> (s, t, 0))) s (Some (l\<lparr>ls_left := ttl\<rparr>))"
  proof (rule covers_SomeI)
    show "int (card (of_session (h(i \<mapsto> (s, t, 0))) s)) \<le> ls_count (l\<lparr>ls_left := ttl\<rparr>)"
      using covers_SomeD(2) [OF n] by (simp add: insert_absorb [OF i])
    show "ls_owner (l\<lparr>ls_left := ttl\<rparr>) = t' \<and> ttl - b \<le> ls_left (l\<lparr>ls_left := ttl\<rparr>)"
      if "(h(i \<mapsto> (s, t, 0))) j = Some (s, t', b)" for j t' b
      using that covers_SomeD(3) [OF n, of j t' b] l(2) by (cases "j = i") simp_all
  qed simp
  moreover have "lease_covers ttl (h(i \<mapsto> (s, t, 0))) s' lo = lease_covers ttl h s' lo" if "s' \<noteq> s" for s' lo
    using covers_other(1) [OF that] assms(4) that by simp
  ultimately show "leases_ok ttl h m'" "r = 1 \<Longrightarrow> leases_ok ttl (h(i \<mapsto> (s, t, 0))) m'"
    using c n by (simp_all add: leases_ok_def r)
qed

definition aged :: "int \<Rightarrow> session_holders \<Rightarrow> session_holders" where
  "aged x h i = map_option (\<lambda>(s, t, a). (s, t, a + x)) (h i)"

lemma of_session_aged [simp]: "of_session (aged x h) s = of_session h s"
  by (auto simp: of_session_def aged_def)

lemma tick_covers:
  assumes "leases_ok ttl h m" "0 \<le> x" "\<forall>i s t a. h i = Some (s, t, a) \<longrightarrow> a + x < ttl"
  shows "leases_ok ttl (aged x h) (lease_tick x m)"
  unfolding leases_ok_def
proof
  fix s
  have c: "lease_covers ttl h s (m s)" using assms(1) by (simp add: leases_ok_def)
  show "lease_covers ttl (aged x h) s (lease_tick x m s)"
  proof (cases "m s")
    case None
    with c show ?thesis by (simp add: lease_covers_def lease_tick_def)
  next
    case (Some l)
    have "of_session h s = {}" if "ls_left l \<le> x"
      using c Some that assms(3) by (fastforce simp: lease_covers_def of_session_def)
    with c Some assms(2) show ?thesis
      by (fastforce simp: lease_covers_def lease_tick_def aged_def)
  qed
qed

text \<open>What a script of a session lock does to the invariant. A reply that is lost leaves what the script did.\<close>

lemma sessions_inv_same:
  assumes "sessions_inv ttl v n h" "\<And>s. v' (sessionLockKey s) = v (sessionLockKey s)"
    "\<And>s. v' (sessionLockRefCountKey s) = v (sessionLockRefCountKey s)"
  shows "sessions_inv ttl v' n h"
proof -
  have "leases_of v' = leases_of v" using assms(2,3) by (simp add: leases_of_def fun_eq_iff)
  with assms show ?thesis by (simp add: sessions_inv_def coherent_def)
qed

context redis_ttl
begin

lemma eval_cases:
  assumes "redis_eval R c script k = (out, k')"
  obtains (lost) e where "view k' = view k" "out = Fail e"
  | (ran) k1 where "view k1 = view k" "k' = snd (script k1)" "out = fst (script k1) \<or> (\<exists>e. out = Fail e)"
proof -
  obtain f b k1 where l: "rd_link R c k = ((f, b), k1)" by (metis prod.exhaust)
  then have v: "view k1 = view k" using link_view [of c k] by simp
  show thesis
  proof (cases f)
    case None
    with assms l v show thesis by (intro ran [of k1]) (simp_all add: redis_eval_def)
  next
    case (Some e)
    with assms l v lost ran show thesis by (cases b) (auto simp: redis_eval_def)
  qed
qed

lemma sessions_acquire:
  assumes "evalBoolResult R c (sessionLockAcquireScript R (sessionLockKey s) (sessionLockRefCountKey s) t ttl) k = (out, k')"
    and "sessions_inv ttl (view k) n h" "n < int64_max" "h i = None"
  shows "sessions_inv ttl (view k') (n + 1) (if out = Ret True then h(i \<mapsto> (s, t, 0)) else h) \<and> same_else s (view k) (view k')"
proof -
  let ?sc = "sessionLockAcquireScript R (sessionLockKey s) (sessionLockRefCountKey s) t ttl"
  from assms(2) have i: "coherent n (view k)" "finite (dom h)" "\<forall>i s t a. h i = Some (s, t, a) \<longrightarrow> 0 \<le> a \<and> a < ttl"
    "leases_ok ttl h (leases_of (view k))" by (auto simp: sessions_inv_def)
  from i(1) have i': "coherent (n + 1) (view k)" by (rule coherent_mono) simp
  obtain o1 where e: "redis_eval R c ?sc k = (o1, k')" and out: "out = Ret True \<Longrightarrow> o1 = Ret 1"
    using assms(1) by (auto simp: evalBoolResult_def split: prod.splits go.splits)
  from e show ?thesis
  proof (cases rule: eval_cases)
    case (lost e)
    with out i i' show ?thesis by (auto simp: sessions_inv_def)
  next
    case (ran k1)
    with i(1) acquire_refines [of n k1 ttl s t] assms(3) ttl_pos obtain r where
      r: "?sc k1 = (Ret r, k')" "lease_acquire ttl s t (leases_of (view k)) = (r, leases_of (view k'))"
        "coherent (n + 1) (view k')" "same_else s (view k) (view k')" by auto
    have a: "\<forall>i s t a. h i = Some (s, t, a) \<longrightarrow> 0 \<le> a" using i(3) by blast
    have "r = 1" if "out = Ret True" using out [OF that] ran(3) r(1) by auto
    with acquire_covers [OF i(4,2) a assms(4) r(2)] r(3,4) i(2,3) ttl_pos show ?thesis
      by (auto simp: sessions_inv_def)
  qed
qed

lemma sessions_release:
  assumes "sl_Release R c s t k = (e, k')" "sessions_inv ttl (view k) n h" "h i = Some (s, t, a)"
  shows "sessions_inv ttl (view k') n (h(i := None)) \<and> same_else s (view k) (view k')"
proof -
  let ?sc = "sessionLockReleaseScript R (sessionLockKey s) (sessionLockRefCountKey s) t"
  from assms(2) have i: "coherent n (view k)" "finite (dom h)" "\<forall>i s t a. h i = Some (s, t, a) \<longrightarrow> 0 \<le> a \<and> a < ttl"
    "leases_ok ttl h (leases_of (view k))" by (auto simp: sessions_inv_def)
  note l = release_covers [OF i(4,2) assms(3)]
  obtain o1 where e: "redis_eval R c ?sc k = (o1, k')"
    using assms(1) by (auto simp: sl_Release_def split: prod.splits go.splits)
  from e show ?thesis
  proof (cases rule: eval_cases)
    case (lost e)
    with i l show ?thesis by (auto simp: sessions_inv_def)
  next
    case (ran k1)
    with i(1) release_refines [of n k1 ttl s t] have
      "snd (lease_release s t (leases_of (view k))) = leases_of (view k')" "coherent n (view k')" "same_else s (view k) (view k')"
      by auto
    with l i(2,3) show ?thesis by (auto simp: sessions_inv_def)
  qed
qed

lemma sessions_extend:
  assumes "evalBoolResult R c (sessionLockExtendScript R (sessionLockKey s) (sessionLockRefCountKey s) t ttl) k = (out, k')"
    and "sessions_inv ttl (view k) n h" "h i = Some (s, t, a)"
  shows "sessions_inv ttl (view k') n (if out = Ret True then h(i \<mapsto> (s, t, 0)) else h) \<and> same_else s (view k) (view k')"
proof -
  let ?sc = "sessionLockExtendScript R (sessionLockKey s) (sessionLockRefCountKey s) t ttl"
  from assms(2) have i: "coherent n (view k)" "finite (dom h)" "\<forall>i s t a. h i = Some (s, t, a) \<longrightarrow> 0 \<le> a \<and> a < ttl"
    "leases_ok ttl h (leases_of (view k))" by (auto simp: sessions_inv_def)
  obtain o1 where e: "redis_eval R c ?sc k = (o1, k')" and out: "out = Ret True \<Longrightarrow> o1 = Ret 1"
    using assms(1) by (auto simp: evalBoolResult_def split: prod.splits go.splits)
  from e show ?thesis
  proof (cases rule: eval_cases)
    case (lost e)
    with out i show ?thesis by (auto simp: sessions_inv_def)
  next
    case (ran k1)
    with i(1) extend_refines [of n k1 ttl s t] ttl_pos obtain r where
      r: "?sc k1 = (Ret r, k')" "lease_extend ttl s t (leases_of (view k)) = (r, leases_of (view k'))"
        "coherent n (view k')" "same_else s (view k) (view k')" by auto
    have a: "\<forall>i s t a. h i = Some (s, t, a) \<longrightarrow> 0 \<le> a" using i(3) by blast
    have "r = 1" if "out = Ret True" using out [OF that] ran(3) r(1) by auto
    with extend_covers [OF i(4,2) a assms(3) r(2)] r(3,4) i(2,3) ttl_pos show ?thesis
      by (auto simp: sessions_inv_def)
  qed
qed

lemma sessions_tick:
  assumes "sessions_inv ttl (view k) n h" "0 \<le> x" "\<forall>i s t a. h i = Some (s, t, a) \<longrightarrow> a + x < ttl"
  shows "sessions_inv ttl (view (rd_tick R x k)) n (aged x h)"
proof -
  from assms(1) have i: "coherent n (view k)" "finite (dom h)" "\<forall>i s t a. h i = Some (s, t, a) \<longrightarrow> 0 \<le> a \<and> a < ttl"
    "leases_ok ttl h (leases_of (view k))" by (auto simp: sessions_inv_def)
  have "dom (aged x h) = dom h" by (auto simp: aged_def dom_def)
  moreover have "0 \<le> a \<and> a < ttl" if "aged x h i = Some (s, t, a)" for i s t a
    using that i(3) assms(2,3) by (fastforce simp: aged_def)
  ultimately show ?thesis
    using tick_covers [OF i(4) assms(2,3)] tick_refines [OF i(1) assms(2)] i(2) by (auto simp: sessions_inv_def)
qed

end

section \<open>The keys of the turns\<close>

lemma turn_coversD:
  assumes "turn_covers ttl n g t re we"
  shows "lives ttl re" "lives ttl we"
    "g i = Some (t, True, b, tok) \<Longrightarrow> \<exists>v x. re = Some (v, Some x) \<and> ttl - b \<le> x"
    "g i = Some (t, False, b, tok) \<Longrightarrow> \<exists>x. we = Some (tok, Some x) \<and> ttl - b \<le> x"
    "g i = Some (t, False, b, tok) \<Longrightarrow> g j = Some (t, r, b', tok') \<Longrightarrow> j = i"
  using assms unfolding turn_covers_def by simp_all blast+

lemma turn_coversE:
  assumes "turn_covers ttl n g t re we"
  obtains c where "counts re c" "int (card (readers_in g t)) \<le> c" "c \<le> n"
  using assms by (auto simp: turn_covers_def)

lemma turn_coversI:
  assumes "lives ttl re" "lives ttl we" "counts re c" "int (card (readers_in g t)) \<le> c" "c \<le> n"
    and "\<And>i b tok. g i = Some (t, True, b, tok) \<Longrightarrow> \<exists>v x. re = Some (v, Some x) \<and> ttl - b \<le> x"
    and "\<And>i b tok. g i = Some (t, False, b, tok) \<Longrightarrow> \<exists>x. we = Some (tok, Some x) \<and> ttl - b \<le> x"
    and "\<And>i b tok j r b' tok'. g i = Some (t, False, b, tok) \<Longrightarrow> g j = Some (t, r, b', tok') \<Longrightarrow> j = i"
  shows "turn_covers ttl n g t re we"
  using assms unfolding turn_covers_def by blast

lemma turn_covers_mono:
  assumes "turn_covers ttl n g t re we" "n \<le> m"
  shows "turn_covers ttl m g t re we"
proof -
  note d = turn_coversD [OF assms(1)]
  from assms(1) obtain c where c: "counts re c" "int (card (readers_in g t)) \<le> c" "c \<le> n" by (rule turn_coversE)
  show ?thesis by (rule turn_coversI [OF d(1,2) c(1,2) _ d(3,4,5)]) (use c(3) assms(2) in simp_all)
qed

lemma turn_covers_cong:
  assumes "\<And>j r b tok. g' j = Some (t, r, b, tok) \<longleftrightarrow> g j = Some (t, r, b, tok)"
  shows "turn_covers ttl n g' t re we = turn_covers ttl n g t re we"
proof -
  have "readers_in g' t = readers_in g t" using assms by (simp add: readers_in_def)
  with assms show ?thesis by (simp add: turn_covers_def)
qed

lemma turn_covers_other:
  assumes "t \<noteq> t'" "\<forall>r b tok. g i \<noteq> Some (t, r, b, tok)"
  shows "turn_covers ttl n (g(i \<mapsto> (t', r, b, tok))) t re we = turn_covers ttl n g t re we"
    "turn_covers ttl n (g(i := None)) t re we = turn_covers ttl n g t re we"
proof -
  show "turn_covers ttl n (g(i \<mapsto> (t', r, b, tok))) t re we = turn_covers ttl n g t re we"
    by (rule turn_covers_cong) (use assms in auto)
  show "turn_covers ttl n (g(i := None)) t re we = turn_covers ttl n g t re we"
    by (rule turn_covers_cong) (use assms in auto)
qed

lemma read_covers:
  assumes "turn_covers ttl n g t re None" "counts re c" "int (card (readers_in g t)) \<le> c" "c \<le> n"
    and "finite (dom g)" "\<forall>i t r b tok. g i = Some (t, r, b, tok) \<longrightarrow> 0 \<le> b" "g i = None"
  shows "turn_covers ttl (n + 1) g t (Some (itoa (c + 1), Some ttl)) None"
    "turn_covers ttl (n + 1) (g(i \<mapsto> (t, True, 0, tok))) t (Some (itoa (c + 1), Some ttl)) None"
proof -
  have w: "g j \<noteq> Some (t, False, b, tk)" for j b tk using turn_coversD(4) [OF assms(1)] by auto
  have b0: "0 \<le> b" if "g j = Some (t, True, b, tk)" for j b tk using that assms(6) by blast
  have l: "lives ttl (Some (itoa (c + 1), Some ttl))" "lives ttl None" "counts (Some (itoa (c + 1), Some ttl)) (c + 1)"
    by (simp_all add: lives_def counts_def)
  show "turn_covers ttl (n + 1) g t (Some (itoa (c + 1), Some ttl)) None"
    by (rule turn_coversI [OF l]) (use assms(3,4) b0 w in simp_all)
  have i: "i \<notin> readers_in g t" using assms(7) by (simp add: readers_in_def)
  show "turn_covers ttl (n + 1) (g(i \<mapsto> (t, True, 0, tok))) t (Some (itoa (c + 1), Some ttl)) None"
  proof (rule turn_coversI [OF l])
    show "int (card (readers_in (g(i \<mapsto> (t, True, 0, tok))) t)) \<le> c + 1"
      using assms(3) i readers_in_finite [OF assms(5), of t] by simp
    show "\<exists>v x. Some (itoa (c + 1), Some ttl) = Some (v, Some x) \<and> ttl - b \<le> x"
      if "(g(i \<mapsto> (t, True, 0, tok))) j = Some (t, True, b, tk)" for j b tk
      using that b0 [of j b tk] by (cases "j = i") simp_all
    show "\<exists>x. None = Some (tk, Some x) \<and> ttl - b \<le> x" if "(g(i \<mapsto> (t, True, 0, tok))) j = Some (t, False, b, tk)" for j b tk
      using that w by (cases "j = i") auto
    show "k = j" if "(g(i \<mapsto> (t, True, 0, tok))) j = Some (t, False, b, tk)" for j b tk k
      using that w by (cases "j = i") auto
  qed (use assms(4) in simp)
qed

lemma write_covers:
  assumes "turn_covers ttl n g t re None" "counts re 0" "readers_in g t = {}" "0 \<le> n"
  shows "turn_covers ttl n g t re (Some (tok, Some ttl))"
    "turn_covers ttl n (g(i \<mapsto> (t, False, 0, tok))) t re (Some (tok, Some ttl))"
proof -
  have w: "g j \<noteq> Some (t, r, b, tk)" for j r b tk
    using turn_coversD(4) [OF assms(1)] assms(3) by (cases r) (auto simp: readers_in_def)
  note l = turn_coversD(1) [OF assms(1)]
  have lw: "lives ttl (Some (tok, Some ttl))" by (simp add: lives_def)
  show "turn_covers ttl n g t re (Some (tok, Some ttl))"
    by (rule turn_coversI [OF l lw assms(2)]) (use assms(3,4) w in auto)
  show "turn_covers ttl n (g(i \<mapsto> (t, False, 0, tok))) t re (Some (tok, Some ttl))"
    by (rule turn_coversI [OF l lw assms(2)]) (use assms(3,4) w in \<open>auto split: if_splits\<close>)
qed

lemma unread_covers:
  assumes "turn_covers ttl n g t re we" "finite (dom g)" "g i = Some (t, True, b, tok)"
    and "counts re c" "int (card (readers_in g t)) \<le> c" "c \<le> n"
  shows "turn_covers ttl n (g(i := None)) t re we"
    "turn_covers ttl n (g(i := None)) t (Some (itoa (c - 1), entry_ttl re)) we"
proof -
  note d = turn_coversD [OF assms(1)]
  from d(3) [OF assms(3)] obtain v x where re: "re = Some (v, Some x)" by blast
  have "i \<in> readers_in g t" using assms(3) by (auto simp: readers_in_def)
  then have card: "card (readers_in g t) = Suc (card (readers_in g t - {i}))"
    using readers_in_finite [OF assms(2), of t] by (rule card.remove [rotated])
  have l: "lives ttl (Some (itoa (c - 1), entry_ttl re))" "counts (Some (itoa (c - 1), entry_ttl re)) (c - 1)"
    using d(1) by (auto simp: lives_def counts_def entry_ttl_def re)
  show "turn_covers ttl n (g(i := None)) t re we"
  proof (rule turn_coversI [OF d(1,2) assms(4)])
    show "\<exists>v x. re = Some (v, Some x) \<and> ttl - b \<le> x" if "(g(i := None)) j = Some (t, True, b, tk)" for j b tk
      using that d(3) [of j b tk] by (cases "j = i") simp_all
    show "\<exists>x. we = Some (tk, Some x) \<and> ttl - b \<le> x" if "(g(i := None)) j = Some (t, False, b, tk)" for j b tk
      using that d(4) [of j b tk] by (cases "j = i") simp_all
    show "k = j" if "(g(i := None)) j = Some (t, False, b, tk)" "(g(i := None)) k = Some (t, r, b', tk')" for j b tk k r b' tk'
      using that d(5) by (auto split: if_splits)
  qed (use card assms(5,6) in simp_all)
  show "turn_covers ttl n (g(i := None)) t (Some (itoa (c - 1), entry_ttl re)) we"
  proof (rule turn_coversI [OF l(1) d(2) l(2)])
    show "\<exists>v' x. Some (itoa (c - 1), entry_ttl re) = Some (v', Some x) \<and> ttl - b \<le> x"
      if "(g(i := None)) j = Some (t, True, b, tk)" for j b tk
      using that d(3) [of j b tk] re by (cases "j = i") (simp_all add: entry_ttl_def)
    show "\<exists>x. we = Some (tk, Some x) \<and> ttl - b \<le> x" if "(g(i := None)) j = Some (t, False, b, tk)" for j b tk
      using that d(4) [of j b tk] by (cases "j = i") simp_all
    show "k = j" if "(g(i := None)) j = Some (t, False, b, tk)" "(g(i := None)) k = Some (t, r, b', tk')" for j b tk k r b' tk'
      using that d(5) by (auto split: if_splits)
  qed (use card assms(5,6) in simp_all)
qed

lemma unwrite_covers:
  assumes "turn_covers ttl n g t re we" "g i = Some (t, False, b, tok)"
  shows "turn_covers ttl n (g(i := None)) t re we" "turn_covers ttl n (g(i := None)) t re None"
proof -
  note d = turn_coversD [OF assms(1)]
  have none: "(g(i := None)) j \<noteq> Some (t, r, b', tk)" for j r b' tk
    using d(5) [OF assms(2), of j r b' tk] by auto
  obtain c where c: "counts re c" "int (card (readers_in g t)) \<le> c" "c \<le> n" using assms(1) by (rule turn_coversE)
  have "i \<notin> readers_in g t" using assms(2) by (auto simp: readers_in_def)
  then have card: "int (card (readers_in (g(i := None)) t)) \<le> c" using c(2) by simp
  show "turn_covers ttl n (g(i := None)) t re we"
    by (rule turn_coversI [OF d(1,2) c(1) card c(3)]) (use none in blast)+
  have "lives ttl None" by (simp add: lives_def)
  then show "turn_covers ttl n (g(i := None)) t re None"
    by (rule turn_coversI [OF d(1) _ c(1) card c(3)]) (use none in blast)+
qed

lemma turns_invD:
  assumes "turns_inv ttl v n g"
  shows "n \<le> int64_max" "finite (dom g)" "g i = Some (t, r, b, tok) \<Longrightarrow> 0 \<le> b" "g i = Some (t, r, b, tok) \<Longrightarrow> b < ttl"
    "turn_covers ttl n g t (v (turnReadersKey t)) (v (turnWriteLockKey t))"
  using assms unfolding turns_inv_def by blast+

lemma turns_inv_same:
  assumes "turns_inv ttl v n g" "\<And>t. v' (turnReadersKey t) = v (turnReadersKey t)" "\<And>t. v' (turnWriteLockKey t) = v (turnWriteLockKey t)"
  shows "turns_inv ttl v' n g"
  using assms by (simp add: turns_inv_def)

lemma turns_inv_more:
  assumes "turns_inv ttl v n g" "n < int64_max"
  shows "turns_inv ttl v (n + 1) g"
  using assms turn_covers_mono [of ttl n g _ _ _ "n + 1"] by (simp add: turns_inv_def)

text \<open>Only the keys and the holders of one turn change.\<close>

definition turn_else :: "string \<Rightarrow> keyspace \<Rightarrow> keyspace \<Rightarrow> bool" where
  "turn_else t v v' = (\<forall>key. key \<noteq> turnReadersKey t \<and> key \<noteq> turnWriteLockKey t \<longrightarrow> v' key = v key)"

lemma turn_else_simps [simp]:
  "turn_else t v v" "turn_else t v (v(turnReadersKey t := e))" "turn_else t v (v(turnWriteLockKey t := e))"
  by (simp_all add: turn_else_def)

lemma turns_inv_changed:
  assumes "turns_inv ttl v n g" "turn_else t v v'" "n \<le> m" "m \<le> int64_max"
    and "turn_covers ttl m g' t (v' (turnReadersKey t)) (v' (turnWriteLockKey t))"
    and "finite (dom g')" "\<And>i t r b tok. g' i = Some (t, r, b, tok) \<Longrightarrow> 0 \<le> b \<and> b < ttl"
    and "\<And>t' j r b tok. t' \<noteq> t \<Longrightarrow> g' j = Some (t', r, b, tok) \<longleftrightarrow> g j = Some (t', r, b, tok)"
  shows "turns_inv ttl v' m g'"
proof -
  have "turn_covers ttl m g' t' (v' (turnReadersKey t')) (v' (turnWriteLockKey t'))" if "t' \<noteq> t" for t'
  proof -
    have "v' (turnReadersKey t') = v (turnReadersKey t')" "v' (turnWriteLockKey t') = v (turnWriteLockKey t')"
      using assms(2) that by (simp_all add: turn_else_def)
    moreover have "turn_covers ttl m g t' (v (turnReadersKey t')) (v (turnWriteLockKey t'))"
      using turns_invD(5) [OF assms(1)] assms(3) by (rule turn_covers_mono)
    ultimately show ?thesis using turn_covers_cong [of g' t' g] assms(8) [OF that] by simp
  qed
  with assms(4-7) show ?thesis unfolding turns_inv_def by metis
qed

context redis_ttl
begin

lemma turns_read:
  assumes "evalAcquireResult R c (turnReadLockScript R (turnReadersKey t) (turnWriteLockKey t) ttl) k = (out, k')"
    and "turns_inv ttl (view k) n g" "n < int64_max" "g i = None"
  shows "turns_inv ttl (view k') (n + 1) (if out = Ret True then g(i \<mapsto> (t, True, 0, tok)) else g) \<and> turn_else t (view k) (view k')"
proof -
  let ?sc = "turnReadLockScript R (turnReadersKey t) (turnWriteLockKey t) ttl"
  note d = turns_invD [OF assms(2)]
  obtain o1 where e: "redis_eval R c ?sc k = (o1, k')" and out: "out = Ret True \<Longrightarrow> \<exists>m. o1 = Ret m \<and> m \<noteq> 0"
    using assms(1) by (auto simp: evalAcquireResult_def split: prod.splits go.splits)
  from e show ?thesis
  proof (cases rule: eval_cases)
    case (lost e)
    with out turns_inv_more [OF assms(2,3)] show ?thesis by auto
  next
    case (ran k1)
    show ?thesis
    proof (cases "view k (turnWriteLockKey t)")
      case (Some w)
      with ran(1) read_lock_refused [of k1 t] ran(2) have "k' = k1" "fst (?sc k1) = Ret 0" by simp_all
      with out ran turns_inv_more [OF assms(2,3)] show ?thesis by auto
    next
      case None
      note tc = d(5) [of t, unfolded None]
      from tc obtain m where c: "counts (view k (turnReadersKey t)) m" "int (card (readers_in g t)) \<le> m" "m \<le> n" by (rule turn_coversE)
      have "int64 m" "int64 (m + 1)" using c(2,3) assms(3) by (auto simp: int64_def int64_min_def)
      with read_lock_granted [of k1 t m] ran(1,2) None c(1) have
        v: "view k' = (view k)(turnReadersKey t \<mapsto> (itoa (m + 1), Some ttl))" by (auto simp: readers_of_def)
      have "\<forall>i t r b tok. g i = Some (t, r, b, tok) \<longrightarrow> 0 \<le> b" using d(3) by blast
      note cov = read_covers [OF tc c d(2) this assms(4)]
      have "turns_inv ttl (view k') (n + 1) g"
        by (rule turns_inv_changed [where t = t, OF assms(2)]) (use cov(1) d assms(3) None v in \<open>simp_all\<close>)
      moreover have "turns_inv ttl (view k') (n + 1) (g(i \<mapsto> (t, True, 0, tok)))"
        by (rule turns_inv_changed [where t = t, OF assms(2)]) (use cov(2) d assms(3,4) ttl_pos None v in \<open>auto split: if_splits\<close>)
      ultimately show ?thesis by (simp add: v)
    qed
  qed
qed

lemma turns_write:
  assumes "evalAcquireResult R c (turnWriteLockScript R (turnReadersKey t) (turnWriteLockKey t) tok ttl) k = (out, k')"
    and "turns_inv ttl (view k) n g" "g i = None"
  shows "turns_inv ttl (view k') n (if out = Ret True then g(i \<mapsto> (t, False, 0, tok)) else g) \<and> turn_else t (view k) (view k')"
proof -
  let ?sc = "turnWriteLockScript R (turnReadersKey t) (turnWriteLockKey t) tok ttl"
  note d = turns_invD [OF assms(2)]
  obtain o1 where e: "redis_eval R c ?sc k = (o1, k')" and out: "out = Ret True \<Longrightarrow> \<exists>m. o1 = Ret m \<and> m \<noteq> 0"
    using assms(1) by (auto simp: evalAcquireResult_def split: prod.splits go.splits)
  from e show ?thesis
  proof (cases rule: eval_cases)
    case (lost e)
    with out turns_inv_same [OF assms(2)] show ?thesis by auto
  next
    case (ran k1)
    from d(5) [of t] obtain m where c: "counts (view k (turnReadersKey t)) m" "int (card (readers_in g t)) \<le> m" "m \<le> n"
      by (rule turn_coversE)
    have "int64 m" using c(2,3) d(1) by (auto simp: int64_def int64_min_def)
    with write_lock_effect [of k1 t m tok] ran(1,2) c(1) have
      f: "fst (?sc k1) = Ret (if m = 0 \<and> view k (turnWriteLockKey t) = None then 1 else 0)" and
      v: "view k' = (if m = 0 \<and> view k (turnWriteLockKey t) = None
               then (view k)(turnWriteLockKey t \<mapsto> (tok, Some ttl)) else view k)" by (auto simp: readers_of_def)
    show ?thesis
    proof (cases "m = 0 \<and> view k (turnWriteLockKey t) = None")
      case True
      with c readers_in_finite [OF d(2), of t] have r: "readers_in g t = {}" "0 \<le> n" by auto
      from True c(1) have z: "counts (view k (turnReadersKey t)) 0" by simp
      from True d(5) [of t] have "turn_covers ttl n g t (view k (turnReadersKey t)) None" by simp
      note cov = write_covers [OF this z r]
      have "turns_inv ttl (view k') n g"
        by (rule turns_inv_changed [where t = t, OF assms(2)]) (use cov(1) d True v in simp_all)
      moreover have "turns_inv ttl (view k') n (g(i \<mapsto> (t, False, 0, tok)))"
        by (rule turns_inv_changed [where t = t, OF assms(2)]) (use cov(2) d assms(3) ttl_pos True v in \<open>auto split: if_splits\<close>)
      ultimately show ?thesis using True by (simp add: v)
    next
      case False
      with f out ran(3) have "out \<noteq> Ret True" by auto
      moreover from False v have "view k' = view k" by (simp only: if_False)
      ultimately show ?thesis using turns_inv_same [OF assms(2), of "view k'"] by simp
    qed
  qed
qed

lemma turns_unread:
  assumes "rw_ReadUnlock R c t k = (e, k')" "turns_inv ttl (view k) n g" "g i = Some (t, True, b, tok)"
  shows "turns_inv ttl (view k') n (g(i := None)) \<and> turn_else t (view k) (view k')"
proof -
  note d = turns_invD [OF assms(2)]
  from d(5) [of t] obtain m where c: "counts (view k (turnReadersKey t)) m" "int (card (readers_in g t)) \<le> m" "m \<le> n"
    by (rule turn_coversE)
  note cov = unread_covers [OF d(5) d(2) assms(3) c]
  obtain o1 where e: "redis_eval R c (turnReadUnlockScript R (turnReadersKey t)) k = (o1, k')"
    using assms(1) by (auto simp: rw_ReadUnlock_def split: prod.splits go.splits)
  have kept: "turns_inv ttl (view k) n (g(i := None))"
    by (rule turns_inv_changed [where t = t, OF assms(2)]) (use cov(1) d assms(3) in \<open>auto split: if_splits\<close>)
  from e show ?thesis
  proof (cases rule: eval_cases)
    case (lost e)
    with kept show ?thesis by simp
  next
    case (ran k1)
    have "int64 m" "int64 (m - 1)" using c(2,3) d(1) by (auto simp: int64_def int64_min_def int64_max_def)
    with read_unlock_effect [of k1 t m] ran(1,2) c(1) have
      v: "view k' = (view k)(turnReadersKey t \<mapsto> (itoa (m - 1), entry_ttl (view k (turnReadersKey t))))"
      by (auto simp: readers_of_def)
    have "turns_inv ttl (view k') n (g(i := None))"
      by (rule turns_inv_changed [where t = t, OF assms(2)]) (use cov(2) d assms(3) v in \<open>auto split: if_splits\<close>)
    then show ?thesis by (simp add: v)
  qed
qed

lemma turns_unwrite:
  assumes "rw_WriteUnlock R c t tok k = (e, k')" "turns_inv ttl (view k) n g" "g i = Some (t, False, b, tok)"
  shows "turns_inv ttl (view k') n (g(i := None)) \<and> turn_else t (view k) (view k')"
proof -
  note d = turns_invD [OF assms(2)]
  note cov = unwrite_covers [OF d(5) assms(3)]
  obtain o1 where e: "redis_eval R c (turnWriteUnlockScript R (turnWriteLockKey t) tok) k = (o1, k')"
    using assms(1) by (auto simp: rw_WriteUnlock_def split: prod.splits go.splits)
  have kept: "turns_inv ttl (view k) n (g(i := None))"
    by (rule turns_inv_changed [where t = t, OF assms(2)]) (use cov(1) d assms(3) in \<open>auto split: if_splits\<close>)
  from e show ?thesis
  proof (cases rule: eval_cases)
    case (lost e)
    with kept show ?thesis by simp
  next
    case (ran k1)
    with write_unlock_effect [of t tok k1] have "view k' = view k \<or> view k' = (view k)(turnWriteLockKey t := None)"
      by (auto split: if_splits)
    moreover have "turns_inv ttl (view k') n (g(i := None))" if "view k' = (view k)(turnWriteLockKey t := None)"
      by (rule turns_inv_changed [where t = t, OF assms(2)]) (use cov(2) d assms(3) that in \<open>auto split: if_splits\<close>)
    ultimately show ?thesis using kept by auto
  qed
qed

end

definition aged_turn :: "int \<Rightarrow> turn_holders \<Rightarrow> turn_holders" where
  "aged_turn x g i = map_option (\<lambda>(t, r, b, tok). (t, r, b + x, tok)) (g i)"

lemma aged_turn_Some: "aged_turn x g i = Some (t, r, b, tok) \<longleftrightarrow> g i = Some (t, r, b - x, tok)"
  by (cases "g i") (auto simp: aged_turn_def)

lemma readers_in_aged [simp]: "readers_in (aged_turn x g) t = readers_in g t"
  by (auto simp: readers_in_def aged_turn_Some) (metis add_diff_cancel_right')

lemma turn_tick_covers:
  assumes "turn_covers ttl n g t re we" "0 \<le> x" "finite (dom g)" "0 \<le> n" "\<And>i r b tok. g i = Some (t, r, b, tok) \<Longrightarrow> b + x < ttl"
  shows "turn_covers ttl n (aged_turn x g) t (expire x re) (expire x we)"
proof -
  note d = turn_coversD [OF assms(1)]
  have l: "lives ttl (expire x e)" if "lives ttl e" for e
    using that assms(2) by (fastforce simp: lives_def expire_def split: option.splits if_splits)
  have old: "\<exists>v' y. expire x re = Some (v', Some y) \<and> ttl - b \<le> y" if r: "aged_turn x g i = Some (t, True, b, tok)" for i b tok
    using r d(3) [of i "b - x" tok] assms(5) [of i True "b - x" tok] by (auto simp: aged_turn_Some expire_def)
  obtain c where c: "counts re c" "int (card (readers_in g t)) \<le> c" "c \<le> n" using assms(1) by (rule turn_coversE)
  obtain c' where c': "counts (expire x re) c'" "int (card (readers_in (aged_turn x g) t)) \<le> c'" "c' \<le> n"
  proof (cases "expire x re")
    case None
    with old have "aged_turn x g i \<noteq> Some (t, True, b, tok)" for i b tok by fastforce
    then have "readers_in (aged_turn x g) t = {}" by (auto simp: readers_in_def)
    with None assms(4) show thesis by (intro that [of 0]) (simp_all add: counts_def del: readers_in_aged)
  next
    case (Some e)
    with c(1) have "counts (expire x re) c" by (auto simp: counts_def expire_def split: option.splits if_splits)
    with c(2,3) show thesis by (intro that [of c]) simp_all
  qed
  show ?thesis
  proof (rule turn_coversI [OF l [OF d(1)] l [OF d(2)] c' old])
    show "\<exists>y. expire x we = Some (tok, Some y) \<and> ttl - b \<le> y" if w: "aged_turn x g i = Some (t, False, b, tok)" for i b tok
      using w d(4) [of i "b - x" tok] assms(5) [of i False "b - x" tok] by (auto simp: aged_turn_Some expire_def)
    show "j = i" if "aged_turn x g i = Some (t, False, b, tok)" "aged_turn x g j = Some (t, r, b', tok')" for i b tok j r b' tok'
      using that d(5) by (auto simp: aged_turn_Some)
  qed
qed

context redis_ttl
begin

lemma turns_tick:
  assumes "turns_inv ttl (view k) n g" "0 \<le> n" "0 \<le> x" "\<And>i t r b tok. g i = Some (t, r, b, tok) \<Longrightarrow> b + x < ttl"
  shows "turns_inv ttl (view (rd_tick R x k)) n (aged_turn x g)"
proof -
  note d = turns_invD [OF assms(1)]
  have v: "view (rd_tick R x k) key = expire x (view k key)" for key using tick_view [OF assms(3)] by blast
  have "dom (aged_turn x g) = dom g" by (auto simp: aged_turn_def dom_def)
  moreover have "0 \<le> b \<and> b < ttl" if "aged_turn x g i = Some (t, r, b, tok)" for i t r b tok
    using that d(3) [of i t r "b - x" tok] assms(3) assms(4) [of i t r "b - x" tok] by (simp add: aged_turn_Some)
  moreover have "turn_covers ttl n (aged_turn x g) t (expire x (view k (turnReadersKey t))) (expire x (view k (turnWriteLockKey t)))" for t
    using d(5) assms(3) d(2) assms(2,4) by (rule turn_tick_covers)
  ultimately show ?thesis using d(1,2) unfolding turns_inv_def v by metis
qed

end

section \<open>The invariant of the system\<close>

definition guarded_inv :: "int \<Rightarrow> ('k \<Rightarrow> keyspace) \<Rightarrow> 'k lock_world \<Rightarrow> bool" where
  "guarded_inv ttl view s =
     (sessions_inv ttl (view (lw_redis s)) (lw_tries s) (in_session (lw_calls s)) \<and>
      turns_inv ttl (view (lw_redis s)) (lw_tries s) (in_turn (lw_calls s)))"

lemma held_moved:
  "in_session (calls(i \<mapsto> q\<lparr>gl_pc := pc\<rparr>)) =
     (in_session calls)(i := map_option (\<lambda>a. (gl_session q, gl_turn q, a)) (session_age pc))"
  "in_turn (calls(i \<mapsto> q\<lparr>gl_pc := pc\<rparr>)) =
     (in_turn calls)(i := map_option (\<lambda>(b, tok). (gl_turn q, gl_class q = OperationClassRead, b, tok)) (turn_age pc))"
  by (auto simp: in_session_def in_turn_def fun_eq_iff)

lemma move_simps [simp]:
  "lw_redis (move i q pc k s) = k" "lw_tries (move i q pc k s) = lw_tries s"
  "lw_calls (move i q pc k s) = (lw_calls s)(i \<mapsto> q\<lparr>gl_pc := pc\<rparr>)"
  by (simp_all add: move_def)

lemma ages_older [simp]:
  "session_age (older x pc) = map_option (\<lambda>a. a + x) (session_age pc)"
  "turn_age (older x pc) = map_option (\<lambda>(b, tok). (b + x, tok)) (turn_age pc)"
  by (cases pc; simp)+

lemma held_older:
  "in_session (\<lambda>i. map_option (\<lambda>q. q\<lparr>gl_pc := older x (gl_pc q)\<rparr>) (calls i)) = aged x (in_session calls)"
  "in_turn (\<lambda>i. map_option (\<lambda>q. q\<lparr>gl_pc := older x (gl_pc q)\<rparr>) (calls i)) = aged_turn x (in_turn calls)"
proof -
  show "in_session (\<lambda>i. map_option (\<lambda>q. q\<lparr>gl_pc := older x (gl_pc q)\<rparr>) (calls i)) = aged x (in_session calls)"
  proof
    show "in_session (\<lambda>i. map_option (\<lambda>q. q\<lparr>gl_pc := older x (gl_pc q)\<rparr>) (calls i)) i = aged x (in_session calls) i" for i
      by (cases "calls i"; cases "session_age (gl_pc (the (calls i)))") (simp_all add: in_session_def aged_def)
  qed
  show "in_turn (\<lambda>i. map_option (\<lambda>q. q\<lparr>gl_pc := older x (gl_pc q)\<rparr>) (calls i)) = aged_turn x (in_turn calls)"
  proof
    show "in_turn (\<lambda>i. map_option (\<lambda>q. q\<lparr>gl_pc := older x (gl_pc q)\<rparr>) (calls i)) i = aged_turn x (in_turn calls) i" for i
      by (cases "calls i"; cases "turn_age (gl_pc (the (calls i)))") (auto simp: in_turn_def aged_turn_def)
  qed
qed

lemma held_none [simp]: "in_session (\<lambda>_. None) = (\<lambda>_. None)" "in_turn (\<lambda>_. None) = (\<lambda>_. None)"
  by (simp_all add: in_session_def in_turn_def fun_eq_iff)

lemma at_held:
  assumes "at_pc s i q pc"
  shows "in_session (lw_calls s) i = map_option (\<lambda>a. (gl_session q, gl_turn q, a)) (session_age pc)"
    "in_turn (lw_calls s) i = map_option (\<lambda>(b, tok). (gl_turn q, gl_class q = OperationClassRead, b, tok)) (turn_age pc)"
  using assms by (simp_all add: at_pc_def in_session_def in_turn_def)

lemma moved_inv:
  assumes "sessions_inv ttl (view k) n ((in_session (lw_calls s))(i := map_option (\<lambda>a. (gl_session q, gl_turn q, a)) (session_age pc)))"
    and "turns_inv ttl (view k) n
      ((in_turn (lw_calls s))(i := map_option (\<lambda>(b, tok). (gl_turn q, gl_class q = OperationClassRead, b, tok)) (turn_age pc)))"
  shows "guarded_inv ttl view ((move i q pc k s)\<lparr>lw_tries := n\<rparr>)"
  using assms by (simp add: guarded_inv_def held_moved)

lemma moved_inv_same: "guarded_inv ttl view ((move i q pc k s)\<lparr>lw_tries := lw_tries s\<rparr>) \<Longrightarrow> guarded_inv ttl view (move i q pc k s)"
  by (simp add: guarded_inv_def)

lemma sessions_after_turn: "turn_else t v v' \<Longrightarrow> sessions_inv ttl v n h \<Longrightarrow> sessions_inv ttl v' n h"
  by (erule sessions_inv_same) (simp_all add: turn_else_def not_sym [OF turn_session_keys(1)] not_sym [OF turn_session_keys(2)]
      not_sym [OF turn_session_keys(3)] not_sym [OF turn_session_keys(4)])

lemma turns_after_session: "same_else sid v v' \<Longrightarrow> turns_inv ttl v n g \<Longrightarrow> turns_inv ttl v' n g"
  by (erule turns_inv_same) (simp_all add: same_else_def)

lemma sessions_inv_more: "sessions_inv ttl v n h \<Longrightarrow> sessions_inv ttl v (n + 1) h"
  by (auto simp: sessions_inv_def intro: coherent_mono)

lemma tries_mono: "call_step R view ttl ok s s' \<Longrightarrow> lw_tries s \<le> lw_tries s'"
  by (induction rule: call_step.induct) simp_all

context redis_ttl
begin

lemma guarded_inv_step:
  assumes "call_step R view ttl (timely ttl) s s'" "guarded_inv ttl view s" "lw_tries s' \<le> int64_max"
  shows "guarded_inv ttl view s'"
proof -
  let ?h = "in_session (lw_calls s)" and ?g = "in_turn (lw_calls s)" and ?v = "view (lw_redis s)" and ?n = "lw_tries s"
  from assms(2) have S: "sessions_inv ttl ?v ?n ?h" and T: "turns_inv ttl ?v ?n ?g" by (simp_all add: guarded_inv_def)
  from assms(1) show ?thesis
  proof cases
    case (arrive i sid tid cl)
    then have "in_session (lw_calls s') = ?h" "in_turn (lw_calls s') = ?g"
      by (auto simp: in_session_def in_turn_def fun_eq_iff)
    with S T arrive show ?thesis by (simp add: guarded_inv_def)
  next
    case (acquire i q c out k)
    note h = at_held [OF acquire(2)]
    have i: "?h i = None" "?g i = None" using h by simp_all
    have n: "?n < int64_max" using assms(3) acquire(1) by simp
    from sessions_acquire [OF acquire(3) S n i(1)] have
      a: "sessions_inv ttl (view k) (?n + 1) (if out = Ret True then ?h(i \<mapsto> (gl_session q, gl_turn q, 0)) else ?h)"
        "same_else (gl_session q) ?v (view k)" by auto
    from turns_after_session [OF a(2) turns_inv_more [OF T n]] have t: "turns_inv ttl (view k) (?n + 1) ?g" .
    show ?thesis
      unfolding acquire(1) by (rule moved_inv) (use a(1) t i in \<open>auto simp: fun_upd_idem split: go.splits bool.splits\<close>)
  next
    case (session_busy i q)
    note h = at_held [OF session_busy(2)]
    show ?thesis unfolding session_busy(1) by (rule moved_inv_same, rule moved_inv) (use S T h in \<open>simp_all add: fun_upd_idem\<close>)
  next
    case (read_lock i q a c out k)
    note h = at_held [OF read_lock(2)]
    have i: "?h i = Some (gl_session q, gl_turn q, a)" "?g i = None" using h by simp_all
    have n: "?n < int64_max" using assms(3) read_lock(1) by simp
    from turns_read [OF read_lock(4) T n i(2), of "[]"] have
      a: "turns_inv ttl (view k) (?n + 1) (if out = Ret True then ?g(i \<mapsto> (gl_turn q, True, 0, [])) else ?g)"
        "turn_else (gl_turn q) ?v (view k)" by auto
    from sessions_after_turn [OF a(2) sessions_inv_more [OF S]] have t: "sessions_inv ttl (view k) (?n + 1) ?h" .
    show ?thesis
      unfolding read_lock(1)
      by (rule moved_inv) (use a(1) t i read_lock(3) in \<open>auto simp: fun_upd_idem split: go.splits bool.splits\<close>)
  next
    case (write_lock i q a c tok out k)
    note h = at_held [OF write_lock(2)]
    have i: "?h i = Some (gl_session q, gl_turn q, a)" "?g i = None" using h by simp_all
    from turns_write [OF write_lock(4) T i(2)] have
      a: "turns_inv ttl (view k) ?n (if out = Ret True then ?g(i \<mapsto> (gl_turn q, False, 0, tok)) else ?g)"
        "turn_else (gl_turn q) ?v (view k)" by auto
    from sessions_after_turn [OF a(2) S] have t: "sessions_inv ttl (view k) ?n ?h" .
    show ?thesis
      unfolding write_lock(1)
      by (rule moved_inv_same, rule moved_inv) (use a(1) t i write_lock(3) in \<open>auto simp: fun_upd_idem split: go.splits bool.splits\<close>)
  next
    case (turn_busy i q a)
    note h = at_held [OF turn_busy(2)]
    show ?thesis unfolding turn_busy(1) by (rule moved_inv_same, rule moved_inv) (use S T h in \<open>simp_all add: fun_upd_idem\<close>)
  next
    case (extend i q a b tok c out k)
    note h = at_held [OF extend(2)]
    have i: "?h i = Some (gl_session q, gl_turn q, a)" "?g i = Some (gl_turn q, gl_class q = OperationClassRead, b, tok)"
      using h by simp_all
    from sessions_extend [OF extend(3) S i(1)] have
      e: "sessions_inv ttl (view k) ?n (if out = Ret True then ?h(i \<mapsto> (gl_session q, gl_turn q, 0)) else ?h)"
        "same_else (gl_session q) ?v (view k)" by auto
    from turns_after_session [OF e(2) T] have t: "turns_inv ttl (view k) ?n ?g" .
    show ?thesis unfolding extend(1) by (rule moved_inv_same, rule moved_inv) (use e(1) t i in \<open>auto simp: fun_upd_idem split: if_splits\<close>)
  next
    case (read_unlock i q a b tok c e k)
    note h = at_held [OF read_unlock(2)]
    have i: "?h i = Some (gl_session q, gl_turn q, a)" "?g i = Some (gl_turn q, True, b, tok)"
      using h read_unlock(3) by simp_all
    from turns_unread [OF read_unlock(4) T i(2)] have
      u: "turns_inv ttl (view k) ?n (?g(i := None))" "turn_else (gl_turn q) ?v (view k)" by auto
    from sessions_after_turn [OF u(2) S] have t: "sessions_inv ttl (view k) ?n ?h" .
    show ?thesis unfolding read_unlock(1) by (rule moved_inv_same, rule moved_inv) (use u(1) t i in \<open>simp_all add: fun_upd_idem\<close>)
  next
    case (write_unlock i q a b tok c e k)
    note h = at_held [OF write_unlock(2)]
    have i: "?h i = Some (gl_session q, gl_turn q, a)" "?g i = Some (gl_turn q, False, b, tok)"
      using h write_unlock(3) by simp_all
    from turns_unwrite [OF write_unlock(4) T i(2)] have
      u: "turns_inv ttl (view k) ?n (?g(i := None))" "turn_else (gl_turn q) ?v (view k)" by auto
    from sessions_after_turn [OF u(2) S] have t: "sessions_inv ttl (view k) ?n ?h" .
    show ?thesis unfolding write_unlock(1) by (rule moved_inv_same, rule moved_inv) (use u(1) t i in \<open>simp_all add: fun_upd_idem\<close>)
  next
    case (release i q a c e k)
    note h = at_held [OF release(2)]
    have i: "?h i = Some (gl_session q, gl_turn q, a)" "?g i = None" using h by simp_all
    from sessions_release [OF release(3) S i(1)] have
      r: "sessions_inv ttl (view k) ?n (?h(i := None))" "same_else (gl_session q) ?v (view k)" by auto
    from turns_after_session [OF r(2) T] have t: "turns_inv ttl (view k) ?n ?g" .
    show ?thesis unfolding release(1) by (rule moved_inv_same, rule moved_inv) (use r(1) t i in \<open>simp_all add: fun_upd_idem\<close>)
  next
    case (passes x)
    have "in_session (lw_calls s') = aged x ?h" "in_turn (lw_calls s') = aged_turn x ?g"
      unfolding passes(1) by (simp_all add: held_older)
    moreover have "\<forall>i s t a. ?h i = Some (s, t, a) \<longrightarrow> a + x < ttl"
      using passes(3) by (auto simp: timely_def in_session_def bind_eq_Some_conv)
    moreover have "b + x < ttl" if "?g i = Some (t, r, b, tok)" for i t r b tok
      using passes(3) that by (auto simp: timely_def in_turn_def bind_eq_Some_conv)
    moreover have "0 \<le> ?n" using S by (simp add: sessions_inv_def coherent_def)
    ultimately show ?thesis
      using sessions_tick [OF S passes(2)] turns_tick [OF T _ passes(2)] passes(1) by (simp add: guarded_inv_def)
  next
    case (others k)
    with sessions_inv_same [OF S, of "view k"] turns_inv_same [OF T, of "view k"] show ?thesis
      by (simp add: guarded_inv_def lock_keys_same_def)
  qed
qed

lemma guarded_inv_reach:
  assumes "(call_step R view ttl (timely ttl))\<^sup>*\<^sup>* s s'" "guarded_inv ttl view s" "lw_tries s' \<le> int64_max"
  shows "guarded_inv ttl view s'"
  using assms
proof (induction rule: rtranclp_induct)
  case (step y z)
  moreover from tries_mono [OF step.hyps(2)] step.prems(2) have "lw_tries y \<le> int64_max" by simp
  ultimately show ?case using guarded_inv_step by blast
qed simp

end

section \<open>Properties\<close>

text \<open>A Redis without keys of the locks, and no calls.\<close>

definition start_world :: "'k \<Rightarrow> 'k lock_world" where
  "start_world k = \<lparr>lw_redis = k, lw_calls = (\<lambda>_. None), lw_tries = 0\<rparr>"

definition no_lock_keys :: "keyspace \<Rightarrow> bool" where
  "no_lock_keys v =
     ((\<forall>s. v (sessionLockKey s) = None \<and> v (sessionLockRefCountKey s) = None) \<and>
      (\<forall>t. v (turnReadersKey t) = None \<and> v (turnWriteLockKey t) = None))"

lemma start_inv:
  assumes "no_lock_keys (view k)"
  shows "guarded_inv ttl view (start_world k)"
proof -
  have l: "leases_of (view k) s = None" for s using assms by (simp add: no_lock_keys_def leases_of_def lease_at_def)
  have "coherent 0 (view k)" using assms by (simp add: no_lock_keys_def coherent_def entries_ok_def)
  then show ?thesis
    using assms l
    by (auto simp: guarded_inv_def start_world_def sessions_inv_def turns_inv_def leases_ok_def lease_covers_def of_session_def
        turn_covers_def lives_def counts_def readers_in_def no_lock_keys_def int64_max_def)
qed


text \<open>
  C7. No lock is lost for ever: from every state of a timely run, once the time to live has passed with nobody acting, a call whose requests
  reach Redis gets the session's lock and then the turn's lock, for reading or for writing, at its first try, also where the
  holders crashed or the replies of their releases were lost.
\<close>

theorem abandoned_locks_free_after_ttl:
  assumes "redis_api R view" and "0 < ttl" and "no_lock_keys (view k)"
    and "(call_step R view ttl (timely ttl))\<^sup>*\<^sup>* (start_world k) s" and "lw_tries s < int64_max"
    and "\<And>k'. fst (fst (rd_link R c k')) = None"
  shows "\<exists>k1. evalBoolResult R c (sessionLockAcquireScript R (sessionLockKey sid) (sessionLockRefCountKey sid) tid ttl)
      (rd_tick R ttl (lw_redis s)) = (Ret True, k1) \<and>
    (\<exists>k2. evalAcquireResult R c (turnReadLockScript R (turnReadersKey tid) (turnWriteLockKey tid) ttl) k1 = (Ret True, k2)) \<and>
    (\<exists>k2. evalAcquireResult R c (turnWriteLockScript R (turnReadersKey tid) (turnWriteLockKey tid) tok ttl) k1 = (Ret True, k2))"
proof -
  from assms(1,2) have R: "redis_ttl R view ttl" by (simp add: redis_ttl_def redis_ttl_axioms_def)
  from redis_ttl.guarded_inv_reach [OF R assms(4) start_inv [of view, OF assms(3)]] assms(5) have
    S: "sessions_inv ttl (view (lw_redis s)) (lw_tries s) (in_session (lw_calls s))" and
    T: "turns_inv ttl (view (lw_redis s)) (lw_tries s) (in_turn (lw_calls s))" by (simp_all add: guarded_inv_def)
  let ?k = "rd_tick R ttl (lw_redis s)"
  have v: "view ?k key = expire ttl (view (lw_redis s) key)" for key
    using redis_api.tick_view [OF assms(1), of ttl] assms(2) by simp
  have "coherent (lw_tries s) (view (lw_redis s))" using S by (simp add: sessions_inv_def)
  from redis_api.tick_refines [OF assms(1) this, of ttl] assms(2) have
    t: "lease_tick ttl (leases_of (view (lw_redis s))) = leases_of (view ?k)" "coherent (lw_tries s) (view ?k)" by auto
  have "lease_covers ttl (in_session (lw_calls s)) sid (leases_of (view (lw_redis s)) sid)"
    using S by (simp add: sessions_inv_def leases_ok_def)
  then have "leases_of (view ?k) sid = None"
    by (auto simp: t(1) [symmetric] lease_tick_def lease_covers_def split: option.splits)
  note free = this
  have gone: "view ?k (turnReadersKey tid) = None" "view ?k (turnWriteLockKey tid) = None"
    using turn_coversD(1,2) [OF turns_invD(5) [OF T, of tid]] by (fastforce simp: v lives_def expire_def split: option.splits)+
  obtain b k1 where l1: "rd_link R c ?k = ((None, b), k1)" using assms(6) [of ?k] by (metis prod.collapse)
  then have v1: "view k1 = view ?k" using redis_api.link_view [OF assms(1), of c ?k] by simp
  from redis_api.acquire_refines [OF assms(1), of "lw_tries s" k1 ttl sid tid] t(2) v1 assms(2,5) obtain r k2 where
    r: "sl_step R ttl k1 (LkAcquire sid tid) = (Ret r, k2)" "lease_acquire ttl sid tid (leases_of (view k1)) = (r, leases_of (view k2))"
      "same_else sid (view k1) (view k2)" by auto
  from r(2) free v1 have "r = 1" by (simp add: lease_acquire_def)
  with l1 r(1) have e: "evalBoolResult R c (sessionLockAcquireScript R (sessionLockKey sid) (sessionLockRefCountKey sid) tid ttl) ?k =
      (Ret True, k2)" by (simp add: evalBoolResult_def redis_eval_def)
  obtain b' k3 where l3: "rd_link R c k2 = ((None, b'), k3)" using assms(6) [of k2] by (metis prod.collapse)
  then have v3: "view k3 = view k2" using redis_api.link_view [OF assms(1), of c k2] by simp
  have g3: "view k3 (turnReadersKey tid) = None" "view k3 (turnWriteLockKey tid) = None"
    using gone r(3) v1 v3 by (simp_all add: same_else_def)
  then have z: "readers_of (view k3) tid 0" "int64 0" "int64 (0 + 1)"
    by (simp_all add: readers_of_def counts_def int64_def int64_min_def int64_max_def)
  from redis_ttl.read_lock_granted [OF R g3(2) z] redis_ttl.write_lock_effect [OF R z(1,2), of tok] g3(2) e l3
  show ?thesis by (fastforce simp: evalAcquireResult_def redis_eval_def)
qed

section \<open>An example\<close>

text \<open>A Redis that is always reached.\<close>

definition reliable_redis :: "mem_state redis" where
  "reliable_redis = mem_redis\<lparr>rd_link := (\<lambda>c k. ((None, True), k))\<rparr>"

interpretation reliable: redis_api reliable_redis mem_view
  using mem.get_view mem.exists_view mem.set_view mem.setnx_new mem.setnx_old mem.incr_view mem.decr_view mem.pexpire_view
    mem.del_view mem.tick_view
  by unfold_locales (simp_all add: reliable_redis_def)

definition demo_reader :: "guard_pc \<Rightarrow> guarded_call" where
  "demo_reader pc = \<lparr>gl_session = ''s'', gl_turn = ''t'', gl_class = OperationClassRead, gl_pc = pc\<rparr>"

lemma no_keys_empty: "no_lock_keys (mem_view mem_empty)"
  by (simp add: no_lock_keys_def mem_empty_def)

lemma demo_acquire:
  assumes "coherent n (mem_view k)" "n < int64_max" "leases_of (mem_view k) ''s'' = None \<or>
      (\<exists>l. leases_of (mem_view k) ''s'' = Some l \<and> ls_owner l = ''t'')"
  obtains k' where "evalBoolResult reliable_redis c
      (sessionLockAcquireScript reliable_redis (sessionLockKey ''s'') (sessionLockRefCountKey ''s'') ''t'' 60000) k = (Ret True, k')"
    "coherent (n + 1) (mem_view k')" "\<exists>l. leases_of (mem_view k') ''s'' = Some l \<and> ls_owner l = ''t''" 
    "same_else ''s'' (mem_view k) (mem_view k')"
proof -
  from reliable.acquire_refines [OF assms(1,2), of 60000 "''s''" "''t''"] obtain r k' where
    r: "sl_step reliable_redis 60000 k (LkAcquire ''s'' ''t'') = (Ret r, k')"
      "lease_acquire 60000 ''s'' ''t'' (leases_of (mem_view k)) = (r, leases_of (mem_view k'))"
      "coherent (n + 1) (mem_view k')" "same_else ''s'' (mem_view k) (mem_view k')" by auto
  from r(2) [symmetric] assms(3) have "r = 1" "\<exists>l. leases_of (mem_view k') ''s'' = Some l \<and> ls_owner l = ''t''"
    by (auto simp: lease_acquire_def)
  with r(1) show thesis by (intro that [of k'] r(3,4)) (simp_all add: evalBoolResult_def redis_eval_def reliable_redis_def)
qed

lemma demo_read:
  assumes "mem_view k (turnWriteLockKey ''t'') = None" "counts (mem_view k (turnReadersKey ''t'')) n" "0 \<le> n" "n < int64_max"
  obtains k' where "evalAcquireResult reliable_redis c
      (turnReadLockScript reliable_redis (turnReadersKey ''t'') (turnWriteLockKey ''t'') 60000) k = (Ret True, k')"
    "mem_view k' (turnWriteLockKey ''t'') = None" "counts (mem_view k' (turnReadersKey ''t'')) (n + 1)"
proof -
  have R: "redis_ttl reliable_redis mem_view 60000" by unfold_locales simp
  have i: "int64 n" "int64 (n + 1)" using assms(3,4) by (simp_all add: int64_def int64_min_def)
  from redis_ttl.read_lock_granted [OF R assms(1) _ i] assms(2) obtain k' where
    "turnReadLockScript reliable_redis (turnReadersKey ''t'') (turnWriteLockKey ''t'') 60000 k = (Ret (n + 1), k')"
    "mem_view k' = (mem_view k)(turnReadersKey ''t'' \<mapsto> (itoa (n + 1), Some 60000))" by (auto simp: readers_of_def)
  with assms(1,3) show thesis
    by (intro that [of k']) (simp_all add: evalAcquireResult_def redis_eval_def reliable_redis_def counts_def)
qed

text \<open>Two reads of one turn run at the same time.\<close>

lemma demo_two_readers:
  obtains s where "(call_step reliable_redis mem_view 60000 (timely 60000))\<^sup>*\<^sup>* (start_world mem_empty) s"
    "at_pc s 0 (demo_reader (Running 0 0 [])) (Running 0 0 [])" "at_pc s 1 (demo_reader (Running 0 0 [])) (Running 0 0 [])" "lw_tries s = 4"
proof -
  let ?step = "call_step reliable_redis mem_view 60000 (timely 60000)"
  define s1 where "s1 = (start_world mem_empty)\<lparr>lw_calls := [0 \<mapsto> demo_reader Waiting]\<rparr>"
  define s2 where "s2 = s1\<lparr>lw_calls := [0 \<mapsto> demo_reader Waiting, 1 \<mapsto> demo_reader Waiting]\<rparr>"
  have 1: "?step (start_world mem_empty) s1" "?step s1 s2"
    using call_step.arrive [where ok = "timely 60000", of "start_world mem_empty" 0 reliable_redis mem_view 60000 "''s''" "''t''" OperationClassRead]
      call_step.arrive [where ok = "timely 60000", of s1 1 reliable_redis mem_view 60000 "''s''" "''t''" OperationClassRead]
    by (simp_all add: start_world_def s1_def s2_def demo_reader_def)
  have "leases_of (mem_view mem_empty) ''s'' = None" by (simp add: leases_of_def lease_at_def mem_empty_def)
  then obtain k3 where k3: "evalBoolResult reliable_redis background
      (sessionLockAcquireScript reliable_redis (sessionLockKey ''s'') (sessionLockRefCountKey ''s'') ''t'' 60000) mem_empty = (Ret True, k3)"
    "coherent (0 + 1) (mem_view k3)" "\<exists>l. leases_of (mem_view k3) ''s'' = Some l \<and> ls_owner l = ''t''"
    "same_else ''s'' (mem_view mem_empty) (mem_view k3)"
    using demo_acquire [OF coherent_empty, of background] by (auto simp: int64_max_def)
  obtain k4 where k4: "evalBoolResult reliable_redis background
      (sessionLockAcquireScript reliable_redis (sessionLockKey ''s'') (sessionLockRefCountKey ''s'') ''t'' 60000) k3 = (Ret True, k4)"
    "same_else ''s'' (mem_view k3) (mem_view k4)"
    using demo_acquire [OF k3(2), of background] k3(3) by (auto simp: int64_max_def)
  have e: "mem_view k4 (turnWriteLockKey ''t'') = None" "counts (mem_view k4 (turnReadersKey ''t'')) 0"
    using k3(4) k4(2) by (simp_all add: same_else_def mem_empty_def counts_def)
  obtain k5 where k5: "evalAcquireResult reliable_redis background
      (turnReadLockScript reliable_redis (turnReadersKey ''t'') (turnWriteLockKey ''t'') 60000) k4 = (Ret True, k5)"
    "mem_view k5 (turnWriteLockKey ''t'') = None" "counts (mem_view k5 (turnReadersKey ''t'')) (0 + 1)"
    by (rule demo_read [OF e]) (auto simp: int64_max_def)
  obtain k6 where k6: "evalAcquireResult reliable_redis background
      (turnReadLockScript reliable_redis (turnReadersKey ''t'') (turnWriteLockKey ''t'') 60000) k5 = (Ret True, k6)"
    by (rule demo_read [OF k5(2,3)]) (auto simp: int64_max_def)
  define s3 where "s3 = (move 0 (demo_reader Waiting) (InSession 0) k3 s2)\<lparr>lw_tries := 1\<rparr>"
  define s4 where "s4 = (move 1 (demo_reader Waiting) (InSession 0) k4 s3)\<lparr>lw_tries := 2\<rparr>"
  define s5 where "s5 = (move 0 (demo_reader (InSession 0)) (Running 0 0 []) k5 s4)\<lparr>lw_tries := 3\<rparr>"
  define s6 where "s6 = (move 1 (demo_reader (InSession 0)) (Running 0 0 []) k6 s5)\<lparr>lw_tries := 4\<rparr>"
  note defs = s1_def s2_def s3_def s4_def s5_def s6_def start_world_def demo_reader_def at_pc_def
  have "?step s2 s3"
    using call_step.acquire [where ok = "timely 60000", of s2 0 "demo_reader Waiting" reliable_redis background 60000 "Ret True" k3 mem_view] k3(1)
    by (simp add: defs int64_max_def)
  moreover have "?step s3 s4"
    using call_step.acquire [where ok = "timely 60000", of s3 1 "demo_reader Waiting" reliable_redis background 60000 "Ret True" k4 mem_view] k4(1)
    by (simp add: defs int64_max_def)
  moreover have "?step s4 s5"
    using call_step.read_lock [where ok = "timely 60000", of s4 0 "demo_reader (InSession 0)" 0 reliable_redis background 60000 "Ret True" k5 mem_view] k5(1)
    by (simp add: defs int64_max_def)
  moreover have "?step s5 s6"
    using call_step.read_lock [where ok = "timely 60000", of s5 1 "demo_reader (InSession 0)" 0 reliable_redis background 60000 "Ret True" k6 mem_view] k6
    by (simp add: defs int64_max_def)
  ultimately have "?step\<^sup>*\<^sup>* (start_world mem_empty) s6"
    using 1 by (meson converse_rtranclp_into_rtranclp rtranclp.rtrancl_refl)
  then show thesis by (rule that) (simp_all add: defs)
qed


theorem abandoned_locks_free_after_ttl_witness:
  "\<exists>s k. (call_step reliable_redis mem_view 60000 (timely 60000))\<^sup>*\<^sup>* (start_world mem_empty) s \<and>
     at_pc s 0 (demo_reader (Running 0 0 [])) (Running 0 0 []) \<and>
     evalBoolResult reliable_redis background
       (sessionLockAcquireScript reliable_redis (sessionLockKey ''s'') (sessionLockRefCountKey ''s'') ''t2'' 60000)
       (rd_tick reliable_redis 60000 (lw_redis s)) = (Ret True, k)"
proof -
  obtain s where s: "(call_step reliable_redis mem_view 60000 (timely 60000))\<^sup>*\<^sup>* (start_world mem_empty) s"
    "at_pc s 0 (demo_reader (Running 0 0 [])) (Running 0 0 [])" "lw_tries s = 4"
    by (rule demo_two_readers)
  have "fst (fst (rd_link reliable_redis background k')) = None" for k' by (simp add: reliable_redis_def)
  then have "\<exists>k. evalBoolResult reliable_redis background
       (sessionLockAcquireScript reliable_redis (sessionLockKey ''s'') (sessionLockRefCountKey ''s'') ''t2'' 60000)
       (rd_tick reliable_redis 60000 (lw_redis s)) = (Ret True, k)"
    using abandoned_locks_free_after_ttl [OF reliable.redis_api_axioms _ no_keys_empty s(1) _, of background "''s''" "''t2''"] s(3)
    by (auto simp: int64_max_def)
  with s(1,2) show ?thesis by blast
qed

end
