(* ===== verification/Gateway_Calls.thy ===== *)
theory Gateway_Calls
  imports Gateway Guarded_Calls
begin

text \<open>
  The calls of the gateway are calls of the transition system of \<open>Guarded_Calls\<close>: an execution of the guard of \<open>buildGatewayServer\<close> goes
  through its steps, with what the other calls do and the passing of time during the sleeps of the poll loops and during
  the guarded function.
\<close>

section \<open>Phases\<close>

text \<open>The place of a call without its ages.\<close>

fun phase :: "guard_pc \<Rightarrow> guard_pc" where
  "phase (InSession a) = InSession 0"
| "phase (Running a b tok) = Running 0 0 tok"
| "phase (Leaving a) = Leaving 0"
| "phase pc = pc"

record call_id =
  ci_id :: nat
  ci_session :: string
  ci_turn :: string
  ci_class :: operation_class

definition in_phase :: "call_id \<Rightarrow> guard_pc \<Rightarrow> 'k \<Rightarrow> 'k lock_world \<Rightarrow> bool" where
  "in_phase i ph k s =
     (lw_redis s = k \<and>
      (\<exists>q. lw_calls s (ci_id i) = Some q \<and> gl_session q = ci_session i \<and> gl_turn q = ci_turn i \<and> gl_class q = ci_class i \<and>
           phase (gl_pc q) = ph))"

lemma in_phaseE:
  assumes "in_phase i ph k s"
  obtains q where "lw_redis s = k" "at_pc s (ci_id i) q (gl_pc q)" "gl_session q = ci_session i" "gl_turn q = ci_turn i"
    "gl_class q = ci_class i" "phase (gl_pc q) = ph"
  using assms by (auto simp: in_phase_def at_pc_def)

lemma in_phase_moved:
  assumes "gl_session q = ci_session i" "gl_turn q = ci_turn i" "gl_class q = ci_class i" "phase pc = ph"
  shows "in_phase i ph k ((move (ci_id i) q pc k s)\<lparr>lw_tries := n\<rparr>)"
  using assms by (simp_all add: in_phase_def)

lemma phase_cases:
  "phase pc = InSession 0 \<Longrightarrow> \<exists>a. pc = InSession a" "phase pc = Running 0 0 tok \<Longrightarrow> \<exists>a b. pc = Running a b tok"
  "phase pc = Leaving 0 \<Longrightarrow> \<exists>a. pc = Leaving a" "phase pc = Waiting \<Longrightarrow> pc = Waiting"
  by (cases pc; simp)+

text \<open>From every state of one phase the system gets to a state of another, with these states of Redis.\<close>

definition leads :: "('k lock_world \<Rightarrow> 'k lock_world \<Rightarrow> bool) \<Rightarrow> call_id \<Rightarrow> guard_pc \<Rightarrow> 'k \<Rightarrow> guard_pc \<Rightarrow> 'k \<Rightarrow> bool" where
  "leads step i ph k ph' k' = (\<forall>s. in_phase i ph k s \<longrightarrow> (\<exists>s'. step\<^sup>*\<^sup>* s s' \<and> in_phase i ph' k' s'))"

lemma leads_refl [simp]: "leads step i ph k ph k"
  by (auto simp: leads_def)

lemma leads_trans: "leads step i a k b k1 \<Longrightarrow> leads step i b k1 c k2 \<Longrightarrow> leads step i a k c k2"
  unfolding leads_def by (meson rtranclp_trans)

text \<open>A step of the call itself.\<close>

lemma move_tries [simp]: "(move i q pc k s)\<lparr>lw_tries := lw_tries s\<rparr> = move i q pc k s"
  by (simp add: move_def)

lemma leads_move:
  assumes "\<And>s q pc. lw_redis s = k \<Longrightarrow> at_pc s (ci_id i) q pc \<Longrightarrow> gl_session q = ci_session i \<Longrightarrow> gl_turn q = ci_turn i \<Longrightarrow>
      gl_class q = ci_class i \<Longrightarrow> phase pc = ph \<Longrightarrow>
      \<exists>pc' n. phase pc' = ph' \<and> step s ((move (ci_id i) q pc' k' s)\<lparr>lw_tries := n\<rparr>)"
  shows "leads step i ph k ph' k'"
  unfolding leads_def
proof (intro allI impI)
  fix s assume "in_phase i ph k s"
  then obtain q where q: "lw_redis s = k" "at_pc s (ci_id i) q (gl_pc q)" "gl_session q = ci_session i" "gl_turn q = ci_turn i"
    "gl_class q = ci_class i" "phase (gl_pc q) = ph" by (rule in_phaseE)
  from assms [OF this] obtain pc' n where n: "phase pc' = ph'" "step s ((move (ci_id i) q pc' k' s)\<lparr>lw_tries := n\<rparr>)" by blast
  show "\<exists>s'. step\<^sup>*\<^sup>* s s' \<and> in_phase i ph' k' s'"
    by (intro exI conjI, rule r_into_rtranclp, rule n(2), rule in_phase_moved [OF q(3,4,5) n(1)])
qed

definition won :: "guard_pc \<Rightarrow> guard_pc \<Rightarrow> guard_pc \<Rightarrow> bool go \<Rightarrow> guard_pc" where
  "won yes no failed out = (case out of Ret True \<Rightarrow> yes | Ret False \<Rightarrow> no | _ \<Rightarrow> failed)"

lemma poll_leads:
  assumes "poll_loop n R c attempt wrap busy timeout deadline k = Some (out, k')"
    and "\<And>k o1 k1. attempt k = (o1, k1) \<Longrightarrow> leads step i ph k (won yes ph failed o1) k1"
    and "\<And>d k. 0 < d \<Longrightarrow> leads step i ph k ph (snd (rd_sleep R c d k))"
    and "\<And>k. leads step i ph k failed k"
  shows "leads step i ph k (if is_ret out then yes else failed) k'"
  using assms(1)
proof (induction n arbitrary: k)
  case (Suc n k)
  obtain o1 k1 where a: "attempt k = (o1, k1)" by (metis prod.exhaust)
  note at = assms(2) [OF a]
  show ?case
  proof (cases "o1 = Ret False")
    case False
    with Suc.prems a at show ?thesis by (auto simp: won_def split: go.splits bool.splits)
  next
    case True
    with at have l1: "leads step i ph k ph k1" by (simp add: won_def)
    show ?thesis
    proof (cases "timeout \<le> 0 \<or> \<not> rd_now R k1 < deadline")
      case True
      with Suc.prems a \<open>o1 = Ret False\<close> leads_trans [OF l1 assms(4)] show ?thesis by auto
    next
      case False
      obtain e k2 where s: "rd_sleep R c (min poll_interval (deadline - rd_now R k1)) k1 = (e, k2)" by (metis prod.exhaust)
      from False have "0 < min poll_interval (deadline - rd_now R k1)" by (simp add: poll_interval_def)
      with s assms(3) [of "min poll_interval (deadline - rd_now R k1)" k1] have l2: "leads step i ph k ph k2"
        using leads_trans [OF l1] by simp
      show ?thesis
      proof (cases e)
        case (Some x)
        with Suc.prems a \<open>o1 = Ret False\<close> False s leads_trans [OF l2 assms(4)] show ?thesis by auto
      next
        case None
        with Suc.prems a \<open>o1 = Ret False\<close> False s have "poll_loop n R c attempt wrap busy timeout deadline k2 = Some (out, k')"
          by simp
        from leads_trans [OF l2 Suc.IH [OF this]] show ?thesis .
      qed
    qed
  qed
qed simp

section \<open>The operations of the guard\<close>

lemma acquire_leads:
  assumes "evalBoolResult R c (sessionLockAcquireScript R (sessionLockKey (ci_session i)) (sessionLockRefCountKey (ci_session i))
      (ci_turn i) ttl) k = (out, k1)"
  shows "leads (call_step R view ttl ok) i Waiting k (won (InSession 0) Waiting Ended out) k1"
proof (rule leads_move)
  fix s q pc assume q: "lw_redis s = k" "at_pc s (ci_id i) q pc" "gl_session q = ci_session i" "gl_turn q = ci_turn i"
    "phase pc = Waiting"
  have "phase (won (InSession 0) Waiting Ended out) = won (InSession 0) Waiting Ended out"
    by (auto simp: won_def split: go.splits bool.splits)
  with call_step.acquire [OF q(2) [unfolded phase_cases(4) [OF q(5)]], of R c ttl out k1 view ok] assms q(1,3,4)
  show "\<exists>pc' n. phase pc' = won (InSession 0) Waiting Ended out \<and>
      call_step R view ttl ok s ((move (ci_id i) q pc' k1 s)\<lparr>lw_tries := n\<rparr>)"
    unfolding won_def by auto
qed

lemma busy_leads: "leads (call_step R view ttl ok) i Waiting k Ended k"
proof (rule leads_move)
  fix s q pc assume q: "lw_redis s = k" "at_pc s (ci_id i) q pc" "phase pc = Waiting"
  from call_step.session_busy [OF q(2) [unfolded phase_cases(4) [OF q(3)]], of R view ttl ok] q(1)
  show "\<exists>pc' n. phase pc' = Ended \<and> call_step R view ttl ok s ((move (ci_id i) q pc' k s)\<lparr>lw_tries := n\<rparr>)"
    by (intro exI [of _ Ended] exI [of _ "lw_tries s"]) simp
qed

text \<open>A try for the lock of the turn, whose outcome keeps the age of the call.\<close>

lemma won_phase:
  "phase (case out of Ret True \<Rightarrow> Running a 0 tok | Ret False \<Rightarrow> InSession a | _ \<Rightarrow> Leaving a) =
   won (Running 0 0 tok) (InSession 0) (Leaving 0) out"
  by (auto simp: won_def split: go.splits bool.splits)

lemma read_leads:
  assumes "evalAcquireResult R c (turnReadLockScript R (turnReadersKey (ci_turn i)) (turnWriteLockKey (ci_turn i)) ttl) k = (out, k1)"
    and "ci_class i = OperationClassRead"
  shows "leads (call_step R view ttl ok) i (InSession 0) k (won (Running 0 0 []) (InSession 0) (Leaving 0) out) k1"
proof (rule leads_move)
  fix s q pc assume q: "lw_redis s = k" "at_pc s (ci_id i) q pc" "gl_turn q = ci_turn i" "gl_class q = ci_class i"
    "phase pc = InSession 0"
  from phase_cases(1) [OF q(5)] obtain a where "pc = InSession a" by blast
  with q(2) have "at_pc s (ci_id i) q (InSession a)" by simp
  from call_step.read_lock [OF this, of R c ttl out k1 view ok] assms q(1,3,4) won_phase
  show "\<exists>pc' n. phase pc' = won (Running 0 0 []) (InSession 0) (Leaving 0) out \<and>
      call_step R view ttl ok s ((move (ci_id i) q pc' k1 s)\<lparr>lw_tries := n\<rparr>)" by metis
qed

lemma write_leads:
  assumes "evalAcquireResult R c (turnWriteLockScript R (turnReadersKey (ci_turn i)) (turnWriteLockKey (ci_turn i)) tok ttl) k = (out, k1)"
    and "ci_class i \<noteq> OperationClassRead"
  shows "leads (call_step R view ttl ok) i (InSession 0) k (won (Running 0 0 tok) (InSession 0) (Leaving 0) out) k1"
proof (rule leads_move)
  fix s q pc assume q: "lw_redis s = k" "at_pc s (ci_id i) q pc" "gl_turn q = ci_turn i" "gl_class q = ci_class i"
    "phase pc = InSession 0"
  from phase_cases(1) [OF q(5)] obtain a where "pc = InSession a" by blast
  with q(2) have "at_pc s (ci_id i) q (InSession a)" by simp
  from call_step.write_lock [OF this, of R c tok ttl out k1 view ok] assms q(1,3,4) won_phase move_tries
  show "\<exists>pc' n. phase pc' = won (Running 0 0 tok) (InSession 0) (Leaving 0) out \<and>
      call_step R view ttl ok s ((move (ci_id i) q pc' k1 s)\<lparr>lw_tries := n\<rparr>)" by metis
qed

lemma turn_busy_leads: "leads (call_step R view ttl ok) i (InSession 0) k (Leaving 0) k"
proof (rule leads_move)
  fix s q pc assume q: "lw_redis s = k" "at_pc s (ci_id i) q pc" "phase pc = InSession 0"
  from phase_cases(1) [OF q(3)] obtain a where "pc = InSession a" by blast
  with q(2) have "at_pc s (ci_id i) q (InSession a)" by simp
  from call_step.turn_busy [OF this, of R view ttl ok] q(1)
  show "\<exists>pc' n. phase pc' = Leaving 0 \<and> call_step R view ttl ok s ((move (ci_id i) q pc' k s)\<lparr>lw_tries := n\<rparr>)"
    by (intro exI [of _ "Leaving a"] exI [of _ "lw_tries s"]) simp
qed

lemma unlock_leads:
  assumes "if ci_class i = OperationClassRead then rw_ReadUnlock R c (ci_turn i) k = (e, k1) else rw_WriteUnlock R c (ci_turn i) tok k = (e, k1)"
  shows "leads (call_step R view ttl ok) i (Running 0 0 tok) k (Leaving 0) k1"
proof (rule leads_move)
  fix s q pc assume q: "lw_redis s = k" "at_pc s (ci_id i) q pc" "gl_turn q = ci_turn i" "gl_class q = ci_class i"
    "phase pc = Running 0 0 tok"
  from phase_cases(2) [OF q(5)] obtain a b where "pc = Running a b tok" by blast
  with q(2) have "at_pc s (ci_id i) q (Running a b tok)" by simp
  note step = call_step.read_unlock [OF this, of R c e k1 view ttl ok] call_step.write_unlock [OF this, of R c e k1 view ttl ok]
  from step assms q(1,3,4) show "\<exists>pc' n. phase pc' = Leaving 0 \<and> call_step R view ttl ok s ((move (ci_id i) q pc' k1 s)\<lparr>lw_tries := n\<rparr>)"
    by (intro exI [of _ "Leaving a"] exI [of _ "lw_tries s"]) (simp split: if_splits)
qed

lemma release_leads:
  assumes "sl_Release R c (ci_session i) (ci_turn i) k = (e, k1)"
  shows "leads (call_step R view ttl ok) i (Leaving 0) k Ended k1"
proof (rule leads_move)
  fix s q pc assume q: "lw_redis s = k" "at_pc s (ci_id i) q pc" "gl_session q = ci_session i" "gl_turn q = ci_turn i"
    "phase pc = Leaving 0"
  from phase_cases(3) [OF q(5)] obtain a where "pc = Leaving a" by blast
  with q(2) have "at_pc s (ci_id i) q (Leaving a)" by simp
  from call_step.release [OF this, of R c e k1 view ttl ok] assms q(1,3,4)
  show "\<exists>pc' n. phase pc' = Ended \<and> call_step R view ttl ok s ((move (ci_id i) q pc' k1 s)\<lparr>lw_tries := n\<rparr>)"
    by (intro exI [of _ Ended] exI [of _ "lw_tries s"]) simp
qed

text \<open>The poll loops, which may also have run out of their fuel.\<close>

lemma sl_Acquire_leads:
  assumes "returned (sl_Acquire R l c (ci_session i) (ci_turn i) k) k = (out, k')" "milliseconds (sl_ttl l) = ttl"
    and "\<And>d k. 0 < d \<Longrightarrow> leads (call_step R view ttl ok) i Waiting k Waiting (snd (rd_sleep R c d k))"
  shows "leads (call_step R view ttl ok) i Waiting k (if is_ret out then InSession 0 else Ended) k'"
proof (cases "sl_Acquire R l c (ci_session i) (ci_turn i) k")
  case None
  with assms(1) busy_leads show ?thesis by (auto simp: returned_def)
next
  case (Some y)
  then have "sl_Acquire R l c (ci_session i) (ci_turn i) k = Some (out, k')" using assms(1) by (simp add: returned_def)
  from poll_leads [OF this [unfolded sl_Acquire_def assms(2)] acquire_leads assms(3) busy_leads] show ?thesis .
qed

lemma rw_ReadLock_leads:
  assumes "returned (rw_ReadLock R l c (ci_turn i) k) k = (out, k')" "milliseconds (rw_ttl l) = ttl" "ci_class i = OperationClassRead"
    and "\<And>d k. 0 < d \<Longrightarrow> leads (call_step R view ttl ok) i (InSession 0) k (InSession 0) (snd (rd_sleep R c d k))"
  shows "leads (call_step R view ttl ok) i (InSession 0) k (if is_ret out then Running 0 0 [] else Leaving 0) k'"
proof (cases "rw_ReadLock R l c (ci_turn i) k")
  case None
  with assms(1) turn_busy_leads show ?thesis by (auto simp: returned_def)
next
  case (Some y)
  then have "rw_ReadLock R l c (ci_turn i) k = Some (out, k')" using assms(1) by (simp add: returned_def)
  from poll_leads [OF this [unfolded rw_ReadLock_def assms(2)] read_leads [OF _ assms(3)] assms(4) turn_busy_leads] show ?thesis .
qed

lemma rw_WriteLock_leads:
  assumes "returned (rw_WriteLock R l rand c (ci_turn i) k) k = (out, k')" "milliseconds (rw_ttl l) = ttl" "ci_class i \<noteq> OperationClassRead"
    and "\<And>d k. 0 < d \<Longrightarrow> leads (call_step R view ttl ok) i (InSession 0) k (InSession 0) (snd (rd_sleep R c d k))"
  shows "leads (call_step R view ttl ok) i (InSession 0) k (case out of Ret tok \<Rightarrow> Running 0 0 tok | _ \<Rightarrow> Leaving 0) k'"
proof (cases "newTurnWriteOwnerToken rand")
  case (Ret tok)
  show ?thesis
  proof (cases "rw_WriteLock R l rand c (ci_turn i) k")
    case None
    with assms(1) turn_busy_leads show ?thesis by (auto simp: returned_def)
  next
    case (Some y)
    then have "rw_WriteLock R l rand c (ci_turn i) k = Some (out, k')" using assms(1) by (simp add: returned_def)
    with Ret obtain o1 where o: "poll_loop (poll_fuel (rw_timeout l)) R c
        (evalAcquireResult R c (turnWriteLockScript R (turnReadersKey (ci_turn i)) (turnWriteLockKey (ci_turn i)) tok ttl))
        (EWrap (for_turn ''acquire write'' (ci_turn i))) (turn_timeout ''write'' (ci_turn i)) (rw_timeout l)
        (rd_now R k + rw_timeout l) k = Some (o1, k')" "out = go_bind o1 (\<lambda>_. Ret tok)"
      by (auto simp: rw_WriteLock_def assms(2))
    from poll_leads [OF o(1) write_leads [OF _ assms(3)] assms(4) turn_busy_leads] o(2) show ?thesis by (cases o1) simp_all
  qed
next
  case (Fail e)
  with assms(1) turn_busy_leads show ?thesis by (auto simp: rw_WriteLock_def returned_def)
next
  case (Panic m)
  with assms(1) have "out = Panic m" "k' = k" by (simp_all add: rw_WriteLock_def returned_def)
  with turn_busy_leads show ?thesis by simp
qed

lemma deferred_state: "snd (deferred r out) = snd r"
  by (cases r; cases "fst r") (simp_all add: deferred_def)

section \<open>A call of the gateway\<close>

lemma on_redis_simps [simp]:
  "gw_redis (snd (gw_on_redis f w)) = snd (f (gw_redis w))" "fst (gw_on_redis f w) = fst (f (gw_redis w))"
  by (simp_all add: gw_on_redis_def split: prod.splits)

lemma next_rand_redis [simp]: "gw_redis (snd (gw_next_rand w)) = gw_redis w"
  by (simp add: gw_next_rand_def split: list.splits)

lemma on_redis_eq: "f (gw_redis w) = (x, k) \<Longrightarrow> gw_on_redis f w = (x, w\<lparr>gw_redis := k\<rparr>)"
  by (simp add: gw_on_redis_def)

lemma guard_turn_leads:
  fixes D :: "('k, 'n) gateway_deps" and w :: "('k, 'n) gateway"
  assumes "ci_class i = Classify (Some (NewOperationClassifier (pol_classes (gd_policy D)))) tool"
    and "milliseconds (rw_ttl (gd_rwlock D)) = ttl"
    and "\<And>d k. 0 < d \<Longrightarrow> leads (call_step (gd_redis D) view ttl ok) i (InSession 0) k (InSession 0) (snd (rd_sleep (gd_redis D) c d k))"
    and "\<And>tok w. leads (call_step (gd_redis D) view ttl ok) i (Running 0 0 tok) (gw_redis w) (Running 0 0 tok) (gw_redis (snd (fn w)))"
  shows "leads (call_step (gd_redis D) view ttl ok) i (InSession 0) (gw_redis w) (Leaving 0)
    (gw_redis (snd (guard_turn (gw_guard D) c (ci_turn i) tool fn w)))"
proof -
  let ?L = "leads (call_step (gd_redis D) view ttl ok) i"
  show ?thesis
  proof (cases "ci_class i = OperationClassRead")
    case True
    note cl = this [unfolded assms(1)]
    obtain o1 k1 where l: "returned (rw_ReadLock (gd_redis D) (gd_rwlock D) c (ci_turn i) (gw_redis w)) (gw_redis w) = (o1, k1)"
      by (metis prod.exhaust)
    have lock: "?L (InSession 0) (gw_redis w) (if is_ret o1 then Running 0 0 [] else Leaving 0) k1"
      by (rule rw_ReadLock_leads [OF l assms(2) True]) (rule assms(3))
    obtain o2 w2 where f: "fn (w\<lparr>gw_redis := k1\<rparr>) = (o2, w2)" by (metis prod.exhaust)
    obtain e k3 where u: "rw_ReadUnlock (gd_redis D) c (ci_turn i) (gw_redis w2) = (e, k3)" by (metis prod.exhaust)
    from f assms(4) [of "[]" "w\<lparr>gw_redis := k1\<rparr>"] have run: "?L (Running 0 0 []) k1 (Running 0 0 []) (gw_redis w2)" by simp
    have unlock: "?L (Running 0 0 []) (gw_redis w2) (Leaving 0) k3" by (rule unlock_leads [where c = c and e = e]) (simp add: True u)
    show ?thesis
      using lock leads_trans [OF leads_trans [OF _ run] unlock, of "InSession 0" "gw_redis w"] l f u cl
      by (cases o1) (simp_all add: guard_turn_def gw_guard_def gw_on_redis_def deferred_state)
  next
    case False
    note cl = this [unfolded assms(1)]
    obtain b w0 where b: "gw_next_rand w = (b, w0)" by (metis prod.exhaust)
    then have w0: "gw_redis w0 = gw_redis w" using next_rand_redis [of w] by simp
    obtain o1 k1 where l: "returned (rw_WriteLock (gd_redis D) (gd_rwlock D) b c (ci_turn i) (gw_redis w0)) (gw_redis w0) = (o1, k1)"
      by (metis prod.exhaust)
    have lock: "?L (InSession 0) (gw_redis w) (case o1 of Ret tok \<Rightarrow> Running 0 0 tok | _ \<Rightarrow> Leaving 0) k1"
      by (rule rw_WriteLock_leads [OF l assms(2) False, unfolded w0]) (rule assms(3))
    show ?thesis
    proof (cases o1)
      case (Ret tok)
      obtain o2 w2 where f: "fn (w0\<lparr>gw_redis := k1\<rparr>) = (o2, w2)" by (metis prod.exhaust)
      obtain e k3 where u: "rw_WriteUnlock (gd_redis D) c (ci_turn i) tok (gw_redis w2) = (e, k3)" by (metis prod.exhaust)
      from f assms(4) [of tok "w0\<lparr>gw_redis := k1\<rparr>"] have run: "?L (Running 0 0 tok) k1 (Running 0 0 tok) (gw_redis w2)" by simp
      have unlock: "?L (Running 0 0 tok) (gw_redis w2) (Leaving 0) k3"
        by (rule unlock_leads [where c = c and e = e]) (simp add: False u)
      show ?thesis
        using leads_trans [OF leads_trans [OF lock [unfolded Ret, simplified] run] unlock] Ret b l f u cl
        by (simp add: guard_turn_def gw_guard_def gw_on_redis_def deferred_state)
    qed (use lock b l cl in \<open>simp_all add: guard_turn_def gw_guard_def gw_on_redis_def\<close>)
  qed
qed


text \<open>A sleep of the in-memory Redis: time passes, then the clock moves by the rest of the milliseconds.\<close>

lemma phase_older [simp]: "phase (older x pc) = phase pc"
  by (cases pc) simp_all

lemma passes_leads: "0 \<le> x \<Longrightarrow> leads (call_step R view ttl (\<lambda>_ _. True)) i ph k ph (rd_tick R x k)"
  unfolding leads_def
proof (intro allI impI)
  fix s assume x: "0 \<le> x" and s: "in_phase i ph k s"
  from call_step.passes [OF x, of "\<lambda>_ _. True" s R view ttl] s
  show "\<exists>s'. (call_step R view ttl (\<lambda>_ _. True))\<^sup>*\<^sup>* s s' \<and> in_phase i ph (rd_tick R x k) s'"
    by (intro exI conjI, intro r_into_rtranclp) (auto simp: in_phase_def)
qed

lemma others_leads: "lock_keys_same (view k) (view k') \<Longrightarrow> leads (call_step R view ttl ok) i ph k ph k'"
  unfolding leads_def
proof (intro allI impI)
  fix s assume k: "lock_keys_same (view k) (view k')" and s: "in_phase i ph k s"
  from call_step.others [of view s k' R ttl ok] k s
  show "\<exists>s'. (call_step R view ttl ok)\<^sup>*\<^sup>* s s' \<and> in_phase i ph k' s'"
    by (intro exI conjI, intro r_into_rtranclp) (auto simp: in_phase_def)
qed

lemma mem_sleep_leads:
  assumes "0 < d"
  shows "leads (call_step mem_redis mem_view ttl (\<lambda>_ _. True)) i ph k ph (snd (rd_sleep mem_redis c d k))"
proof (cases "ctx_err c")
  case None
  have "0 \<le> d div 1000000" using assms by simp
  note pass = passes_leads [OF this, of mem_redis mem_view ttl i ph k]
  have "lock_keys_same (mem_view (rd_tick mem_redis (d div 1000000) k)) (mem_view (snd (rd_sleep mem_redis c d k)))"
    using None by (simp add: mem_redis_def lock_keys_same_def)
  from leads_trans [OF pass others_leads [OF this]] show ?thesis .
qed (simp add: mem_redis_def)


end
