(* ===== verification/Schema.thy ===== *)
theory Schema
  imports Audit_Log Tickets
begin

text \<open>
  \<open>cmd/gateway/db.go\<close> and \<open>redis.go\<close>: the connections made at the start and the migration of the
  schema. Of a table the model keeps what the statements look at: its \<open>CHECK\<close> constraints, each a name
  and the values it admits for the column \<open>decision\<close> or \<open>status\<close>, and the values of that column in
  its rows. The outcome of each statement that does not depend on the schema (the connection, the
  rights) is taken from a list of outcomes to come.
\<close>

section \<open>Connections\<close>

text \<open>The client is made from the parsed DSN and pinged; a client or a pool that does not answer is
  closed again (the second component).\<close>

definition NewRedisClient :: "(string \<Rightarrow> 'o go) \<Rightarrow> ('o \<Rightarrow> 'c) \<Rightarrow> ('c \<Rightarrow> goerr option) \<Rightarrow> string \<Rightarrow> 'c go \<times> 'c list" where
  "NewRedisClient parse new_client ping dsn =
     (case parse dsn of
        Panic m \<Rightarrow> (Panic m, [])
      | Fail e \<Rightarrow> (Fail (EWrap ''parse redis dsn'' e), [])
      | Ret opts \<Rightarrow>
          (let c = new_client opts in
           case ping c of
             Some e \<Rightarrow> (Fail (EWrap ''ping redis'' e), [c])
           | None \<Rightarrow> (Ret c, [])))"

record pool_config =
  pc_max :: nat
  pc_min :: nat
  pc_idle :: int
  pc_health :: int

definition NewDBPool ::
  "(string \<Rightarrow> 'o go) \<Rightarrow> ('o \<Rightarrow> pool_config \<Rightarrow> 'c go) \<Rightarrow> ('c \<Rightarrow> goerr option) \<Rightarrow> string \<Rightarrow> 'c go \<times> 'c list" where
  "NewDBPool parse new_pool ping dsn =
     (case parse dsn of
        Panic m \<Rightarrow> (Panic m, [])
      | Fail e \<Rightarrow> (Fail (EWrap ''parse postgres dsn'' e), [])
      | Ret opts \<Rightarrow>
          (case new_pool opts \<lparr>pc_max = 5, pc_min = 1, pc_idle = 5 * 60 * 1000000000, pc_health = 60 * 1000000000\<rparr> of
             Panic m \<Rightarrow> (Panic m, [])
           | Fail e \<Rightarrow> (Fail (EWrap ''create postgres pool'' e), [])
           | Ret c \<Rightarrow>
               (case ping c of
                  Some e \<Rightarrow> (Fail (EWrap ''ping postgres'' e), [c])
                | None \<Rightarrow> (Ret c, []))))"

section \<open>The schema\<close>

record checked_table =
  ct_checks :: "(string \<times> string list) list"
  ct_values :: "string list"

record schema =
  sc_pgcrypto :: bool
  sc_audit :: "checked_table option"
  sc_ticket :: "checked_table option"
  sc_indexes :: "string list"

type_synonym statement = "schema \<Rightarrow> goerr option \<times> schema"

definition accepts :: "checked_table \<Rightarrow> string \<Rightarrow> bool" where
  "accepts t v = list_all (\<lambda>c. v \<in> set (snd c)) (ct_checks t)"

definition create_table :: "string \<Rightarrow> string list \<Rightarrow> checked_table option \<Rightarrow> checked_table option" where
  "create_table name vs t =
     (case t of
        Some old \<Rightarrow> Some old
      | None \<Rightarrow> Some \<lparr>ct_checks = [(name, vs)], ct_values = []\<rparr>)"

definition create_index :: "string \<Rightarrow> string list \<Rightarrow> string list" where
  "create_index i is = (if i \<in> set is then is else is @ [i])"

text \<open>The blocks that repair a constraint: one constraint whose definition matches is dropped and the
  current one is added under its name, which fails, the drop undone, if a constraint of this name is
  left or a row does not satisfy it.\<close>

definition repair :: "((string \<times> string list) \<Rightarrow> bool) \<Rightarrow> string \<Rightarrow> string list \<Rightarrow> checked_table \<Rightarrow> goerr option \<times> checked_table" where
  "repair matching name vs t =
     (case find matching (ct_checks t) of
        None \<Rightarrow> (None, t)
      | Some c \<Rightarrow>
          (let rest = filter (\<lambda>d. fst d \<noteq> fst c) (ct_checks t)
           in if name \<in> fst ` set rest
              then (Some (EMsg (''constraint '' @ go_quote name @ '' already exists'')), t)
              else if \<not> list_all (\<lambda>v. v \<in> set vs) (ct_values t)
              then (Some (EMsg (''check constraint '' @ go_quote name @ '' is violated by some row'')), t)
              else (None, t\<lparr>ct_checks := rest @ [(name, vs)]\<rparr>)))"

definition mentions :: "string \<Rightarrow> string \<times> string list \<Rightarrow> bool" where
  "mentions w c = list_ex (\<lambda>v. contains v w) (snd c)"

definition repair_audit :: statement where
  "repair_audit s =
     (case sc_audit s of
        None \<Rightarrow> (Some (EMsg ''relation audit_log does not exist''), s)
      | Some t \<Rightarrow>
          (case repair (\<lambda>c. \<not> mentions ''upstream_error'' c) ''audit_log_decision_check'' audit_decisions t of
             (e, t1) \<Rightarrow> (e, s\<lparr>sc_audit := Some t1\<rparr>)))"

definition repair_ticket :: statement where
  "repair_ticket s =
     (case sc_ticket s of
        None \<Rightarrow> (Some (EMsg ''relation ticket does not exist''), s)
      | Some t \<Rightarrow>
          (case repair (mentions ''rejected'') ''ticket_status_check'' ticket_statuses t of
             (e, t1) \<Rightarrow> (e, s\<lparr>sc_ticket := Some t1\<rparr>)))"

definition schemaStatements :: "statement list" where
  "schemaStatements =
     [(\<lambda>s. (None, s\<lparr>sc_audit := create_table ''audit_log_decision_check'' audit_decisions (sc_audit s)\<rparr>)),
      (\<lambda>s. (None, s\<lparr>sc_indexes := create_index ''audit_log_session_turn'' (sc_indexes s)\<rparr>)),
      repair_audit,
      (\<lambda>s. (None, s\<lparr>sc_ticket := create_table ''ticket_status_check'' ticket_statuses (sc_ticket s)\<rparr>)),
      (\<lambda>s. (None, s\<lparr>sc_indexes := create_index ''ticket_status_expires'' (sc_indexes s)\<rparr>)),
      repair_ticket]"

text \<open>\<open>pool.Exec\<close>: the next outcome of the connection, then the statement.\<close>

definition exec_statement :: "goerr option list \<Rightarrow> statement \<Rightarrow> statement" where
  "exec_statement faults st s =
     (case faults of
        Some e # _ \<Rightarrow> (Some e, s)
      | _ \<Rightarrow> st s)"

fun apply_statements :: "goerr option list \<Rightarrow> statement list \<Rightarrow> statement" where
  "apply_statements faults [] s = (None, s)"
| "apply_statements faults (st # sts) s =
     (case exec_statement faults st s of
        (Some e, s1) \<Rightarrow> (Some (EWrap ''apply schema statement'' e), s1)
      | (None, s1) \<Rightarrow> apply_statements (tl faults) sts s1)"

definition MigrateSchema :: "goerr option list \<Rightarrow> statement" where
  "MigrateSchema faults s =
     (case exec_statement faults (\<lambda>s. (None, s\<lparr>sc_pgcrypto := True\<rparr>)) s of
        (Some e, s1) \<Rightarrow> (Some (EWrap ''ensure pgcrypto extension'' e), s1)
      | (None, s1) \<Rightarrow> apply_statements (tl faults) schemaStatements s1)"

section \<open>Facts\<close>

text \<open>The migration when the connection works, in terms of the two tables.\<close>

definition migrate_audit :: "checked_table option \<Rightarrow> goerr option \<times> checked_table" where
  "migrate_audit t = repair (\<lambda>c. \<not> mentions ''upstream_error'' c) ''audit_log_decision_check'' audit_decisions
     (the (create_table ''audit_log_decision_check'' audit_decisions t))"

definition migrate_ticket :: "checked_table option \<Rightarrow> goerr option \<times> checked_table" where
  "migrate_ticket t = repair (mentions ''rejected'') ''ticket_status_check'' ticket_statuses
     (the (create_table ''ticket_status_check'' ticket_statuses t))"

lemma create_table_Some: "create_table n vs t = Some (the (create_table n vs t))"
  by (cases t) (simp_all add: create_table_def)

lemma MigrateSchema_tables:
  "MigrateSchema [] s =
     (case migrate_audit (sc_audit s) of
        (Some e, a) \<Rightarrow>
          (Some (EWrap ''apply schema statement'' e),
           s\<lparr>sc_pgcrypto := True, sc_audit := Some a, sc_indexes := create_index ''audit_log_session_turn'' (sc_indexes s)\<rparr>)
      | (None, a) \<Rightarrow>
          (case migrate_ticket (sc_ticket s) of
             (e, t) \<Rightarrow>
               (map_option (EWrap ''apply schema statement'') e,
                \<lparr>sc_pgcrypto = True, sc_audit = Some a, sc_ticket = Some t,
                 sc_indexes = create_index ''ticket_status_expires''
                   (create_index ''audit_log_session_turn'' (sc_indexes s))\<rparr>)))"
proof -
  obtain e a where a: "migrate_audit (sc_audit s) = (e, a)" by (cases "migrate_audit (sc_audit s)")
  obtain e' t where t: "migrate_ticket (sc_ticket s) = (e', t)" by (cases "migrate_ticket (sc_ticket s)")
  obtain ta tt where c: "create_table ''audit_log_decision_check'' audit_decisions (sc_audit s) = Some ta"
     "create_table ''ticket_status_check'' ticket_statuses (sc_ticket s) = Some tt"
    using create_table_Some by metis
  from a t c show ?thesis
    by (cases e; cases e'; cases s)
      (simp_all add: MigrateSchema_def schemaStatements_def exec_statement_def repair_audit_def repair_ticket_def
        migrate_audit_def migrate_ticket_def)
qed

lemma canonical_mentions [simp]:
  "mentions ''upstream_error'' (n, audit_decisions)" "\<not> mentions ''rejected'' (n, ticket_statuses)"
  by (simp_all add: mentions_def) code_simp+

lemma mentions_member: "w \<in> set vs \<Longrightarrow> mentions w (n, vs)"
proof -
  have "contains w w" unfolding contains_iff by (rule exI [of _ "[]"]) simp
  then show "w \<in> set vs \<Longrightarrow> mentions w (n, vs)" by (auto simp: mentions_def list_ex_iff)
qed

lemma accepts_single [simp]: "accepts \<lparr>ct_checks = [(n, vs)], ct_values = xs\<rparr> v \<longleftrightarrow> v \<in> set vs"
  by (simp add: accepts_def)

text \<open>A table as earlier versions left it: one constraint, which either is found by the repair or
  admits all current values.\<close>

definition legacy :: "((string \<times> string list) \<Rightarrow> bool) \<Rightarrow> string list \<Rightarrow> checked_table option \<Rightarrow> bool" where
  "legacy matching vs t =
     (case t of
        None \<Rightarrow> True
      | Some u \<Rightarrow> \<exists>c. ct_checks u = [c] \<and> (matching c \<or> set vs \<subseteq> set (snd c)))"

lemma repair_legacy:
  assumes "repair matching name vs (the (create_table name vs t)) = (None, u)" "legacy matching vs t"
    "\<not> matching (name, vs)"
  shows "list_all (accepts u) vs \<and> (\<exists>c. ct_checks u = [c] \<and> \<not> matching c)"
proof (cases t)
  case None
  with assms show ?thesis by (auto simp: create_table_def repair_def list_all_iff)
next
  case (Some t')
  with assms(2) obtain c where c: "ct_checks t' = [c]" "matching c \<or> set vs \<subseteq> set (snd c)"
    by (auto simp: legacy_def)
  show ?thesis
  proof (cases "matching c")
    case True
    with assms(1) Some c(1) have "u = t'\<lparr>ct_checks := [(name, vs)]\<rparr>"
      by (auto simp: create_table_def repair_def Let_def split: if_splits)
    with assms(3) show ?thesis by (simp add: accepts_def list_all_iff)
  next
    case False
    with assms(1) Some c have "u = t'" by (auto simp: create_table_def repair_def)
    with c False show ?thesis by (auto simp: accepts_def list_all_iff)
  qed
qed

lemma repair_none: "ct_checks u = [c] \<Longrightarrow> \<not> matching c \<Longrightarrow> repair matching name vs u = (None, u)"
  by (simp add: repair_def)

section \<open>Properties\<close>


definition empty_schema :: schema where
  "empty_schema = \<lparr>sc_pgcrypto = False, sc_audit = None, sc_ticket = None, sc_indexes = []\<rparr>"


text \<open>
  A database of an earlier version that holds a ticket with the status \<open>rejected\<close> cannot be
  migrated: the repair drops the old constraint, cannot add the new one because of that row, and so
  fails, leaving the table as it is for the next start to fail again.
\<close>

theorem rejected_ticket_blocks_migration:
  assumes "sc_ticket s = Some \<lparr>ct_checks = [(''ticket_status_check'', vs)], ct_values = xs\<rparr>"
    and "''rejected'' \<in> set vs" and "''rejected'' \<in> set xs"
  shows "fst (MigrateSchema [] s) \<noteq> None \<and> sc_ticket (snd (MigrateSchema [] s)) = sc_ticket s"
proof -
  have m: "mentions ''rejected'' (n, vs)" for n
    using assms(2) by (rule mentions_member)
  have r: "''rejected'' \<notin> set ticket_statuses" by (simp add: ticket_statuses_def)
  have "migrate_ticket (sc_ticket s) =
      (Some (EMsg (''check constraint '' @ go_quote ''ticket_status_check'' @ '' is violated by some row'')), the (sc_ticket s))"
    using assms(1,3) m r by (auto simp: migrate_ticket_def create_table_def repair_def list_all_iff)
  with assms(1) show ?thesis by (simp add: MigrateSchema_tables split: prod.splits option.splits)
qed

theorem rejected_ticket_blocks_migration_witness:
  "fst (MigrateSchema [] (empty_schema\<lparr>sc_ticket :=
     Some \<lparr>ct_checks = [(''ticket_status_check'', [''pending'', ''rejected''])], ct_values = [''rejected'']\<rparr>\<rparr>)) \<noteq> None"
  using rejected_ticket_blocks_migration [of "empty_schema\<lparr>sc_ticket :=
     Some \<lparr>ct_checks = [(''ticket_status_check'', [''pending'', ''rejected''])], ct_values = [''rejected'']\<rparr>\<rparr>"]
  by simp

text \<open>
  The repair of the audit table looks for constraints without \<open>upstream_error\<close> only: one that
  has it and lacks \<open>expired\<close> stays, and the table keeps refusing the records of approvals that
  timed out.
\<close>

theorem expired_decision_not_repaired:
  assumes "sc_audit s = Some \<lparr>ct_checks = [(n, vs)], ct_values = xs\<rparr>"
    and "''upstream_error'' \<in> set vs" and "''expired'' \<notin> set vs"
  shows "\<exists>a. sc_audit (snd (MigrateSchema [] s)) = Some a \<and> \<not> accepts a ''expired''"
proof -
  have "mentions ''upstream_error'' (n, vs)"
    using assms(2) by (rule mentions_member)
  then have "migrate_audit (sc_audit s) = (None, the (sc_audit s))"
    by (simp add: migrate_audit_def create_table_def assms(1) repair_def)
  with assms show ?thesis by (simp add: MigrateSchema_tables split: prod.splits)
qed

theorem expired_decision_not_repaired_witness:
  "\<exists>a. sc_audit (snd (MigrateSchema [] (empty_schema\<lparr>sc_audit :=
     Some \<lparr>ct_checks = [(''audit_log_decision_check'', [''allow'', ''upstream_error''])], ct_values = []\<rparr>\<rparr>))) = Some a \<and>
     \<not> accepts a ''expired''"
  using expired_decision_not_repaired [of "empty_schema\<lparr>sc_audit :=
     Some \<lparr>ct_checks = [(''audit_log_decision_check'', [''allow'', ''upstream_error''])], ct_values = []\<rparr>\<rparr>"]
  by simp

end
