(* ===== verification/Spec2Isabelle.thy ===== *)
theory Spec2Isabelle
  imports Eval_Main Held_Call Example_Servers Approval_Pubsub Gateway_Calls Schema
begin

text \<open>
  A verification library for this repository: an MCP gateway that stands between AI agents and the MCP
  servers of their tools, decides every tool call by a policy, holds calls for human approval, keeps
  an audit log, and an eval runner that drives agents against it and judges the log they leave.

  \<^bold>\<open>The program.\<close> The gateway (\<open>cmd/gateway\<close>, with \<open>core/mcp\<close> and \<open>core/policy\<close>) is an HTTP server. A
  \<open>tools/call\<close> of a session runs under two locks kept in Redis (one per session, owned by a turn, and one
  per turn, with readers and writers) through a pipeline: request log, injection of the session and
  turn ids, policy gate, forwarder to the upstream. The gate counts the calls of the turn, evaluates
  the policy, writes an audit record and lets the call through, refuses it, redacts its arguments or holds
  it: it inserts a ticket, has Lark send a card and waits on a Redis channel until Lark's callback,
  which updates the ticket first, publishes the decision. The eval runner (\<open>cmd/eval-runner\<close>) sends the
  input of a case to an agent, polls the audit log of its session, checks the trace and reports; it runs from
  the command line around \<open>docker compose\<close> or as a service with event streams and failure scenarios.

  \<^bold>\<open>Foundations.\<close> \<open>Prelude\<close>: Go errors (\<open>goerr\<close>), the results of calls that return, fail or panic (\<open>go\<close>),
  the functions of \<open>strings\<close> and \<open>strconv\<close> the source uses. \<open>Json\<close>: JSON values with objects as lists
  of members, so that repeated and case-folded names behave as in \<open>encoding/json\<close>; numbers are kept as text
  and as IEEE doubles. \<open>Utf8\<close>, \<open>Json_Text\<close> and \<open>Json_Parse\<close>: bytes and characters, the text the encoder writes and the parser that
  reads it back, a scanner with a stack as in \<open>encoding/json\<close>. \<open>Go_Time\<close>: \<open>time.ParseDuration\<close> and
  \<open>strconv.Atoi\<close>. \<open>Serve_Mux\<close>: the patterns of the mux of \<open>net/http\<close> that the servers register. \<open>Redis_Api\<close>: the documented commands of Redis with expiry as the locale \<open>redis_api\<close>,
  interpreted on a store in memory, and the polling loop of the locks with its fuel.

  \<^bold>\<open>Gateway.\<close> One theory for each part, named as the code names it, states as records and operations as
  functions on them: \<open>Mcp_Types\<close> (\<open>core/mcp/types.go\<close>), \<open>Policy\<close> (\<open>core/policy\<close>), \<open>Pipeline\<close>
  (\<open>pipeline.go\<close>, \<open>handler.go\<close>), \<open>Tool_Call\<close> (\<open>injector.go\<close>, \<open>logger.go\<close> and the parameter functions
  of \<open>policy_gate.go\<close>), \<open>Audit_Log\<close> (\<open>audit.go\<close>), \<open>Tickets\<close> (\<open>ticket.go\<close>), \<open>Budget\<close> and
  \<open>Policy_Gate\<close> (\<open>policy_gate.go\<close>), \<open>Forwarder\<close> (\<open>forwarder.go\<close>), \<open>Session_Locker\<close>, \<open>Turn_RWLock\<close>,
  \<open>Sessions\<close>, \<open>Classifier\<close>, \<open>Concurrency_Guard\<close>, \<open>Capability_Cache\<close> (the files of these names),
  \<open>Approval_Bridge\<close>, \<open>Lark_Webhook\<close> (\<open>slack_webhook.go\<close>), \<open>Lark_Notifier\<close> (\<open>slack_notifier.go\<close>),
  \<open>Server\<close> (\<open>server.go\<close>), \<open>Config\<close>, \<open>Schema\<close> (\<open>db.go\<close>, \<open>redis.go\<close>). \<open>Approval_Pubsub\<close> is the goroutine that forwards the
  messages of a subscription, \<open>Approval_Flow\<close> puts webhook and ticket store together, \<open>Gateway\<close> (\<open>main.go\<close>) everything on one
  state, \<open>Gateway_Http\<close> the served routes on top of it. \<open>Guarded_Calls\<close> is the transition system of many calls at once under the guard,
  and \<open>Gateway_Calls\<close> shows that the calls of the gateway are its paths. \<open>Held_Call\<close> follows a held call from the gate through
  the mock of Lark and the callback to the upstream.

  \<^bold>\<open>Examples.\<close> \<open>Mock_Lark\<close>, \<open>Mock_Slack\<close> and \<open>Fake_Servers\<close> are the handlers of the stand-ins under \<open>examples\<close>,
  \<open>Example_Servers\<close> their \<open>main\<close> functions and routes.

  \<^bold>\<open>Eval runner.\<close> \<open>Eval_Case\<close> (\<open>types.go\<close>, \<open>suite.go\<close>, \<open>evaluator.go\<close>), \<open>Eval_Report\<close>
  (\<open>reporter.go\<close>, \<open>execution.go\<close>), \<open>Eval_Runner\<close> (\<open>runner.go\<close>), \<open>Eval_Service\<close> (\<open>stream.go\<close>,
  \<open>stack_health.go\<close> and the handlers of \<open>serve.go\<close>), \<open>Scenarios\<close> (\<open>scenarios.go\<close>), \<open>Eval_Main\<close>
  (\<open>main.go\<close>, \<open>config.go\<close>, \<open>orchestrator.go\<close>, \<open>serve\<close>).

  \<^bold>\<open>What is shown.\<close> Mediation: what reaches the upstream was permitted by the gate for the arguments the gate saw,
  after its audit record, whatever HTTP request was sent, and every queued record satisfies the constraints of the table. Locks: the Lua scripts
  refine leases (locale \<open>lease_lock\<close>), a held lock cannot be taken by another turn while it lives, readers and writers exclude
  each other, the guard releases what it got in every case, panics included; calls that interleave freely exclude each other while they are
  timely, an abandoned lock is free after its time to live, and each call of the gateway is a path of that system. Approval: only
  authentic callbacks decide, a decision is final through every sequence of requests, the first decisive event ends a wait, what a wait returns was
  published, and a held call runs end to end after the press of its card. Forwarding: answers come from the last exchange, lost
  sessions are recovered. Texts: the parser reads back what
  the encoder writes. Start: configuration and migration. Eval: what makes a case pass, that a healthy log reaches its verdict
  in time, that reports and streams carry exactly the results, that the command line and the service agree, that the stack is always
  taken down. The theorems named after failures (\<open>crafted_call_takes_no_lock\<close> among them) show inputs on which the code does not do
  what it means to.

  \<^bold>\<open>Interfaces.\<close> The contracts between parts are locales, each interpreted on the model of the code:
  \<open>redis_api\<close>, \<open>redis_client\<close> and \<open>redis_ttl\<close> (which extend it), \<open>poll_clock\<close>, \<open>lease_lock\<close>, \<open>budget_counter\<close>, \<open>gate_world\<close> and \<open>gate_frame\<close> (what the gate needs of its
  collaborators), \<open>bridge_frame\<close>, \<open>ticket_updater\<close>, \<open>webhook_world\<close>, \<open>passive_handler\<close>, \<open>response_slot\<close>, \<open>audit_clock\<close>,
  \<open>guard_frame\<close> (what a guarded call keeps) and \<open>ticket_frame\<close> (what a request keeps of the tickets).

  \<^bold>\<open>Parameters.\<close> Redis, Postgres outcomes, HTTP exchanges, the YAML decoder, SHA-256, HMAC, \<open>url.Parse\<close>,
  clocks and random bytes are arguments of the definitions; what is relied on of them is a hypothesis where it is used.

  \<^bold>\<open>Bounds.\<close> The lock loops run with \<open>poll_fuel\<close>, three rounds more than the intervals that fit the timeout; the polls of
  the audit log with \<open>audit_fuel\<close>, two more than the intervals that fit. Both are shown to suffice for a clock that does not go back.
  \<open>duration_sum\<close> takes the length of the text.

  \<^bold>\<open>Interleaving.\<close> Redis scripts and single statements are atomic steps; the lock theorems quantify over all sequences of such steps. Calls under
  the guard interleave by \<open>call_step\<close>, one round trip to Redis at a time, with the passing of time between them. The
  goroutines are modelled by events: the audit worker as steps between the writes, the subscription of a wait as the list of events it
  receives, which \<open>ps_step\<close> gives for every interleaving of the publisher, the forwarding goroutine and the wait, the notification as
  started before the wait.

  \<^bold>\<open>Not modelled.\<close> Connections, TLS and the percent escapes, hosts and wildcards of mux patterns, which no route of the program uses; the drivers
  of Postgres and Redis; the MCP SDK of the fake servers, which decodes their arguments; the pages of the UI; log lines that
  carry no decision. They are third-party code, plain output or assets. The lines of the implementation that no definition is mapped to
  are imports, such log lines and type declarations of this kind.
\<close>

end
